(* ===== verification/Go_Base.thy ===== *)
theory Go_Base
  imports Main "HOL-Library.Word" "HOL-Library.List_Lexorder"
begin

text \<open>
  The prelude of the development: the parts of the Go language and of its standard library
  that the modelled packages share. Bytes and unsigned integers are words of their width, a Go
  string is its byte sequence, a Go \<^verbatim>\<open>error\<close> is a value of \<open>go_error\<close> (the sentinel
  variables of all packages are the constructors of \<open>sentinel\<close>), a function that returns
  \<^verbatim>\<open>(T, error)\<close> returns a sum, a function that returns only \<^verbatim>\<open>error\<close> returns an option,
  \<^verbatim>\<open>[32]byte\<close> is a type of its own whose values have exactly 32 bytes, and an
  \<^verbatim>\<open>io.Reader\<close> is the bytes it delivers together with the way it ends (theory \<open>Go_Bytes\<close>).
  The two collections \<open>bytes_simps\<close> and \<open>result_simps\<close> carry the proofs about lengths and results.
\<close>

section \<open>Proof collections\<close>

named_theorems bytes_simps \<open>lengths and slices of byte strings\<close>
named_theorems result_simps \<open>inversion of results and guards\<close>

section \<open>Integers, bytes and strings\<close>

type_synonym u8 = "8 word"
type_synonym u64 = "64 word"

text \<open>A signed \<^verbatim>\<open>int64\<close> is also a 64-bit word; it is always read with \<open>sint\<close>.\<close>
type_synonym i64 = "64 word"

type_synonym bytes = "u8 list"

text \<open>Go strings are byte sequences; \<open>ascii\<close> is the byte sequence of a literal.\<close>
type_synonym gostring = "u8 list"

definition ascii :: "string \<Rightarrow> gostring" where
  "ascii s = map of_char s"

lemma ascii_Nil [simp]: "ascii [] = []"
  by (simp add: ascii_def)

lemma ascii_Cons [simp]: "ascii (c # cs) = of_char c # ascii cs"
  by (simp add: ascii_def)

lemma length_ascii [simp]: "length (ascii s) = length s"
  by (simp add: ascii_def)

definition max_int64 :: i64 where
  "max_int64 = 0x7FFFFFFFFFFFFFFF"

lemma sint_max_int64 [simp]: "sint max_int64 = 2 ^ 63 - 1"
  by (simp add: max_int64_def)

text \<open>A signed successor does not wrap unless the value is the largest one.\<close>

lemma sint_succ:
  assumes "m \<noteq> max_int64"
  shows "sint (m + 1) = sint m + 1"
proof -
  have "sint m \<noteq> sint max_int64"
    using assms signed_word_eqI [of m max_int64] by blast
  moreover have "sint m < 2 ^ 63" "- (2 ^ 63) \<le> sint m"
    using sint_ge [of m] sint_lt [of m] by simp_all
  ultimately have "- (2 ^ 63) \<le> sint m + 1" "sint m + 1 < 2 ^ 63"
    by simp_all
  then have "signed_take_bit 63 (sint m + 1) = sint m + 1"
    by (intro signed_take_bit_int_eq_self) simp_all
  then show ?thesis
    by (simp add: signed_take_bit_int_eq_self_iff sint_word_ariths)
qed

text \<open>\<^verbatim>\<open>bits.Len64\<close>: the number of bits needed to represent the value, 0 for 0.\<close>

fun bit_len :: "nat \<Rightarrow> nat" where
  "bit_len n = (if n = 0 then 0 else Suc (bit_len (n div 2)))"

declare bit_len.simps [simp del]

lemma bit_len_0 [simp]: "bit_len 0 = 0"
  by (simp add: bit_len.simps)

lemma bit_len_pos: "0 < n \<Longrightarrow> bit_len n = Suc (bit_len (n div 2))"
  by (simp add: bit_len.simps [of n])

lemma bit_len_less: "n < 2 ^ bit_len n"
proof (induction n rule: bit_len.induct)
  case (1 n)
  show ?case
  proof (cases "n = 0")
    case False
    with 1 have "n div 2 < 2 ^ bit_len (n div 2)" by simp
    with False show ?thesis by (simp add: bit_len_pos)
  qed simp
qed

lemma bit_len_le: "0 < n \<Longrightarrow> 2 ^ (bit_len n - 1) \<le> n"
proof (induction n rule: bit_len.induct)
  case (1 n)
  show ?case
  proof (cases "n div 2 = 0")
    case True
    with 1 show ?thesis by (simp add: bit_len_pos)
  next
    case False
    with 1 have IH: "2 ^ (bit_len (n div 2) - 1) \<le> n div 2" by simp
    from False have "bit_len (n div 2) = Suc (bit_len (n div 2) - 1)"
      by (simp add: bit_len_pos)
    then have "2 ^ bit_len (n div 2) = (2::nat) * 2 ^ (bit_len (n div 2) - 1)"
      by (metis power_Suc)
    with IH "1.prems" show ?thesis by (simp add: bit_len_pos)
  qed
qed

definition len64 :: "u64 \<Rightarrow> nat" where
  "len64 x = bit_len (unat x)"

lemma len64_le: "len64 x \<le> 64"
proof (rule ccontr)
  assume "\<not> len64 x \<le> 64"
  then have "unat x \<noteq> 0" by (auto simp: len64_def intro: ccontr)
  then have "2 ^ (len64 x - 1) \<le> unat x"
    unfolding len64_def by (intro bit_len_le) simp
  moreover have "(2::nat) ^ 64 \<le> 2 ^ (len64 x - 1)"
    using \<open>\<not> len64 x \<le> 64\<close> by (intro power_increasing) simp_all
  moreover have "unat x < 2 ^ 64" using unsigned_less [of x, where ?'a = nat] by simp
  ultimately show False by linarith
qed

section \<open>Errors and results\<close>

text \<open>
  The package-level error variables: \<^verbatim>\<open>proof.ErrUnsupported\<close>, the ones of
  \<^verbatim>\<open>internal/storage\<close> and the ones of \<^verbatim>\<open>integrations/paperless/agent\<close>.
\<close>

datatype sentinel =
    ErrUnsupported
  | ErrConflict | ErrNotFound | ErrNotBatched | ErrEmpty | ErrInvalid | ErrCorrupt
  | ErrInvalidEvent | ErrNotConfigured | ErrVersionChanged | ErrMissingDocument
  | ErrOversizedFetch | ErrReconcilerNotConfigured
  | ErrWebhookNotConfigured | ErrWebhookSignature | ErrWebhookBody
  | ErrInvalidConfig | ErrFetchUnauthorized | ErrFetchNotFound | ErrFetchFailed | ErrArchiveMissing

text \<open>
  \<open>New s\<close> is the value of an \<^verbatim>\<open>errors.New\<close> at its place of use, \<open>Sent\<close> one of the
  variables above, \<open>Join\<close> the value of \<^verbatim>\<open>errors.Join\<close>, \<open>Wrap\<close> that of
  \<^verbatim>\<open>fmt.Errorf("%w: ...")\<close>.
\<close>

datatype go_error = New string | Sent sentinel | Join go_error go_error | Wrap sentinel string

fun errors_is :: "go_error \<Rightarrow> sentinel \<Rightarrow> bool" where
  "errors_is (New s) t = False"
| "errors_is (Sent s) t = (s = t)"
| "errors_is (Join a b) t = (errors_is a t \<or> errors_is b t)"
| "errors_is (Wrap s m) t = (s = t)"

fun sentinel_text :: "sentinel \<Rightarrow> string" where
  "sentinel_text ErrUnsupported = ''unsupported proof package profile or feature''"
| "sentinel_text ErrConflict = ''idempotency or source-version conflict''"
| "sentinel_text ErrNotFound = ''record not found''"
| "sentinel_text ErrNotBatched = ''evidence has no frozen batch''"
| "sentinel_text ErrEmpty = ''no pending evidence''"
| "sentinel_text ErrInvalid = ''invalid storage input''"
| "sentinel_text ErrCorrupt = ''inconsistent storage record''"
| "sentinel_text ErrInvalidEvent = ''invalid paperless event''"
| "sentinel_text ErrNotConfigured = ''paperless runner is not configured''"
| "sentinel_text ErrVersionChanged = ''paperless representation changed while fetching''"
| "sentinel_text ErrMissingDocument = ''paperless fetch returned no document''"
| "sentinel_text ErrOversizedFetch = ''paperless fetch exceeded byte limit''"
| "sentinel_text ErrReconcilerNotConfigured = ''paperless reconciler is not configured''"
| "sentinel_text ErrWebhookNotConfigured = ''paperless webhook is not configured''"
| "sentinel_text ErrWebhookSignature = ''invalid paperless webhook signature''"
| "sentinel_text ErrWebhookBody = ''invalid paperless webhook body''"
| "sentinel_text ErrInvalidConfig = ''invalid paperless http fetcher configuration''"
| "sentinel_text ErrFetchUnauthorized = ''paperless fetch was unauthorized''"
| "sentinel_text ErrFetchNotFound = ''paperless document was not found''"
| "sentinel_text ErrFetchFailed = ''paperless fetch failed''"
| "sentinel_text ErrArchiveMissing = ''paperless archive representation is absent''"

text \<open>The text of \<^verbatim>\<open>err.Error()\<close>; joined errors are separated by a newline.\<close>

fun error_text :: "go_error \<Rightarrow> string" where
  "error_text (New s) = s"
| "error_text (Sent s) = sentinel_text s"
| "error_text (Join a b) = error_text a @ CHR 0x0A # error_text b"
| "error_text (Wrap s m) = sentinel_text s @ '': '' @ m"

type_synonym 'a result = "go_error + 'a"

text \<open>\<^verbatim>\<open>x, err := m; if err != nil { return ..., err }\<close>, then the rest of the function.\<close>

definition bindE :: "'a result \<Rightarrow> ('a \<Rightarrow> 'b result) \<Rightarrow> 'b result" where
  "bindE m f = (case m of Inl e \<Rightarrow> Inl e | Inr x \<Rightarrow> f x)"

lemma bindE_Inl [simp]: "bindE (Inl e) f = Inl e"
  by (simp add: bindE_def)

lemma bindE_Inr [simp]: "bindE (Inr x) f = f x"
  by (simp add: bindE_def)

lemma bindE_eq_Inr [result_simps]: "bindE m f = Inr y \<longleftrightarrow> (\<exists>x. m = Inr x \<and> f x = Inr y)"
  by (auto simp: bindE_def split: sum.splits)

lemma bindE_eq_Inl [result_simps]:
  "bindE m f = Inl e \<longleftrightarrow> m = Inl e \<or> (\<exists>x. m = Inr x \<and> f x = Inl e)"
  by (auto simp: bindE_def split: sum.splits)

lemma bindE_assoc: "bindE (bindE m f) g = bindE m (\<lambda>x. bindE (f x) g)"
  by (simp add: bindE_def split: sum.splits)

text \<open>\<^verbatim>\<open>if err := check(); err != nil { return ..., err }\<close>, then the rest.\<close>

definition guardE :: "go_error option \<Rightarrow> 'a result \<Rightarrow> 'a result" where
  "guardE c r = (case c of Some e \<Rightarrow> Inl e | None \<Rightarrow> r)"

lemma guardE_None [simp]: "guardE None r = r"
  by (simp add: guardE_def)

lemma guardE_Some [simp]: "guardE (Some e) r = Inl e"
  by (simp add: guardE_def)

lemma guardE_eq_Inr [result_simps]: "guardE c r = Inr y \<longleftrightarrow> c = None \<and> r = Inr y"
  by (simp add: guardE_def split: option.splits)

lemma guardE_eq_Inl [result_simps]:
  "guardE c r = Inl e \<longleftrightarrow> c = Some e \<or> c = None \<and> r = Inl e"
  by (auto simp: guardE_def split: option.splits)

lemma if_Inl_eq_Inr [result_simps]: "(if c then Inl e else r) = Inr y \<longleftrightarrow> \<not> c \<and> r = Inr y"
  by simp

lemma result_cases: obtains e where "r = Inl e" | x where "r = Inr x"
  by (cases r) auto

end
