(* ===== verification/Go_Bytes.thy ===== *)
theory Go_Bytes
  imports Go_Base
begin

text \<open>
  Byte-level parts of the Go library that the program uses: \<^verbatim>\<open>[32]byte\<close> arrays and
  \<^verbatim>\<open>copy\<close> into them, \<^verbatim>\<open>encoding/binary.BigEndian\<close>, \<^verbatim>\<open>encoding/hex\<close>,
  \<^verbatim>\<open>unicode/utf8\<close>, limited reads from an \<^verbatim>\<open>io.Reader\<close> and reads from
  \<^verbatim>\<open>crypto/rand\<close>; and the contract of a strict binary format.
\<close>

section \<open>Slices\<close>

text \<open>\<^verbatim>\<open>xs[i:j]\<close> for indices inside the slice.\<close>

definition slice :: "nat \<Rightarrow> nat \<Rightarrow> 'a list \<Rightarrow> 'a list" where
  "slice i j xs = take (j - i) (drop i xs)"

lemma length_slice [simp, bytes_simps]: "j \<le> length xs \<Longrightarrow> length (slice i j xs) = j - i"
  by (simp add: slice_def)

lemma slice_append [bytes_simps]:
  assumes "i \<le> j" and "j \<le> k"
  shows "slice i j xs @ slice j k xs = slice i k xs"
proof -
  have "take (k - i) (drop i xs) = take (j - i) (drop i xs) @ take (k - j) (drop (j - i) (drop i xs))"
    using assms take_add [of "j - i" "k - j" "drop i xs"] by simp
  then show ?thesis using assms by (simp add: slice_def)
qed

lemma slice_append_rest [bytes_simps]:
  "i \<le> j \<Longrightarrow> j \<le> k \<Longrightarrow> slice i j xs @ slice j k xs @ ys = slice i k xs @ ys"
  by (simp flip: append_assoc add: slice_append)

lemma slice_all [simp]: "length xs \<le> k \<Longrightarrow> slice 0 k xs = xs"
  by (simp add: slice_def)

lemma slice_single: "i < length xs \<Longrightarrow> slice i (Suc i) xs = [xs ! i]"
  by (simp add: slice_def take_Suc_conv_app_nth)

lemma slice_skip [simp]:
  "length xs = m \<Longrightarrow> m \<le> i \<Longrightarrow> slice i j (xs @ ys) = slice (i - m) (j - m) ys"
  by (simp add: slice_def)

lemma slice_Cons [simp]: "0 < i \<Longrightarrow> slice i j (x # xs) = slice (i - 1) (j - 1) xs"
  by (cases i) (simp_all add: slice_def)

lemma slice_prefix [simp]: "length xs = j \<Longrightarrow> slice 0 j (xs @ ys) = xs"
  by (simp add: slice_def)

section \<open>Arrays of 32 bytes\<close>

typedef b32 = "{bs :: bytes. length bs = 32}" morphisms b32_bytes Abs_b32
  by (rule exI [of _ "replicate 32 0"]) simp

lemma Abs_b32_b32_bytes [code abstype]: "Abs_b32 (b32_bytes h) = h"
  by (rule b32_bytes_inverse)

text \<open>\<^verbatim>\<open>var a [32]byte; copy(a[:], bs)\<close>: what is missing stays zero, what is too long is cut.\<close>

definition b32_copy :: "bytes \<Rightarrow> b32" where
  "b32_copy bs = Abs_b32 (take 32 (bs @ replicate 32 0))"

lemma b32_bytes_b32_copy [code abstract]:
  "b32_bytes (b32_copy bs) = take 32 (bs @ replicate 32 0)"
  by (simp add: b32_copy_def Abs_b32_inverse)

lemma length_b32_bytes [simp, bytes_simps]: "length (b32_bytes h) = 32"
  using b32_bytes [of h] by simp

lemma b32_bytes_neq_Nil [simp]: "b32_bytes h \<noteq> []"
  using length_b32_bytes [of h] by (metis list.size(3) zero_neq_numeral)

lemma b32_copy_bytes [simp]: "b32_copy (b32_bytes h) = h"
  by (simp add: b32_copy_def b32_bytes_inverse)

lemma b32_bytes_copy [simp]: "length bs = 32 \<Longrightarrow> b32_bytes (b32_copy bs) = bs"
  by (simp add: b32_bytes_b32_copy)

instantiation b32 :: equal
begin

definition equal_b32 :: "b32 \<Rightarrow> b32 \<Rightarrow> bool" where
  "equal_b32 a b \<longleftrightarrow> b32_bytes a = b32_bytes b"

instance
  by standard (simp add: equal_b32_def b32_bytes_inject)

end

text \<open>Arrays are ordered as their byte strings, as \<^verbatim>\<open>bytes.Compare\<close> orders them.\<close>

instantiation b32 :: linorder
begin

definition less_eq_b32 :: "b32 \<Rightarrow> b32 \<Rightarrow> bool" where
  "less_eq_b32 a b \<longleftrightarrow> b32_bytes a \<le> b32_bytes b"

definition less_b32 :: "b32 \<Rightarrow> b32 \<Rightarrow> bool" where
  "less_b32 a b \<longleftrightarrow> b32_bytes a < b32_bytes b"

instance
  by standard (auto simp: less_eq_b32_def less_b32_def b32_bytes_inject less_le_not_le)

end

section \<open>Big-endian integers\<close>

primrec be_bytes :: "nat \<Rightarrow> nat \<Rightarrow> bytes" where
  "be_bytes 0 v = []"
| "be_bytes (Suc n) v = be_bytes n (v div 256) @ [of_nat (v mod 256)]"

definition be_value :: "bytes \<Rightarrow> nat" where
  "be_value bs = foldl (\<lambda>a b. a * 256 + unat b) 0 bs"

lemma length_be_bytes [simp, bytes_simps]: "length (be_bytes n v) = n"
  by (induction n arbitrary: v) simp_all

lemma be_value_Nil [simp]: "be_value [] = 0"
  by (simp add: be_value_def)

lemma be_value_snoc [simp]: "be_value (bs @ [b]) = be_value bs * 256 + unat b"
  by (simp add: be_value_def)

lemma be_value_less: "be_value bs < 256 ^ length bs"
proof (induction bs rule: rev_induct)
  case (snoc b bs)
  have "unat b < 256" using unsigned_less [of b, where ?'a = nat] by simp
  moreover have "be_value bs + 1 \<le> 256 ^ length bs" using snoc by simp
  then have "(be_value bs + 1) * 256 \<le> 256 ^ length bs * 256" by simp
  ultimately show ?case by simp
qed simp

lemma be_value_be_bytes: "be_value (be_bytes n v) = v mod 256 ^ n"
proof (induction n arbitrary: v)
  case (Suc n)
  have "unat (of_nat (v mod 256) :: u8) = v mod 256"
    by (simp add: unat_of_nat)
  then show ?case
    using Suc [of "v div 256"] by (simp add: mod_mult2_eq)
qed simp

lemma be_bytes_be_value: "be_bytes (length bs) (be_value bs) = bs"
proof (induction bs rule: rev_induct)
  case (snoc b bs)
  have "unat b < 256" using unsigned_less [of b, where ?'a = nat] by simp
  then show ?case using snoc by simp
qed simp

text \<open>\<^verbatim>\<open>binary.BigEndian.PutUint64\<close> into 8 bytes and \<^verbatim>\<open>binary.BigEndian.Uint64\<close>.\<close>

definition put_uint64 :: "u64 \<Rightarrow> bytes" where
  "put_uint64 w = be_bytes 8 (unat w)"

definition get_uint64 :: "bytes \<Rightarrow> u64" where
  "get_uint64 bs = of_nat (be_value bs)"

lemma length_put_uint64 [simp, bytes_simps]: "length (put_uint64 w) = 8"
  by (simp add: put_uint64_def)

lemma get_put_uint64 [simp]: "get_uint64 (put_uint64 w) = w"
proof -
  have "unat w mod 256 ^ 8 = unat w"
    using unsigned_less [of w, where ?'a = nat] by simp
  then show ?thesis
    by (simp add: get_uint64_def put_uint64_def be_value_be_bytes del: power_numeral)
qed

lemma put_get_uint64 [simp]: "length bs = 8 \<Longrightarrow> put_uint64 (get_uint64 bs) = bs"
proof -
  assume len: "length bs = 8"
  have "be_value bs < 2 ^ 64"
    using be_value_less [of bs] len by simp
  then have "unat (get_uint64 bs) = be_value bs"
    by (simp add: get_uint64_def unat_of_nat)
  then show ?thesis
    using be_bytes_be_value [of bs] len by (simp add: put_uint64_def)
qed

lemma put_uint64_inject [simp]: "put_uint64 a = put_uint64 b \<longleftrightarrow> a = b"
  by (metis get_put_uint64)

lemma append_less_append:
  fixes xs ys :: "'a::linorder list"
  assumes "length xs = length ys"
  shows "xs @ as < ys @ bs \<longleftrightarrow> xs < ys \<or> xs = ys \<and> as < bs"
  using assms by (induction xs ys rule: list_induct2) auto

text \<open>The byte order of big-endian encodings is the numeric order.\<close>

lemma be_bytes_less:
  "a < 256 ^ n \<Longrightarrow> b < 256 ^ n \<Longrightarrow> be_bytes n a < be_bytes n b \<longleftrightarrow> a < b"
proof (induction n arbitrary: a b)
  case (Suc n)
  have IH: "be_bytes n (a div 256) < be_bytes n (b div 256) \<longleftrightarrow> a div 256 < b div 256"
    using Suc.prems by (intro Suc.IH) (simp_all add: less_mult_imp_div_less mult.commute)
  have eq: "be_bytes n (a div 256) = be_bytes n (b div 256) \<longleftrightarrow> a div 256 = b div 256"
    using Suc.prems be_value_be_bytes [of n "a div 256"] be_value_be_bytes [of n "b div 256"]
    by (metis less_mult_imp_div_less mod_less mult.commute power_Suc)
  have low: "(of_nat (a mod 256) :: u8) < of_nat (b mod 256) \<longleftrightarrow> a mod 256 < b mod 256"
    by (simp add: word_less_nat_alt unat_of_nat)
  have "a = a div 256 * 256 + a mod 256" "b = b div 256 * 256 + b mod 256"
    and "a mod 256 < 256" "b mod 256 < 256"
    by simp_all
  then have "a < b \<longleftrightarrow> a div 256 < b div 256 \<or> a div 256 = b div 256 \<and> a mod 256 < b mod 256"
    by linarith
  then show ?case
    by (simp add: append_less_append IH eq low)
qed simp

lemma put_uint64_less: "put_uint64 a < put_uint64 b \<longleftrightarrow> a < b"
proof -
  have "unat a < 256 ^ 8" "unat b < 256 ^ 8"
    using unsigned_less [of a, where ?'a = nat] unsigned_less [of b, where ?'a = nat] by simp_all
  then show ?thesis
    unfolding put_uint64_def by (simp only: be_bytes_less word_less_nat_alt)
qed

section \<open>Hexadecimal text\<close>

definition hex_digit :: "nat \<Rightarrow> u8" where
  "hex_digit n = of_nat (if n < 10 then 48 + n else 87 + n)"

text \<open>\<^verbatim>\<open>hex.EncodeToString\<close>: two lower case digits per byte.\<close>

definition hex_encode :: "bytes \<Rightarrow> gostring" where
  "hex_encode bs = concat (map (\<lambda>b. [hex_digit (unat b div 16), hex_digit (unat b mod 16)]) bs)"

definition hex_value :: "u8 \<Rightarrow> nat option" where
  "hex_value c = (if 48 \<le> c \<and> c \<le> 57 then Some (unat c - 48)
     else if 97 \<le> c \<and> c \<le> 102 then Some (unat c - 87)
     else if 65 \<le> c \<and> c \<le> 70 then Some (unat c - 55)
     else None)"

text \<open>\<^verbatim>\<open>hex.DecodeString\<close>: both letter cases; \<open>None\<close> where it returns an error.\<close>

fun hex_decode :: "gostring \<Rightarrow> bytes option" where
  "hex_decode [] = Some []"
| "hex_decode [c] = None"
| "hex_decode (c # d # cs) =
     (case hex_value c of None \<Rightarrow> None | Some h \<Rightarrow>
      case hex_value d of None \<Rightarrow> None | Some l \<Rightarrow>
      map_option (\<lambda>bs. of_nat (16 * h + l) # bs) (hex_decode cs))"

lemma hex_encode_Nil [simp]: "hex_encode [] = []"
  by (simp add: hex_encode_def)

lemma hex_encode_Cons [simp]:
  "hex_encode (b # bs) = hex_digit (unat b div 16) # hex_digit (unat b mod 16) # hex_encode bs"
  by (simp add: hex_encode_def)

lemma length_hex_encode [simp, bytes_simps]: "length (hex_encode bs) = 2 * length bs"
  by (induction bs) simp_all

lemma hex_value_digit:
  assumes "n < 16"
  shows "hex_value (hex_digit n) = Some n"
proof -
  have "\<forall>n \<in> set [0..<16]. hex_value (hex_digit n) = Some n"
    by (simp add: upt_rec hex_value_def hex_digit_def)
  with assms show ?thesis by simp
qed

lemma hex_decode_encode [simp]: "hex_decode (hex_encode bs) = Some bs"
proof (induction bs)
  case (Cons b bs)
  have "unat b < 256" using unsigned_less [of b, where ?'a = nat] by simp
  then have "unat b div 16 < 16" "unat b mod 16 < 16" by simp_all
  moreover have "(of_nat (16 * (unat b div 16) + unat b mod 16) :: u8) = b"
    by (simp only: mult_div_mod_eq of_nat_unat ucast_id)
  ultimately show ?case using Cons by (simp add: hex_value_digit)
qed simp

lemma hex_encode_inject [simp]: "hex_encode a = hex_encode b \<longleftrightarrow> a = b"
  by (metis hex_decode_encode option.inject)

section \<open>Text\<close>

definition utf8_cont :: "u8 \<Rightarrow> bool" where
  "utf8_cont b \<longleftrightarrow> 0x80 \<le> b \<and> b \<le> 0xBF"

text \<open>The well-formed runes of two, three and four bytes.\<close>

definition rune2 :: "u8 \<Rightarrow> u8 \<Rightarrow> bool" where
  "rune2 a b \<longleftrightarrow> 0xC2 \<le> a \<and> a \<le> 0xDF \<and> utf8_cont b"

definition rune3 :: "u8 \<Rightarrow> u8 \<Rightarrow> u8 \<Rightarrow> bool" where
  "rune3 a b c \<longleftrightarrow> 0xE0 \<le> a \<and> a \<le> 0xEF \<and>
     (if a = 0xE0 then 0xA0 \<le> b \<and> b \<le> 0xBF
      else if a = 0xED then 0x80 \<le> b \<and> b \<le> 0x9F
      else utf8_cont b) \<and> utf8_cont c"

definition rune4 :: "u8 \<Rightarrow> u8 \<Rightarrow> u8 \<Rightarrow> u8 \<Rightarrow> bool" where
  "rune4 a b c d \<longleftrightarrow> 0xF0 \<le> a \<and> a \<le> 0xF4 \<and>
     (if a = 0xF0 then 0x90 \<le> b \<and> b \<le> 0xBF
      else if a = 0xF4 then 0x80 \<le> b \<and> b \<le> 0x8F
      else utf8_cont b) \<and> utf8_cont c \<and> utf8_cont d"

text \<open>The number of bytes of the UTF-8 rune at the head of a string, 0 when it is not valid.\<close>

fun rune_len :: "bytes \<Rightarrow> nat" where
  "rune_len [] = 0"
| "rune_len [a] = (if a \<le> 0x7F then 1 else 0)"
| "rune_len [a, b] = (if a \<le> 0x7F then 1 else if rune2 a b then 2 else 0)"
| "rune_len [a, b, c] =
     (if a \<le> 0x7F then 1 else if rune2 a b then 2 else if rune3 a b c then 3 else 0)"
| "rune_len (a # b # c # d # r) =
     (if a \<le> 0x7F then 1 else if rune2 a b then 2 else if rune3 a b c then 3
      else if rune4 a b c d then 4 else 0)"

lemma rune_len_le: "rune_len s \<le> length s"
  by (cases s rule: rune_len.cases) auto

lemma rune_len_ascii [simp]: "a \<le> 0x7F \<Longrightarrow> rune_len (a # bs) = 1"
  by (cases "a # bs" rule: rune_len.cases) auto

lemma rune_len_2: "\<not> a \<le> 0x7F \<Longrightarrow> rune2 a b \<Longrightarrow> rune_len (a # b # r) = 2"
  by (cases "a # b # r" rule: rune_len.cases) simp_all

lemma rune_len_3:
  "\<not> a \<le> 0x7F \<Longrightarrow> \<not> rune2 a b \<Longrightarrow> rune3 a b c \<Longrightarrow> rune_len (a # b # c # r) = 3"
  by (cases "a # b # c # r" rule: rune_len.cases) simp_all

lemma rune_len_cases:
  assumes "0 < rune_len s"
  obtains (one) a r where "s = a # r" "a \<le> 0x7F" "rune_len s = 1"
    | (two) a b r where "s = a # b # r" "\<not> a \<le> 0x7F" "rune2 a b" "rune_len s = 2"
    | (three) a b c r where "s = a # b # c # r" "\<not> a \<le> 0x7F" "\<not> rune2 a b" "rune3 a b c"
        "rune_len s = 3"
    | (four) a b c d r where "s = a # b # c # d # r" "\<not> a \<le> 0x7F" "\<not> rune2 a b"
        "\<not> rune3 a b c" "rune4 a b c d" "rune_len s = 4"
  using assms by (cases s rule: rune_len.cases) (simp_all split: if_split_asm)

lemma rune_len_take: "0 < rune_len s \<Longrightarrow> rune_len (take (rune_len s) s @ t) = rune_len s"
  by (erule rune_len_cases) (simp_all add: rune_len_2 rune_len_3)

text \<open>\<^verbatim>\<open>utf8.ValidString\<close>: the well-formed byte sequences of RFC 3629.\<close>

function utf8_valid :: "bytes \<Rightarrow> bool" where
  "utf8_valid [] = True"
| "utf8_valid (a # bs) =
     (if 0 < rune_len (a # bs) then utf8_valid (drop (rune_len (a # bs)) (a # bs)) else False)"
  by pat_completeness auto
termination
  by (relation "measure length") simp_all

lemma utf8_valid_ascii_Cons [simp]: "a \<le> 0x7F \<Longrightarrow> utf8_valid (a # bs) = utf8_valid bs"
  by simp

declare utf8_valid.simps(2) [simp del]

lemma utf8_valid_ascii: "\<forall>a \<in> set bs. a \<le> 0x7F \<Longrightarrow> utf8_valid bs"
  by (induction bs) simp_all

lemma hex_digit_ascii:
  assumes "n < 16"
  shows "hex_digit n \<le> 0x7F \<and> hex_digit n \<noteq> 0"
proof -
  have "\<forall>n \<in> set [0..<16]. hex_digit n \<le> 0x7F \<and> hex_digit n \<noteq> 0"
    by (simp add: upt_rec hex_digit_def)
  with assms show ?thesis by simp
qed

lemma hex_encode_ascii: "\<forall>c \<in> set (hex_encode bs). c \<le> 0x7F \<and> c \<noteq> 0"
proof (induction bs)
  case (Cons b bs)
  have "unat b < 256" using unsigned_less [of b, where ?'a = nat] by simp
  then have "unat b div 16 < 16" "unat b mod 16 < 16" by simp_all
  then show ?case using Cons hex_digit_ascii by simp
qed simp

section \<open>Readers and random bytes\<close>

text \<open>
  An \<^verbatim>\<open>io.Reader\<close> as its caller can observe it: the bytes it delivers, and how it ends,
  by \<^verbatim>\<open>io.EOF\<close>, by an error that a separate \<^verbatim>\<open>Read\<close> call returns, or by an error returned
  together with the last bytes. A nil reader is \<open>None\<close> where the code tests for it.
\<close>

datatype ending = Eof | Fail_after go_error | Fail_with go_error

record reader =
  content :: bytes
  ending :: ending

definition bytes_reader :: "bytes \<Rightarrow> reader" where
  "bytes_reader bs = \<lparr>content = bs, ending = Eof\<rparr>"

lemma bytes_reader_sel [simp]:
  "content (bytes_reader bs) = bs" "ending (bytes_reader bs) = Eof"
  by (simp_all add: bytes_reader_def)

text \<open>
  \<^verbatim>\<open>io.ReadAll(io.LimitReader(r, n))\<close>, also the bytes that
  \<^verbatim>\<open>io.Copy(w, io.LimitReader(r, n))\<close> copies: the limited reader reports end of file once
  \<open>n\<close> bytes were delivered, without another read of \<open>r\<close>, and at once when \<open>n\<close> is not
  positive.
\<close>

definition read_limited :: "reader \<Rightarrow> i64 \<Rightarrow> bytes result" where
  "read_limited r n =
     (let lim = nat (sint n); have = length (content r) in
      if lim = 0 then Inr []
      else if lim < have then Inr (take lim (content r))
      else case ending r of
          Eof \<Rightarrow> Inr (content r)
        | Fail_after e \<Rightarrow> if lim = have then Inr (content r) else Inl e
        | Fail_with e \<Rightarrow> Inl e)"

lemma read_limited_length: "read_limited r n = Inr bs \<Longrightarrow> length bs \<le> nat (sint n)"
  by (auto simp: read_limited_def Let_def split: if_splits ending.splits)

lemma read_limited_short:
  assumes "read_limited r n = Inr bs" and "length bs < nat (sint n)"
  shows "bs = content r \<and> ending r = Eof"
  using assms by (auto simp: read_limited_def Let_def split: if_splits ending.splits)

lemma read_limited_Eof:
  assumes "ending r = Eof" and "length (content r) < nat (sint n)"
  shows "read_limited r n = Inr (content r)"
  using assms by (auto simp: read_limited_def Let_def)

lemma read_limited_prefix: "read_limited r n = Inr bs \<Longrightarrow> bs = take (length bs) (content r)"
  by (auto simp: read_limited_def Let_def split: if_splits ending.splits)

text \<open>
  \<^verbatim>\<open>crypto/rand.Read\<close> draws from a source of entropy: the outcomes of the successive
  reads a call makes, each an error or the bytes delivered. A read past the end of the list is
  a failed read.
\<close>

type_synonym entropy = "bytes result list"

fun rand_read :: "entropy \<Rightarrow> bytes result \<times> entropy" where
  "rand_read [] = (Inl (New ''entropy source exhausted''), [])"
| "rand_read (r # rs) = (r, rs)"

section \<open>The contract of a strict binary format\<close>

text \<open>
  An encoder and a decoder that agree on both sides: what was encoded decodes to the same
  value, and what is accepted is exactly the encoding of the value returned. The three binary
  formats of the program promise this contract; its clients use the consequences below.
\<close>

locale strict_codec =
  fixes enc :: "'a \<Rightarrow> bytes result"
    and dec :: "bytes \<Rightarrow> 'a result"
  assumes dec_enc: "enc x = Inr bs \<Longrightarrow> dec bs = Inr x"
    and enc_dec: "dec bs = Inr x \<Longrightarrow> enc x = Inr bs"
begin

lemma dec_iff_enc: "dec bs = Inr x \<longleftrightarrow> enc x = Inr bs"
  using dec_enc enc_dec by blast

lemma enc_inj: "enc x = Inr bs \<Longrightarrow> enc y = Inr bs \<Longrightarrow> x = y"
  by (auto dest!: dec_enc)

lemma dec_inj: "dec a = Inr x \<Longrightarrow> dec b = Inr x \<Longrightarrow> a = b"
  by (auto dest!: enc_dec)

lemma rejected: "(\<And>x. enc x \<noteq> Inr bs) \<Longrightarrow> \<exists>e. dec bs = Inl e"
  using enc_dec by (cases "dec bs") blast+

end

text \<open>A strict format whose encodings have bounded length.\<close>

locale bounded_codec = strict_codec +
  fixes lo hi :: nat
  assumes enc_bounds: "enc x = Inr bs \<Longrightarrow> lo \<le> length bs \<and> length bs \<le> hi"
begin

lemma dec_bounds: "dec bs = Inr x \<Longrightarrow> lo \<le> length bs \<and> length bs \<le> hi"
  using enc_dec enc_bounds by blast

lemma dec_extension:
  "dec bs = Inr x \<Longrightarrow> hi < length (bs @ extra) \<Longrightarrow> \<exists>e. dec (bs @ extra) = Inl e"
  using dec_bounds [of "bs @ extra"] by (cases "dec (bs @ extra)") auto

end

end
