(* ===== verification/Go_Json.thy ===== *)
theory Go_Json
  imports Go_Bytes
begin

text \<open>
  The part of \<^verbatim>\<open>encoding/json\<close> that the program uses: the JSON values, their compact text as
  \<^verbatim>\<open>json.Marshal\<close> writes it (\<open>json_text\<close>), and the parser of \<^verbatim>\<open>json.Unmarshal\<close>
  (\<open>json_parse\<close>), with Go's treatment of escapes, of invalid UTF-8 and of nesting; then the
  conversions of numbers, byte strings and struct members between JSON values and Go values. The
  lemmas show that a text written is read back.
\<close>

section \<open>Code points\<close>

text \<open>The UTF-8 encoding of a code point; surrogates are replaced.\<close>

definition replacement :: bytes where
  "replacement = [0xEF, 0xBF, 0xBD]"

definition utf8_encode :: "nat \<Rightarrow> bytes" where
  "utf8_encode r =
     (if r < 0x80 then [of_nat r]
      else if r < 0x800 then [of_nat (0xC0 + r div 64), of_nat (0x80 + r mod 64)]
      else if 0xD800 \<le> r \<and> r < 0xE000 \<or> 0x10FFFF < r then replacement
      else if r < 0x10000 then
        [of_nat (0xE0 + r div 4096), of_nat (0x80 + r div 64 mod 64), of_nat (0x80 + r mod 64)]
      else [of_nat (0xF0 + r div 262144), of_nat (0x80 + r div 4096 mod 64),
            of_nat (0x80 + r div 64 mod 64), of_nat (0x80 + r mod 64)])"

section \<open>Strings\<close>

text \<open>One ASCII byte inside a JSON string; \<^verbatim>\<open>Marshal\<close> also escapes the HTML characters.\<close>

definition escape_ascii :: "u8 \<Rightarrow> bytes" where
  "escape_ascii c =
     (if c = 34 \<or> c = 92 then [92, c]
      else if c = 8 then ascii [CHR 0x5C, CHR ''b'']
      else if c = 12 then ascii [CHR 0x5C, CHR ''f'']
      else if c = 10 then ascii [CHR 0x5C, CHR ''n'']
      else if c = 13 then ascii [CHR 0x5C, CHR ''r'']
      else if c = 9 then ascii [CHR 0x5C, CHR ''t'']
      else if c < 32 \<or> c = 60 \<or> c = 62 \<or> c = 38
        then ascii [CHR 0x5C, CHR ''u'', CHR ''0'', CHR ''0''] @ hex_encode [c]
      else [c])"

definition escape_rune :: "bytes \<Rightarrow> bytes" where
  "escape_rune r =
     (if r = [0xE2, 0x80, 0xA8] then ascii (CHR 0x5C # ''u2028'')
      else if r = [0xE2, 0x80, 0xA9] then ascii (CHR 0x5C # ''u2029'')
      else r)"

function escape :: "bytes \<Rightarrow> bytes" where
  "escape [] = []"
| "escape (c # cs) =
     (if c \<le> 0x7F then escape_ascii c @ escape cs
      else let n = rune_len (c # cs) in
        if n = 0 then ascii (CHR 0x5C # ''ufffd'') @ escape cs
        else escape_rune (take n (c # cs)) @ escape (drop n (c # cs)))"
  by pat_completeness auto
termination
  by (relation "measure length") (simp_all add: rune_len_le)

declare escape.simps(2) [simp del]

definition quote :: "bytes \<Rightarrow> bytes" where
  "quote s = [34] @ escape s @ [34]"

text \<open>Four hexadecimal digits.\<close>

fun hex4 :: "bytes \<Rightarrow> (nat \<times> bytes) option" where
  "hex4 (a # b # c # d # r) =
     (case (hex_value a, hex_value b, hex_value c, hex_value d) of
        (Some x, Some y, Some z, Some w) \<Rightarrow> Some (((x * 16 + y) * 16 + z) * 16 + w, r)
      | _ \<Rightarrow> None)"
| "hex4 _ = None"

definition low_surrogate :: "bytes \<Rightarrow> (nat \<times> bytes) option" where
  "low_surrogate s =
     (case s of a # b # r \<Rightarrow>
        if a = 92 \<and> b = 117 then
          (case hex4 r of Some (v, r') \<Rightarrow> if 0xDC00 \<le> v \<and> v < 0xE000 then Some (v, r') else None
           | None \<Rightarrow> None)
        else None
      | _ \<Rightarrow> None)"

text \<open>What follows a backslash: the bytes it stands for and the rest.\<close>

definition unescape :: "bytes \<Rightarrow> (bytes \<times> bytes) option" where
  "unescape s = (case s of [] \<Rightarrow> None | c # cs \<Rightarrow>
     if c = 34 \<or> c = 92 \<or> c = 47 then Some ([c], cs)
     else if c = 98 then Some ([8], cs)
     else if c = 102 then Some ([12], cs)
     else if c = 110 then Some ([10], cs)
     else if c = 114 then Some ([13], cs)
     else if c = 116 then Some ([9], cs)
     else if c = 117 then
       (case hex4 cs of None \<Rightarrow> None | Some (v, r) \<Rightarrow>
          if 0xD800 \<le> v \<and> v < 0xDC00 then
            (case low_surrogate r of
               Some (l, r') \<Rightarrow> Some (utf8_encode (0x10000 + (v - 0xD800) * 1024 + (l - 0xDC00)), r')
             | None \<Rightarrow> Some (replacement, r))
          else Some (utf8_encode v, r))
     else None)"

lemma hex4_length: "hex4 s = Some (v, r) \<Longrightarrow> length r < length s"
  by (cases s rule: hex4.cases) (auto split: option.splits)

lemma low_surrogate_length: "low_surrogate s = Some (v, r) \<Longrightarrow> length r < length s"
  by (fastforce simp: low_surrogate_def dest: hex4_length split: list.splits if_splits option.splits)

lemma unescape_length: "unescape s = Some (v, r) \<Longrightarrow> length r < length s"
  by (auto simp: unescape_def split: list.splits if_splits option.splits dest!: hex4_length
      low_surrogate_length)

text \<open>The body of a string after its opening quote: the bytes it denotes and the rest.\<close>

definition prepend :: "bytes \<Rightarrow> (bytes \<times> bytes) option \<Rightarrow> (bytes \<times> bytes) option" where
  "prepend x y = map_option (\<lambda>(s, r). (x @ s, r)) y"

function unquote :: "bytes \<Rightarrow> (bytes \<times> bytes) option" where
  "unquote [] = None"
| "unquote (c # cs) =
     (if c = 34 then Some ([], cs)
      else if c = 92 then
        (case unescape cs of None \<Rightarrow> None | Some (x, r) \<Rightarrow> prepend x (unquote r))
      else if c < 32 then None
      else if c \<le> 0x7F then prepend [c] (unquote cs)
      else let n = rune_len (c # cs) in
        if n = 0 then prepend replacement (unquote cs)
        else prepend (take n (c # cs)) (unquote (drop n (c # cs))))"
  by pat_completeness auto
termination
  by (relation "measure length") (auto dest: unescape_length simp: rune_len_le)

declare unquote.simps(2) [simp del]

lemma prepend_Some [simp]: "prepend x (Some (s, r)) = Some (x @ s, r)"
  by (simp add: prepend_def)

lemma prepend_eq_Some: "prepend x y = Some (t, r) \<longleftrightarrow> (\<exists>s. y = Some (s, r) \<and> t = x @ s)"
  by (auto simp: prepend_def)

lemma unquote_length: "unquote s = Some (v, r) \<Longrightarrow> length r < length s"
proof (induction s arbitrary: v rule: unquote.induct)
  case (2 c cs)
  show ?case
    using 2 by (fastforce simp: unquote.simps(2) [of c] prepend_eq_Some Let_def dest: unescape_length
      split: if_splits option.splits)
qed simp

text \<open>Unquoting undoes quoting.\<close>

lemma utf8_encode_ascii: "c \<le> 0x7F \<Longrightarrow> utf8_encode (unat c) = [c]"
  by (simp add: utf8_encode_def word_le_nat_alt)

lemma hex4_ascii: "hex4 (48 # 48 # hex_encode [c] @ r) = Some (unat c, r)"
proof -
  have "unat c < 256" using unsigned_less [of c, where ?'a = nat] by simp
  then have "unat c div 16 < 16" "unat c mod 16 < 16" by simp_all
  then show ?thesis by (simp add: hex_value_digit) (simp add: hex_value_def)
qed

lemma unquote_escape_ascii:
  assumes "c \<le> 0x7F"
  shows "unquote (escape_ascii c @ t) = prepend [c] (unquote t)"
proof -
  consider "c = 34 \<or> c = 92" | "c = 8" | "c = 12" | "c = 10" | "c = 13" | "c = 9"
    | "c \<notin> {34, 92, 8, 12, 10, 13, 9}" "c < 32 \<or> c = 60 \<or> c = 62 \<or> c = 38"
    | "c \<notin> {34, 92, 8, 12, 10, 13, 9}" "\<not> (c < 32 \<or> c = 60 \<or> c = 62 \<or> c = 38)" by blast
  then show ?thesis
  proof cases
    case 7
    then have 7: "c \<notin> {34, 92, 8, 12, 10, 13, 9}" "c < 32 \<or> c = 60 \<or> c = 62 \<or> c = 38" by blast+
    have "unat c < 128" using assms by (simp add: word_le_nat_alt)
    then have "\<not> 0xD800 \<le> unat c" by simp
    then have "unescape (117 # 48 # 48 # hex_encode [c] @ t) = Some ([c], t)"
      using assms by (simp add: unescape_def hex4_ascii utf8_encode_ascii del: hex_encode_Cons hex4.simps)
    then show ?thesis using 7
      by (simp add: escape_ascii_def unquote.simps(2) del: hex_encode_Cons)
  qed (use assms in \<open>auto simp: escape_ascii_def unquote.simps(2) unescape_def\<close>)
qed

lemma unquote_escape_rune:
  assumes "1 < rune_len s" and "r = take (rune_len s) s" and "\<not> hd s \<le> 0x7F"
  shows "unquote (escape_rune r @ t) = prepend r (unquote t)"
proof -
  consider "r = [0xE2, 0x80, 0xA8]" | "r = [0xE2, 0x80, 0xA9]"
    | "r \<noteq> [0xE2, 0x80, 0xA8]" "r \<noteq> [0xE2, 0x80, 0xA9]" by blast
  then show ?thesis
  proof cases
    case 3
    have len: "length r = rune_len s" using rune_len_le [of s] assms(2) by simp
    have r: "rune_len (r @ t) = rune_len s" using assms(1,2) by (simp add: rune_len_take)
    obtain c cs where c: "r = c # cs" "\<not> c \<le> 0x7F"
      using assms len by (cases s) (auto simp: take_Cons split: nat.splits)
    then have "c \<noteq> 34" "c \<noteq> 92" by auto
    moreover have "\<not> c < 32" using c(2) by (simp add: word_less_nat_alt word_le_nat_alt)
    moreover have "take (rune_len s) (r @ t) = r" "drop (rune_len s) (r @ t) = t"
      using len by simp_all
    ultimately have "unquote (r @ t) = prepend r (unquote t)" using c r assms(1)
      by (simp add: unquote.simps(2) Let_def)
    moreover have "escape_rune r = r" using 3 by (simp add: escape_rune_def)
    ultimately show ?thesis by simp
  qed (simp_all add: escape_rune_def unquote.simps(2) unescape_def hex_value_def utf8_encode_def)
qed

lemma unquote_escape:
  "utf8_valid s \<Longrightarrow> unquote (escape s @ 34 # rest) = Some (s, rest)"
proof (induction s rule: escape.induct)
  case 1
  then show ?case by (simp add: unquote.simps(2))
next
  case (2 c cs)
  show ?case
  proof (cases "c \<le> 0x7F")
    case True
    with 2 show ?thesis by (simp add: escape.simps(2) unquote_escape_ascii)
  next
    case False
    let ?n = "rune_len (c # cs)"
    have pos: "0 < ?n" and valid: "utf8_valid (drop ?n (c # cs))"
      using 2(4) by (simp_all add: utf8_valid.simps(2) [of c cs] split: if_splits)
    then have "1 < ?n" using False by (auto elim: rune_len_cases)
    then have "unquote (escape_rune (take ?n (c # cs)) @ escape (drop ?n (c # cs)) @ 34 # rest) =
        prepend (take ?n (c # cs)) (Some (drop ?n (c # cs), rest))"
      using 2(3) [OF False refl _ valid] pos False by (simp add: unquote_escape_rune)
    then show ?thesis using False pos by (simp add: escape.simps(2) Let_def)
  qed
qed

section \<open>JSON values and their text\<close>

datatype json =
    JNull
  | JBool bool
  | JNumber bytes
  | JString bytes
  | JArray "json list"
  | JObject "(bytes \<times> json) list"

fun commas :: "bytes list \<Rightarrow> bytes" where
  "commas [] = []"
| "commas [x] = x"
| "commas (x # y # zs) = x @ 44 # commas (y # zs)"

text \<open>The compact text of \<^verbatim>\<open>json.Marshal\<close>; a number is kept as its literal.\<close>

primrec json_text :: "json \<Rightarrow> bytes" where
  "json_text JNull = ascii ''null''"
| "json_text (JBool b) = ascii (if b then ''true'' else ''false'')"
| "json_text (JNumber n) = n"
| "json_text (JString s) = quote s"
| "json_text (JArray vs) = [91] @ commas (map json_text vs) @ [93]"
| "json_text (JObject ms) =
     [123] @ commas (map (\<lambda>(k, t). quote k @ 58 # t) (map (map_prod id json_text) ms)) @ [125]"

definition is_digit :: "u8 \<Rightarrow> bool" where
  "is_digit c \<longleftrightarrow> 48 \<le> c \<and> c \<le> 57"

definition skip_ws :: "bytes \<Rightarrow> bytes" where
  "skip_ws s = dropWhile (\<lambda>c. c = 32 \<or> c = 9 \<or> c = 10 \<or> c = 13) s"

text \<open>The parts of a number literal; each returns the part read and the rest.\<close>

definition scan_int :: "bytes \<Rightarrow> (bytes \<times> bytes) option" where
  "scan_int s = (case s of [] \<Rightarrow> None | c # cs \<Rightarrow>
     if c = 48 then Some ([c], cs)
     else if is_digit c then Some (takeWhile is_digit s, dropWhile is_digit s)
     else None)"

definition scan_frac :: "bytes \<Rightarrow> (bytes \<times> bytes) option" where
  "scan_frac s = (case s of [] \<Rightarrow> Some ([], s) | c # cs \<Rightarrow>
     if c = 46 then
       (if takeWhile is_digit cs = [] then None
        else Some (c # takeWhile is_digit cs, dropWhile is_digit cs))
     else Some ([], s))"

definition scan_exp :: "bytes \<Rightarrow> (bytes \<times> bytes) option" where
  "scan_exp s = (case s of [] \<Rightarrow> Some ([], s) | c # cs \<Rightarrow>
     if c = 101 \<or> c = 69 then
       (let (sgn, ds) = (case cs of d # r \<Rightarrow> if d = 43 \<or> d = 45 then ([d], r) else ([], cs)
                                 | [] \<Rightarrow> ([], cs))
        in if takeWhile is_digit ds = [] then None
           else Some (c # sgn @ takeWhile is_digit ds, dropWhile is_digit ds))
     else Some ([], s))"

definition scan_number :: "bytes \<Rightarrow> (bytes \<times> bytes) option" where
  "scan_number s =
     (let (sgn, r) = (case s of c # cs \<Rightarrow> if c = 45 then ([c], cs) else ([], s) | [] \<Rightarrow> ([], s)) in
      case scan_int r of None \<Rightarrow> None | Some (i, r) \<Rightarrow>
      case scan_frac r of None \<Rightarrow> None | Some (f, r) \<Rightarrow>
      case scan_exp r of None \<Rightarrow> None | Some (e, r) \<Rightarrow> Some (sgn @ i @ f @ e, r))"

definition scan_literal :: "bytes \<Rightarrow> (json \<times> bytes) option" where
  "scan_literal s =
     (if take 4 s = ascii ''null'' then Some (JNull, drop 4 s)
      else if take 4 s = ascii ''true'' then Some (JBool True, drop 4 s)
      else if take 5 s = ascii ''false'' then Some (JBool False, drop 5 s)
      else map_option (apfst JNumber) (scan_number s))"

text \<open>
  The parser. The first argument is fuel, of which \<open>json_parse\<close> gives more than any text can
  use; the second is the number of arrays and objects that may still be opened, at most 10000 in
  Go. \<open>parse_elems\<close> reads one or more elements up to the closing bracket, \<open>parse_members\<close>
  one or more members up to the closing brace.
\<close>

fun parse_value :: "nat \<Rightarrow> nat \<Rightarrow> bytes \<Rightarrow> (json \<times> bytes) option"
  and parse_elems :: "nat \<Rightarrow> nat \<Rightarrow> bytes \<Rightarrow> (json list \<times> bytes) option"
  and parse_members :: "nat \<Rightarrow> nat \<Rightarrow> bytes \<Rightarrow> ((bytes \<times> json) list \<times> bytes) option" where
  "parse_value 0 d s = None"
| "parse_value (Suc n) d s =
     (case skip_ws s of [] \<Rightarrow> None | c # cs \<Rightarrow>
        if c = 34 then map_option (apfst JString) (unquote cs)
        else if c = 91 then
          (if d = 0 then None
           else case skip_ws cs of [] \<Rightarrow> None | x # r \<Rightarrow>
             if x = 93 then Some (JArray [], r)
             else map_option (apfst JArray) (parse_elems n (d - 1) cs))
        else if c = 123 then
          (if d = 0 then None
           else case skip_ws cs of [] \<Rightarrow> None | x # r \<Rightarrow>
             if x = 125 then Some (JObject [], r)
             else map_option (apfst JObject) (parse_members n (d - 1) cs))
        else scan_literal (c # cs))"
| "parse_elems 0 d s = None"
| "parse_elems (Suc n) d s =
     (case parse_value n d s of None \<Rightarrow> None | Some (v, r) \<Rightarrow>
      case skip_ws r of [] \<Rightarrow> None | c # cs \<Rightarrow>
        if c = 93 then Some ([v], cs)
        else if c = 44 then map_option (apfst ((#) v)) (parse_elems n d cs)
        else None)"
| "parse_members 0 d s = None"
| "parse_members (Suc n) d s =
     (case skip_ws s of [] \<Rightarrow> None | q # s \<Rightarrow>
        if q \<noteq> 34 then None else
        case unquote s of None \<Rightarrow> None | Some (k, r) \<Rightarrow>
        case skip_ws r of [] \<Rightarrow> None | c # r \<Rightarrow>
        if c \<noteq> 58 then None else
        case parse_value n d r of None \<Rightarrow> None | Some (v, r) \<Rightarrow>
        case skip_ws r of [] \<Rightarrow> None | c # cs \<Rightarrow>
          if c = 125 then Some ([(k, v)], cs)
          else if c = 44 then map_option (apfst ((#) (k, v))) (parse_members n d cs)
          else None)"

definition max_nesting :: nat where "max_nesting = 10000"

definition json_parse :: "bytes \<Rightarrow> json option" where
  "json_parse s =
     (case parse_value (2 * length s + 1) max_nesting s of
        Some (v, r) \<Rightarrow> if skip_ws r = [] then Some v else None
      | None \<Rightarrow> None)"

section \<open>What is written is read back\<close>

definition plain_number :: "bytes \<Rightarrow> bool" where
  "plain_number n \<longleftrightarrow> n \<noteq> [] \<and> list_all is_digit n \<and> (hd n = 48 \<longrightarrow> tl n = [])"

text \<open>The values whose text is read back: strings are UTF-8, numbers decimal, nesting bounded.\<close>

fun json_ok :: "nat \<Rightarrow> json \<Rightarrow> bool" where
  "json_ok d (JNumber n) = plain_number n"
| "json_ok d (JString s) = utf8_valid s"
| "json_ok d (JArray vs) = (0 < d \<and> (\<forall>v \<in> set vs. json_ok (d - 1) v))"
| "json_ok d (JObject ms) = (0 < d \<and> (\<forall>(k, v) \<in> set ms. utf8_valid k \<and> json_ok (d - 1) v))"
| "json_ok d _ = True"

definition stops :: "bytes \<Rightarrow> bool" where
  "stops r \<longleftrightarrow> r = [] \<or> hd r = 44 \<or> hd r = 93 \<or> hd r = 125"

lemma stops_simps [simp]: "stops []" "stops (44 # r)" "stops (93 # r)" "stops (125 # r)"
  by (simp_all add: stops_def)

lemma json_text_JObject [simp]:
  "json_text (JObject ms) =
     [123] @ commas (map (\<lambda>(k, v). quote k @ 58 # json_text v) ms) @ [125]"
  by (auto intro!: arg_cong [where f = commas])

declare json_text.simps(6) [simp del]

lemma commas_Cons [simp]: "xs \<noteq> [] \<Longrightarrow> commas (x # xs) = x @ 44 # commas xs"
  by (cases xs) simp_all

lemma skip_ws_id: "\<not> (c = 32 \<or> c = 9 \<or> c = 10 \<or> c = 13) \<Longrightarrow> skip_ws (c # cs) = c # cs"
  by (simp add: skip_ws_def)

lemma skip_ws_simps [simp]:
  "skip_ws [] = []" "skip_ws (34 # s) = 34 # s" "skip_ws (44 # s) = 44 # s"
  "skip_ws (58 # s) = 58 # s" "skip_ws (91 # s) = 91 # s" "skip_ws (93 # s) = 93 # s"
  "skip_ws (123 # s) = 123 # s" "skip_ws (125 # s) = 125 # s"
  "skip_ws (110 # s) = 110 # s" "skip_ws (116 # s) = 116 # s" "skip_ws (102 # s) = 102 # s"
  by (simp_all add: skip_ws_def)

lemma is_digit_head:
  assumes "is_digit c"
  shows "c \<notin> {32, 9, 10, 13, 34, 44, 45, 46, 58, 69, 91, 93, 101, 102, 110, 116, 123, 125}"
  using assms by (auto simp: is_digit_def)

lemma stops_digit: "stops (c # r) \<Longrightarrow> \<not> is_digit c \<and> c \<notin> {46, 69, 101}"
  by (auto simp: stops_def is_digit_def)

lemma takeWhile_digits:
  assumes "list_all is_digit n" and "stops r"
  shows "takeWhile is_digit (n @ r) = n" "dropWhile is_digit (n @ r) = r"
proof -
  have n: "\<And>x. x \<in> set n \<Longrightarrow> is_digit x" using assms(1) by (simp add: list_all_iff)
  have r: "takeWhile is_digit r = [] \<and> dropWhile is_digit r = r"
    using assms(2) by (cases r) (auto dest: stops_digit)
  show "takeWhile is_digit (n @ r) = n" using r by (simp add: takeWhile_append2 [OF n])
  show "dropWhile is_digit (n @ r) = r" using r by (simp add: dropWhile_append2 [OF n])
qed

lemma scan_literal_number:
  assumes "plain_number n" and "stops r"
  shows "scan_literal (n @ r) = Some (JNumber n, r)"
proof -
  obtain c cs where n: "n = c # cs" and c: "is_digit c"
    using assms(1) by (cases n) (auto simp: plain_number_def)
  have "scan_int (n @ r) = Some (n, r)"
    using assms c takeWhile_digits [of n r]
    by (auto simp: scan_int_def plain_number_def n)
  moreover have "scan_frac r = Some ([], r)" "scan_exp r = Some ([], r)"
    using assms(2) by (cases r; auto simp: scan_frac_def scan_exp_def dest!: stops_digit)+
  moreover have "c \<noteq> 45" using is_digit_head [OF c] by simp
  ultimately have "scan_number (n @ r) = Some (n, r)"
    by (simp add: scan_number_def n)
  then show ?thesis using is_digit_head [OF c] by (simp add: scan_literal_def n)
qed

lemma json_text_head:
  assumes "json_ok d j"
  obtains c cs where "json_text j = c # cs" "c \<notin> {32, 9, 10, 13, 44, 58, 93, 125}"
proof (cases j)
  case (JNumber n)
  then obtain c cs where "n = c # cs" "is_digit c"
    using assms by (cases n) (auto simp: plain_number_def)
  then show thesis using that JNumber is_digit_head [of c] by simp
next
  case (JBool b)
  then show thesis using that by (cases b) simp_all
qed (use that in \<open>simp_all add: quote_def\<close>)

lemma skip_ws_text: "json_ok d j \<Longrightarrow> skip_ws (json_text j @ r) = json_text j @ r"
  by (erule json_text_head) (simp add: skip_ws_id)

lemma length_json_text_pos: "json_ok d j \<Longrightarrow> 0 < length (json_text j)"
  by (erule json_text_head) simp

definition reads_back :: "nat \<Rightarrow> json \<Rightarrow> bool" where
  "reads_back d v \<longleftrightarrow> (\<forall>n r. length (json_text v) \<le> n \<longrightarrow> stops r \<longrightarrow>
     parse_value n d (json_text v @ r) = Some (v, r))"

lemma parse_elems_text:
  assumes "vs \<noteq> []" and "\<forall>v \<in> set vs. reads_back d v"
    and "length (commas (map json_text vs)) < n"
  shows "parse_elems n d (commas (map json_text vs) @ 93 # r) = Some (vs, r)"
  using assms
proof (induction vs arbitrary: n)
  case (Cons v vs)
  obtain m where m: "n = Suc m" using Cons.prems(3) by (cases n) simp_all
  show ?case
  proof (cases "vs = []")
    case True
    then show ?thesis using Cons.prems m by (simp add: reads_back_def)
  next
    case False
    have "parse_value m d (json_text v @ 44 # commas (map json_text vs) @ 93 # r) =
        Some (v, 44 # commas (map json_text vs) @ 93 # r)"
      using Cons.prems m False by (simp add: reads_back_def)
    moreover have "parse_elems m d (commas (map json_text vs) @ 93 # r) = Some (vs, r)"
      using Cons.prems m False by (intro Cons.IH) simp_all
    ultimately show ?thesis using m False by simp
  qed
qed simp

abbreviation member_text :: "bytes \<times> json \<Rightarrow> bytes" where
  "member_text \<equiv> \<lambda>(k, v). quote k @ 58 # json_text v"

lemma parse_members_text:
  assumes "ms \<noteq> []" and "\<forall>(k, v) \<in> set ms. utf8_valid k \<and> reads_back d v"
    and "length (commas (map member_text ms)) < n"
  shows "parse_members n d (commas (map member_text ms) @ 125 # r) = Some (ms, r)"
  using assms
proof (induction ms arbitrary: n)
  case (Cons kv ms)
  obtain m where m: "n = Suc m" using Cons.prems(3) by (cases n) simp_all
  obtain k v where kv: "kv = (k, v)" by (cases kv)
  show ?case
  proof (cases "ms = []")
    case True
    then show ?thesis using Cons.prems m kv by (simp add: reads_back_def quote_def unquote_escape)
  next
    case False
    have "parse_value m d (json_text v @ 44 # commas (map member_text ms) @ 125 # r) =
        Some (v, 44 # commas (map member_text ms) @ 125 # r)"
      using Cons.prems m False kv by (simp add: reads_back_def)
    moreover have "parse_members m d (commas (map member_text ms) @ 125 # r) = Some (ms, r)"
      using Cons.prems m False kv by (intro Cons.IH) simp_all
    ultimately show ?thesis using Cons.prems m False kv by (simp add: quote_def unquote_escape)
  qed
qed simp

lemma json_ok_reads_back: "json_ok d j \<Longrightarrow> reads_back d j"
proof (induction j arbitrary: d)
  case (JNumber n)
  then obtain c cs where n: "n = c # cs" "is_digit c"
    by (cases n) (auto simp: plain_number_def)
  show ?case unfolding reads_back_def
  proof (intro allI impI)
    fix m r assume "length (json_text (JNumber n)) \<le> m" "stops r"
    with JNumber n is_digit_head [OF n(2)] show "parse_value m d (json_text (JNumber n) @ r) = Some (JNumber n, r)"
      using scan_literal_number [of n r] by (cases m) (simp_all add: skip_ws_id)
  qed
next
  case (JString s)
  then show ?case unfolding reads_back_def
    by (intro allI impI, rename_tac m r, case_tac m) (simp_all add: quote_def unquote_escape)
next
  case (JArray vs)
  have ok: "\<forall>v \<in> set vs. reads_back (d - 1) v" using JArray by simp
  have head: "skip_ws (commas (map json_text vs) @ 93 # r) = commas (map json_text vs) @ 93 # r \<and>
      hd (commas (map json_text vs)) \<noteq> 93 \<and> commas (map json_text vs) \<noteq> []" if ne: "vs \<noteq> []" for r
  proof -
    obtain w ws where w: "vs = w # ws" using ne by (cases vs) simp_all
    then obtain c cs where "json_text w = c # cs" "c \<notin> {32, 9, 10, 13, 44, 58, 93, 125}"
      using JArray.prems json_text_head [of "d - 1" w] by auto
    then show ?thesis using w by (cases ws) (simp_all add: skip_ws_id)
  qed
  show ?case unfolding reads_back_def
  proof (intro allI impI)
    fix m r assume m: "length (json_text (JArray vs)) \<le> m"
    show "parse_value m d (json_text (JArray vs) @ r) = Some (JArray vs, r)"
    proof (cases "vs = []")
      case True
      then show ?thesis using m JArray.prems by (cases m) simp_all
    next
      case False
      obtain n where n: "m = Suc n" using m by (cases m) simp_all
      have "parse_elems n (d - 1) (commas (map json_text vs) @ 93 # r) = Some (vs, r)"
        using m n by (intro parse_elems_text False ok) simp
      moreover note h = head [OF False, of r]
      moreover obtain c cs where c: "commas (map json_text vs) = c # cs"
        using h by (meson neq_Nil_conv)
      ultimately show ?thesis using n JArray.prems by (simp add: c)
    qed
  qed
next
  case (JObject ms)
  have ok: "\<forall>(k, v) \<in> set ms. utf8_valid k \<and> reads_back (d - 1) v"
    using JObject by (fastforce simp: Basic_BNFs.snds.simps)
  show ?case unfolding reads_back_def
  proof (intro allI impI)
    fix m r assume m: "length (json_text (JObject ms)) \<le> m"
    show "parse_value m d (json_text (JObject ms) @ r) = Some (JObject ms, r)"
    proof (cases ms)
      case Nil
      then show ?thesis using m JObject.prems by (cases m) simp_all
    next
      case (Cons kv ms')
      obtain n where n: "m = Suc n" using m by (cases m) simp_all
      have "parse_members n (d - 1) (commas (map member_text ms) @ 125 # r) = Some (ms, r)"
        using m n Cons by (intro parse_members_text ok) simp_all
      moreover obtain cs where "commas (map member_text ms) = 34 # cs"
        using Cons by (cases ms'; cases kv) (simp_all add: quote_def)
      ultimately show ?thesis using n JObject.prems by simp
    qed
  qed
next
  case JNull
  show ?case unfolding reads_back_def
    by (intro allI impI, rename_tac m r, case_tac m) (simp_all add: scan_literal_def)
next
  case (JBool b)
  show ?case unfolding reads_back_def
    by (intro allI impI, rename_tac m r, case_tac m; cases b) (simp_all add: scan_literal_def)
qed

lemma json_parse_text:
  assumes "json_ok max_nesting j"
  shows "json_parse (json_text j) = Some j"
proof -
  let ?n = "2 * length (json_text j) + 1"
  have "parse_value ?n max_nesting (json_text j @ []) = Some (j, [])"
    using json_ok_reads_back [OF assms] unfolding reads_back_def
    by (elim allE [of _ ?n] allE [of _ "[]"]) simp
  then show ?thesis by (simp add: json_parse_def)
qed

section \<open>The fuel is enough\<close>

lemma skip_ws_length: "length (skip_ws s) \<le> length s"
  by (simp add: skip_ws_def length_dropWhile_le)

lemma skip_ws_ConsD: "skip_ws s = c # cs \<Longrightarrow> length cs < length s"
  using skip_ws_length [of s] by simp

lemma scan_int_length: "scan_int s = Some (x, r) \<Longrightarrow> length r < length s"
  by (auto simp: scan_int_def le_imp_less_Suc length_dropWhile_le split: list.splits if_splits)

lemma scan_frac_length: "scan_frac s = Some (x, r) \<Longrightarrow> length r \<le> length s"
  by (auto simp: scan_frac_def le_SucI length_dropWhile_le split: list.splits if_splits)

lemma scan_exp_length: "scan_exp s = Some (x, r) \<Longrightarrow> length r \<le> length s"
  by (auto simp: scan_exp_def le_SucI length_dropWhile_le split: list.splits if_splits)

lemma scan_number_length: "scan_number s = Some (x, r) \<Longrightarrow> length r < length s"
  by (fastforce simp: scan_number_def split: list.splits if_splits option.splits
      dest!: scan_int_length scan_frac_length scan_exp_length)

lemma scan_literal_length: "scan_literal s = Some (x, r) \<Longrightarrow> length r < length s"
  by (auto simp: scan_literal_def split: if_splits dest: scan_number_length dest!: arg_cong [of _ _ length])

lemma parse_length:
  "parse_value n d s = Some (v, r) \<Longrightarrow> length r < length s"
  "parse_elems n d s = Some (vs, r) \<Longrightarrow> length r < length s"
  "parse_members n d s = Some (ms, r) \<Longrightarrow> length r < length s"
proof (induction n d s and n d s and n d s arbitrary: v r and vs r and ms r
    rule: parse_value_parse_elems_parse_members.induct)
  case (2 n d s)
  then show ?case
    by (fastforce split: list.splits if_splits
        dest: skip_ws_ConsD unquote_length scan_literal_length)
next
  case (4 n d s)
  then show ?case
    by (fastforce split: list.splits if_splits option.splits dest: skip_ws_ConsD)
next
  case (6 n d s)
  then show ?case
    by (fastforce split: list.splits if_splits option.splits dest: skip_ws_ConsD unquote_length)
qed simp_all

lemma parse_fuel:
  "2 * length s < n \<Longrightarrow> 2 * length s < m \<Longrightarrow> parse_value n d s = parse_value m d s"
  "2 * length s + 1 < n \<Longrightarrow> 2 * length s + 1 < m \<Longrightarrow> parse_elems n d s = parse_elems m d s"
  "2 * length s < n \<Longrightarrow> 2 * length s < m \<Longrightarrow> parse_members n d s = parse_members m d s"
proof (induction n d s and n d s and n d s arbitrary: m and m and m
    rule: parse_value_parse_elems_parse_members.induct)
  case (2 n d s)
  obtain k where k: "m = Suc k" using 2(4) by (cases m) simp_all
  show ?case
  proof (cases "skip_ws s")
    case (Cons c cs)
    then have "length cs < length s" by (rule skip_ws_ConsD)
    then have len: "2 * length cs + 1 < n" "2 * length cs + 1 < k" "2 * length cs < n" "2 * length cs < k"
      using 2(3,4) k by simp_all
    show ?thesis
      using 2(1) [OF Cons _ _ _ _ _ len(1,2)] 2(2) [OF Cons _ _ _ _ _ _ len(3,4)]  Cons
      by (auto simp: k split: list.split)
  qed (simp add: k)
next
  case (4 n d s)
  obtain k where k: "m = Suc k" using 4(4) by (cases m) simp_all
  have v: "parse_value n d s = parse_value k d s" using 4(3,4) k by (intro 4(1)) simp_all
  have "parse_elems n d cs = parse_elems k d cs"
    if p: "parse_value n d s = Some (x, r)" "skip_ws r = 44 # cs" for x r cs
  proof -
    have "length cs < length r" "length r < length s"
      using skip_ws_ConsD [OF p(2)] parse_length(1) [OF p(1)] by simp_all
    then show ?thesis using 4(3,4) k by (intro 4(2) [OF p(1) refl p(2)]) simp_all
  qed
  then show ?case by (auto simp: k simp flip: v split: option.split list.split)
next
  case (6 n d s)
  obtain k where k: "m = Suc k" using 6(4) by (cases m) simp_all
  have v: "parse_value n d r' = parse_value k d r'"
    if p: "skip_ws s = 34 # s'" "unquote s' = Some (x, r)" "skip_ws r = 58 # r'" for s' x r r'
    using skip_ws_ConsD [OF p(1)] skip_ws_ConsD [OF p(3)] unquote_length [OF p(2)] 6(3,4) k
    by (intro 6(1) [OF p(1) _ p(2) refl p(3)]) simp_all
  have ms: "parse_members n d cs = parse_members k d cs"
    if p: "skip_ws s = 34 # s'" "unquote s' = Some (x, r)" "skip_ws r = 58 # r'"
      "parse_value n d r' = Some (y, q)" "skip_ws q = 44 # cs" for s' x r r' y q cs
    using skip_ws_ConsD [OF p(1)] skip_ws_ConsD [OF p(3)] skip_ws_ConsD [OF p(5)]
      unquote_length [OF p(2)] parse_length(1) [OF p(4)] 6(3,4) k
    by (intro 6(2) [OF p(1) _ p(2) refl p(3) _ p(4) refl p(5)]) simp_all
  show ?case by (auto simp: k v ms split: option.split list.split)
qed simp_all

end
