(* ===== verification/Go_Json_Values.thy ===== *)
theory Go_Json_Values
  imports Go_Json
begin

text \<open>
  The conversions of \<^verbatim>\<open>encoding/json\<close> between Go values and JSON values, as far as the stored
  records use them: unsigned and signed integers, strings, byte slices (base64), arrays of 32
  bytes, slices of strings and structs. A decoder takes the old value of its target, because a
  JSON null leaves it unchanged, and returns \<open>None\<close> where \<^verbatim>\<open>Unmarshal\<close> returns an error.
\<close>

section \<open>Numbers\<close>

fun decimal :: "nat \<Rightarrow> bytes" where
  "decimal n = (if n < 10 then [of_nat (48 + n)] else decimal (n div 10) @ [of_nat (48 + n mod 10)])"

declare decimal.simps [simp del]

definition decimal_value :: "bytes \<Rightarrow> nat" where
  "decimal_value s = foldl (\<lambda>a c. a * 10 + (unat c - 48)) 0 s"

lemma digit_of_nat:
  assumes "n < 10"
  shows "is_digit (of_nat (48 + n))" "unat (of_nat (48 + n) :: u8) = 48 + n"
proof -
  have eq: "unat (of_nat (48 + n) :: u8) = 48 + n"
    unfolding unat_of_nat using assms by simp
  then show "unat (of_nat (48 + n) :: u8) = 48 + n" .
  have "unat (48 :: u8) \<le> 48 + n" "48 + n \<le> unat (57 :: u8)" using assms by simp_all
  then show "is_digit (of_nat (48 + n))"
    unfolding is_digit_def word_le_nat_alt eq by blast
qed

lemma decimal_value_decimal [simp]: "decimal_value (decimal n) = n"
proof (induction n rule: decimal.induct)
  case (1 n)
  have m: "n mod 10 < 10" by simp
  show ?case
    using 1 digit_of_nat(2) [OF m] digit_of_nat(2) [of n]
    by (simp add: decimal.simps [of n] decimal_value_def del: of_nat_add)
qed

lemma decimal_nonzero: "0 < n \<Longrightarrow> decimal n \<noteq> [] \<and> hd (decimal n) \<noteq> 48"
proof (induction n rule: decimal.induct)
  case (1 n)
  show ?case
  proof (cases "n < 10")
    case True
    have "unat (of_nat (48 + n) :: u8) \<noteq> unat (48 :: u8)"
      using digit_of_nat(2) [OF True] 1 by simp
    then have "(of_nat (48 + n) :: u8) \<noteq> 48" by metis
    with True show ?thesis by (simp add: decimal.simps [of n] del: of_nat_add)
  next
    case False
    with 1 show ?thesis by (simp add: decimal.simps [of n] hd_append)
  qed
qed

lemma decimal_digits: "list_all is_digit (decimal n)"
proof (induction n rule: decimal.induct)
  case (1 n)
  have "n mod 10 < 10" by simp
  from 1 digit_of_nat(1) [OF this] digit_of_nat(1) [of n] show ?case
    by (simp add: decimal.simps [of n] del: of_nat_add)
qed

lemma plain_number_decimal [simp]: "plain_number (decimal n)"
proof (cases "n = 0")
  case True
  then show ?thesis by (simp add: plain_number_def decimal.simps is_digit_def)
next
  case False
  then show ?thesis using decimal_nonzero [of n] decimal_digits [of n]
    by (simp add: plain_number_def)
qed

lemma length_decimal: "n < 10 ^ k \<Longrightarrow> 0 < k \<Longrightarrow> length (decimal n) \<le> k"
proof (induction n arbitrary: k rule: decimal.induct)
  case (1 n)
  show ?case
  proof (cases "n < 10")
    case False
    obtain j where k: "k = Suc j" using 1 by (cases k) simp_all
    have "n div 10 < 10 ^ j" using 1 k by (simp add: less_mult_imp_div_less mult.commute)
    moreover from this False have "0 < j" by (cases j) auto
    ultimately show ?thesis using 1(1) [OF False] k False by (simp add: decimal.simps [of n])
  qed (use 1 in \<open>simp add: decimal.simps [of n]\<close>)
qed

text \<open>\<^verbatim>\<open>strconv.ParseUint\<close> of a literal, within the width of the target.\<close>

definition parse_uint :: "bytes \<Rightarrow> nat option" where
  "parse_uint s = (if s \<noteq> [] \<and> list_all is_digit s then Some (decimal_value s) else None)"

lemma parse_uint_decimal [simp]: "parse_uint (decimal n) = Some n"
  using plain_number_decimal [of n] by (simp add: parse_uint_def plain_number_def)

definition uint_json :: "'a::len word \<Rightarrow> json" where
  "uint_json w = JNumber (decimal (unat w))"

definition dec_uint :: "'a::len word \<Rightarrow> json \<Rightarrow> 'a word option" where
  "dec_uint old j = (case j of JNull \<Rightarrow> Some old
     | JNumber s \<Rightarrow> (case parse_uint s of
         Some n \<Rightarrow> if n < 2 ^ LENGTH('a) then Some (of_nat n) else None
       | None \<Rightarrow> None)
     | _ \<Rightarrow> None)"

lemma dec_uint_json [simp]: "dec_uint old (uint_json w) = Some w"
  by (simp add: dec_uint_def uint_json_def)

text \<open>A Go \<^verbatim>\<open>int\<close> has 64 bits and is written with a sign when it is negative.\<close>

definition int_json :: "int \<Rightarrow> json" where
  "int_json i = JNumber (if i < 0 then 45 # decimal (nat (- i)) else decimal (nat i))"

definition dec_int :: "int \<Rightarrow> json \<Rightarrow> int option" where
  "dec_int old j = (case j of JNull \<Rightarrow> Some old
     | JNumber s \<Rightarrow> (case s of c # ds \<Rightarrow>
          if c = 45 then (case parse_uint ds of
              Some n \<Rightarrow> if n \<le> 2 ^ 63 then Some (- int n) else None | None \<Rightarrow> None)
          else (case parse_uint s of
              Some n \<Rightarrow> if n < 2 ^ 63 then Some (int n) else None | None \<Rightarrow> None)
        | [] \<Rightarrow> None)
     | _ \<Rightarrow> None)"

lemma dec_int_json: "0 \<le> i \<Longrightarrow> i < 2 ^ 63 \<Longrightarrow> dec_int old (int_json i) = Some i"
proof -
  assume i: "0 \<le> i" "i < 2 ^ 63"
  obtain c cs where c: "decimal (nat i) = c # cs" "is_digit c"
    using plain_number_decimal [of "nat i"]
    by (cases "decimal (nat i)") (auto simp: plain_number_def)
  have "parse_uint (c # cs) = Some (nat i)" using parse_uint_decimal [of "nat i"] c(1) by simp
  then show ?thesis using i is_digit_head [OF c(2)] c(1)
    by (simp add: dec_int_def int_json_def)
qed

section \<open>Strings and slices of strings\<close>

definition dec_string :: "bytes \<Rightarrow> json \<Rightarrow> bytes option" where
  "dec_string old j = (case j of JNull \<Rightarrow> Some old | JString s \<Rightarrow> Some s | _ \<Rightarrow> None)"

lemma dec_string_JString [simp]: "dec_string old (JString s) = Some s"
  by (simp add: dec_string_def)

fun those_map :: "('a \<Rightarrow> 'b option) \<Rightarrow> 'a list \<Rightarrow> 'b list option" where
  "those_map f [] = Some []"
| "those_map f (x # xs) =
     (case f x of None \<Rightarrow> None | Some y \<Rightarrow> map_option ((#) y) (those_map f xs))"

lemma those_map_Some: "(\<And>x. x \<in> set xs \<Longrightarrow> f (g x) = Some x) \<Longrightarrow> those_map f (map g xs) = Some xs"
  by (induction xs) simp_all

text \<open>A nil slice is written as null; the slices of the model are nil when they are empty.\<close>

definition strings_json :: "bytes list \<Rightarrow> json" where
  "strings_json xs = (if xs = [] then JNull else JArray (map JString xs))"

definition dec_strings :: "json \<Rightarrow> bytes list option" where
  "dec_strings j = (case j of JNull \<Rightarrow> Some [] | JArray vs \<Rightarrow> those_map (dec_string []) vs | _ \<Rightarrow> None)"

lemma dec_strings_json [simp]: "dec_strings (strings_json xs) = Some xs"
  by (simp add: dec_strings_def strings_json_def those_map_Some)

section \<open>Byte slices and arrays\<close>

definition b64_digit :: "nat \<Rightarrow> u8" where
  "b64_digit n = of_nat (if n < 26 then 65 + n else if n < 52 then 71 + n
     else if n < 62 then n - 4 else if n = 62 then 43 else 47)"

definition b64_value :: "u8 \<Rightarrow> nat option" where
  "b64_value c = (if 65 \<le> c \<and> c \<le> 90 then Some (unat c - 65)
     else if 97 \<le> c \<and> c \<le> 122 then Some (unat c - 71)
     else if 48 \<le> c \<and> c \<le> 57 then Some (unat c + 4)
     else if c = 43 then Some 62 else if c = 47 then Some 63 else None)"

definition b64_group :: "nat \<Rightarrow> bytes" where
  "b64_group x = map b64_digit [x div 64 div 64 div 64, x div 64 div 64 mod 64, x div 64 mod 64, x mod 64]"

text \<open>\<^verbatim>\<open>base64.StdEncoding\<close> with padding.\<close>

fun b64_encode :: "bytes \<Rightarrow> bytes" where
  "b64_encode [] = []"
| "b64_encode [a] = take 2 (b64_group (unat a * 65536)) @ [61, 61]"
| "b64_encode [a, b] = take 3 (b64_group (unat a * 65536 + unat b * 256)) @ [61]"
| "b64_encode (a # b # c # r) =
     b64_group (unat a * 65536 + unat b * 256 + unat c) @ b64_encode r"

definition b64_bytes :: "nat \<Rightarrow> bytes" where
  "b64_bytes x = [of_nat (x div 65536), of_nat (x div 256 mod 256), of_nat (x mod 256)]"

definition b64_join :: "u8 \<Rightarrow> u8 \<Rightarrow> u8 \<Rightarrow> u8 \<Rightarrow> nat option" where
  "b64_join a b c d =
     (case (b64_value a, b64_value b, b64_value c, b64_value d) of
        (Some x, Some y, Some z, Some w) \<Rightarrow> Some (((x * 64 + y) * 64 + z) * 64 + w)
      | _ \<Rightarrow> None)"

fun b64_decode :: "bytes \<Rightarrow> bytes option" where
  "b64_decode [] = Some []"
| "b64_decode (a # b # c # d # r) =
     (if r = [] \<and> c = 61 \<and> d = 61 then
        map_option (\<lambda>x. take 1 (b64_bytes x)) (b64_join a b (b64_digit 0) (b64_digit 0))
      else if r = [] \<and> d = 61 then
        map_option (\<lambda>x. take 2 (b64_bytes x)) (b64_join a b c (b64_digit 0))
      else case b64_join a b c d of None \<Rightarrow> None
        | Some x \<Rightarrow> map_option ((@) (b64_bytes x)) (b64_decode r))"
| "b64_decode _ = None"

lemma b64_digit:
  assumes "n < 64"
  shows "b64_value (b64_digit n) = Some n" "b64_digit n \<noteq> 61" "b64_digit n \<noteq> 10" "b64_digit n \<noteq> 13"
    "b64_digit n \<le> 0x7F"
proof -
  have "\<forall>n \<in> set [0..<64]. b64_value (b64_digit n) = Some n \<and> b64_digit n \<noteq> 61 \<and> b64_digit n \<noteq> 10
      \<and> b64_digit n \<noteq> 13 \<and> b64_digit n \<le> 0x7F"
    by (simp add: upt_rec b64_value_def b64_digit_def)
  with assms show "b64_value (b64_digit n) = Some n" "b64_digit n \<noteq> 61" "b64_digit n \<noteq> 10"
    "b64_digit n \<noteq> 13" "b64_digit n \<le> 0x7F" by simp_all
qed

lemma b64_parts:
  fixes x :: nat
  assumes "x < 16777216"
  shows "x div 64 div 64 div 64 < 64" "x div 64 div 64 mod 64 < 64" "x div 64 mod 64 < 64" "x mod 64 < 64"
    "((x div 64 div 64 div 64 * 64 + x div 64 div 64 mod 64) * 64 + x div 64 mod 64) * 64 + x mod 64 = x"
  using assms by (simp_all add: less_mult_imp_div_less)

lemma b64_join_group:
  assumes "x < 16777216"
  shows "b64_join (b64_digit (x div 64 div 64 div 64)) (b64_digit (x div 64 div 64 mod 64))
    (b64_digit (x div 64 mod 64)) (b64_digit (x mod 64)) = Some x"
  unfolding b64_join_def
  by (simp only: b64_digit(1) [OF b64_parts(1) [OF assms]] b64_digit(1) [OF b64_parts(2) [OF assms]]
    b64_digit(1) [OF b64_parts(3) [OF assms]] b64_digit(1) [OF b64_parts(4) [OF assms]]
    b64_parts(5) [OF assms] prod.case option.case)

lemma b64_bytes_group:
  "b64_bytes (unat (a :: u8) * 65536 + unat (b :: u8) * 256 + unat (c :: u8)) = [a, b, c]"
proof -
  have "unat a < 256" "unat b < 256" "unat c < 256"
    using unsigned_less [of a, where ?'a = nat] unsigned_less [of b, where ?'a = nat]
      unsigned_less [of c, where ?'a = nat] by simp_all
  moreover have "(x * 65536 + y * 256 + z) div 65536 = x \<and> (x * 65536 + y * 256 + z) div 256 mod 256 = y \<and>
      (x * 65536 + y * 256 + z) mod 256 = z" if "y < 256" "z < 256" for x y z :: nat
  proof -
    have x: "x * 65536 + y * 256 + z = z + (y + x * 256) * 256" by simp
    have q: "(z + (y + x * 256) * 256) div 256 = y + x * 256" using that by simp
    have "(z + (y + x * 256) * 256) div (256 * 256) = x"
      unfolding div_mult2_eq q using that by simp
    moreover have "(z + (y + x * 256) * 256) mod 256 = z" "(y + x * 256) mod 256 = y"
      unfolding mod_mult_self1 using that by simp_all
    ultimately show ?thesis unfolding x q by simp
  qed
  ultimately show ?thesis by (simp add: b64_bytes_def)
qed

lemma b64_less: "unat (a :: u8) * 65536 + unat (b :: u8) * 256 + unat (c :: u8) < 16777216"
proof -
  have "unat a < 256" "unat b < 256" "unat c < 256"
    using unsigned_less [of a, where ?'a = nat] unsigned_less [of b, where ?'a = nat]
      unsigned_less [of c, where ?'a = nat] by simp_all
  then show ?thesis by linarith
qed

lemma b64_decode_encode [simp]: "b64_decode (b64_encode s) = Some s"
proof (induction s rule: b64_encode.induct)
  case (2 a)
  note less = b64_less [of a 0 0] and bs = b64_bytes_group [of a 0 0]
  let ?x = "unat a * 65536 + unat (0 :: u8) * 256 + unat (0 :: u8)"
  have x: "?x = unat a * 16 * 64 * 64" by simp
  have "?x div 64 = unat a * 16 * 64" unfolding x by (rule nonzero_mult_div_cancel_right) simp
  then have "?x div 64 mod 64 = 0" "?x mod 64 = 0" unfolding x by (metis mod_mult_self2_is_0)+
  then have "b64_join (b64_digit (?x div 64 div 64 div 64)) (b64_digit (?x div 64 div 64 mod 64))
      (b64_digit 0) (b64_digit 0) = Some ?x"
    using b64_join_group [OF less] by metis
  then show ?case using bs by (simp add: b64_group_def)
next
  case (3 a b)
  note less = b64_less [of a b 0] and bs = b64_bytes_group [of a b 0]
  let ?x = "unat a * 65536 + unat b * 256 + unat (0 :: u8)"
  have "?x = (unat a * 1024 + unat b * 4) * 64" by simp
  then have "?x mod 64 = 0" by (metis mod_mult_self2_is_0)
  then have "b64_join (b64_digit (?x div 64 div 64 div 64)) (b64_digit (?x div 64 div 64 mod 64))
      (b64_digit (?x div 64 mod 64)) (b64_digit 0) = Some ?x"
    using b64_join_group [OF less] by metis
  moreover have "b64_digit (?x div 64 mod 64) \<noteq> 61" by (rule b64_digit(2)) simp
  ultimately show ?case using bs by (simp add: b64_group_def)
next
  case (4 a b c r)
  note less = b64_less [of a b c]
  let ?x = "unat a * 65536 + unat b * 256 + unat c"
  have "b64_digit (?x mod 64) \<noteq> 61" by (rule b64_digit(2)) simp
  with b64_join_group [OF less] b64_bytes_group [of a b c] 4 show ?case
    by (simp add: b64_group_def)
qed simp

lemma b64_group_ascii:
  assumes "x < 16777216"
  shows "\<forall>c \<in> set (b64_group x). c \<le> 0x7F \<and> c \<noteq> 10 \<and> c \<noteq> 13"
  using b64_digit [OF b64_parts(1) [OF assms]] b64_digit [OF b64_parts(2) [OF assms]]
    b64_digit [OF b64_parts(3) [OF assms]] b64_digit [OF b64_parts(4) [OF assms]]
  by (simp add: b64_group_def)

lemma b64_encode_ascii: "\<forall>c \<in> set (b64_encode s). c \<le> 0x7F \<and> c \<noteq> 10 \<and> c \<noteq> 13"
proof (induction s rule: b64_encode.induct)
  case (2 a)
  show ?case using b64_group_ascii [OF b64_less [of a 0 0]] by (auto dest: in_set_takeD)
next
  case (3 a b)
  show ?case using b64_group_ascii [OF b64_less [of a b 0]] by (auto dest: in_set_takeD)
next
  case (4 a b c r)
  then show ?case using b64_group_ascii [OF b64_less [of a b c]] by auto
qed simp

lemma length_b64_encode: "length (b64_encode s) \<le> 4 + 4 * length s div 3"
  by (induction s rule: b64_encode.induct) (simp_all add: b64_group_def)

text \<open>A \<^verbatim>\<open>[]byte\<close>: base64 text without line ends, or an array of numbers.\<close>

definition bytes_json :: "bytes \<Rightarrow> json" where
  "bytes_json bs = (if bs = [] then JNull else JString (b64_encode bs))"

definition dec_bytes :: "json \<Rightarrow> bytes option" where
  "dec_bytes j = (case j of JNull \<Rightarrow> Some []
     | JString s \<Rightarrow> b64_decode (filter (\<lambda>c. c \<noteq> 10 \<and> c \<noteq> 13) s)
     | JArray vs \<Rightarrow> those_map (dec_uint 0) vs
     | _ \<Rightarrow> None)"

lemma dec_bytes_json [simp]: "dec_bytes (bytes_json bs) = Some bs"
proof -
  have "filter (\<lambda>c. c \<noteq> 10 \<and> c \<noteq> 13) (b64_encode bs) = b64_encode bs"
    using b64_encode_ascii [of bs] by (simp add: filter_id_conv)
  then show ?thesis by (simp add: dec_bytes_def bytes_json_def)
qed

text \<open>
  A \<^verbatim>\<open>[32]byte\<close> is an array of numbers; missing elements become zero, further elements are
  ignored, a null element keeps the old one.
\<close>

definition array_json :: "b32 \<Rightarrow> json" where
  "array_json a = JArray (map uint_json (b32_bytes a))"

definition dec_array :: "b32 \<Rightarrow> json \<Rightarrow> b32 option" where
  "dec_array old j = (case j of JNull \<Rightarrow> Some old
     | JArray vs \<Rightarrow>
         map_option b32_copy (those_map (\<lambda>(prev, v). dec_uint prev v) (zip (b32_bytes old) vs))
     | _ \<Rightarrow> None)"

lemma those_map_dec_uint:
  "length os = length ws \<Longrightarrow>
   those_map (\<lambda>(prev, v). dec_uint prev v) (zip os (map uint_json ws)) = Some ws"
  by (induction os ws rule: list_induct2) simp_all

lemma dec_array_json [simp]: "dec_array old (array_json a) = Some a"
  by (simp add: dec_array_def array_json_def those_map_dec_uint)

section \<open>Structs\<close>

text \<open>
  A member is matched with a field by case folding, under which two non-ASCII letters equal S
  and K; members of no field are ignored, and a later member overrides an earlier one.
\<close>

function fold_name :: "bytes \<Rightarrow> bytes" where
  "fold_name [] = []"
| "fold_name (c # cs) =
     (if 97 \<le> c \<and> c \<le> 122 then (c - 32) # fold_name cs
      else if take 2 (c # cs) = [0xC5, 0xBF] then 83 # fold_name (drop 2 (c # cs))
      else if take 3 (c # cs) = [0xE2, 0x84, 0xAA] then 75 # fold_name (drop 3 (c # cs))
      else c # fold_name cs)"
  by pat_completeness auto
termination
  by (relation "measure length") simp_all

declare fold_name.simps(2) [simp del]

type_synonym 'a field_decoder = "bytes \<times> ('a \<Rightarrow> json \<Rightarrow> 'a option)"

definition dec_member :: "'a field_decoder list \<Rightarrow> 'a \<Rightarrow> bytes \<times> json \<Rightarrow> 'a option" where
  "dec_member fds x = (\<lambda>(k, v).
     case find (\<lambda>(name, f). fold_name name = fold_name k) fds of
       None \<Rightarrow> Some x
     | Some (name, f) \<Rightarrow> f x v)"

fun dec_members :: "'a field_decoder list \<Rightarrow> 'a \<Rightarrow> (bytes \<times> json) list \<Rightarrow> 'a option" where
  "dec_members fds x [] = Some x"
| "dec_members fds x (m # ms) =
     (case dec_member fds x m of None \<Rightarrow> None | Some y \<Rightarrow> dec_members fds y ms)"

definition dec_struct :: "'a field_decoder list \<Rightarrow> 'a \<Rightarrow> json \<Rightarrow> 'a option" where
  "dec_struct fds x j =
     (case j of JNull \<Rightarrow> Some x | JObject ms \<Rightarrow> dec_members fds x ms | _ \<Rightarrow> None)"

text \<open>Members written under the names of the fields, in their order, are all found.\<close>

lemma dec_member_field [simp]:
  "dec_member ((name, f) # fds) x (name, v) = f x v"
  by (simp add: dec_member_def)

lemma dec_member_other [simp]:
  "fold_name name \<noteq> fold_name k \<Longrightarrow>
   dec_member ((name, f) # fds) x (k, v) = dec_member fds x (k, v)"
  by (simp add: dec_member_def)

end
