(* ===== verification/Sha256.thy ===== *)
theory Sha256
  imports Go_Bytes
begin

text \<open>
  The hash function of Go's \<^verbatim>\<open>crypto/sha256\<close>, written after FIPS 180-4: padding, the message
  schedule, the compression function and its iteration over the 64-byte blocks. The program
  uses it through \<open>sha256\<close> only (the value of \<^verbatim>\<open>sha256.Sum256\<close>, and of \<^verbatim>\<open>Sum\<close> after a
  sequence of \<^verbatim>\<open>Write\<close>s whose bytes are concatenated). Nothing below assumes that it has no
  collisions; statements about binding name the pair of inputs that would collide.
\<close>

unbundle bit_operations_syntax

type_synonym u32 = "32 word"

section \<open>The function\<close>

definition sha_K :: "u32 list" where
  "sha_K =
    [1116352408, 1899447441, 3049323471, 3921009573, 961987163, 1508970993,
     2453635748, 2870763221, 3624381080, 310598401, 607225278, 1426881987,
     1925078388, 2162078206, 2614888103, 3248222580, 3835390401, 4022224774,
     264347078, 604807628, 770255983, 1249150122, 1555081692, 1996064986,
     2554220882, 2821834349, 2952996808, 3210313671, 3336571891, 3584528711,
     113926993, 338241895, 666307205, 773529912, 1294757372, 1396182291,
     1695183700, 1986661051, 2177026350, 2456956037, 2730485921, 2820302411,
     3259730800, 3345764771, 3516065817, 3600352804, 4094571909, 275423344,
     430227734, 506948616, 659060556, 883997877, 958139571, 1322822218,
     1537002063, 1747873779, 1955562222, 2024104815, 2227730452, 2361852424,
     2428436474, 2756734187, 3204031479, 3329325298]"

definition sha_H0 :: "u32 list" where
  "sha_H0 =
    [1779033703, 3144134277, 1013904242, 2773480762, 1359893119, 2600822924,
     528734635, 1541459225]"

definition rotr :: "nat \<Rightarrow> u32 \<Rightarrow> u32" where
  "rotr n x = drop_bit n x OR push_bit (32 - n) x"

definition small_sigma0 :: "u32 \<Rightarrow> u32" where
  "small_sigma0 x = rotr 7 x XOR rotr 18 x XOR drop_bit 3 x"

definition small_sigma1 :: "u32 \<Rightarrow> u32" where
  "small_sigma1 x = rotr 17 x XOR rotr 19 x XOR drop_bit 10 x"

definition big_sigma0 :: "u32 \<Rightarrow> u32" where
  "big_sigma0 x = rotr 2 x XOR rotr 13 x XOR rotr 22 x"

definition big_sigma1 :: "u32 \<Rightarrow> u32" where
  "big_sigma1 x = rotr 6 x XOR rotr 11 x XOR rotr 25 x"

text \<open>The message padded with a one bit, zeros, and the bit length in 64 bits.\<close>

definition sha_pad :: "bytes \<Rightarrow> bytes" where
  "sha_pad m = m @ [0x80] @ replicate ((119 - length m mod 64) mod 64) 0
     @ be_bytes 8 (8 * length m)"

definition be_word :: "u8 \<Rightarrow> u8 \<Rightarrow> u8 \<Rightarrow> u8 \<Rightarrow> u32" where
  "be_word a b c d =
     push_bit 24 (ucast a) OR push_bit 16 (ucast b) OR push_bit 8 (ucast c) OR ucast d"

definition word_bytes :: "u32 \<Rightarrow> bytes" where
  "word_bytes w = [ucast (drop_bit 24 w), ucast (drop_bit 16 w), ucast (drop_bit 8 w), ucast w]"

fun words_of :: "bytes \<Rightarrow> u32 list" where
  "words_of (a # b # c # d # bs) = be_word a b c d # words_of bs"
| "words_of _ = []"

text \<open>The schedule, newest word first: \<open>n\<close> more words after the ones in \<open>ws\<close>.\<close>

primrec sha_schedule :: "nat \<Rightarrow> u32 list \<Rightarrow> u32 list" where
  "sha_schedule 0 ws = rev ws"
| "sha_schedule (Suc n) ws =
     sha_schedule n
       ((small_sigma1 (ws ! 1) + ws ! 6 + small_sigma0 (ws ! 14) + ws ! 15) # ws)"

datatype sha_state = Sha_state u32 u32 u32 u32 u32 u32 u32 u32

fun sha_round :: "sha_state \<Rightarrow> u32 \<times> u32 \<Rightarrow> sha_state" where
  "sha_round (Sha_state a b c d e f g h) (k, w) =
     (let t1 = h + big_sigma1 e + ((e AND f) XOR (NOT e AND g)) + k + w;
          t2 = big_sigma0 a + ((a AND b) XOR (a AND c) XOR (b AND c))
      in Sha_state (t1 + t2) a b c (d + t1) e f g)"

fun sha_add :: "sha_state \<Rightarrow> sha_state \<Rightarrow> sha_state" where
  "sha_add (Sha_state a b c d e f g h) (Sha_state a' b' c' d' e' f' g' h') =
     Sha_state (a + a') (b + b') (c + c') (d + d') (e + e') (f + f') (g + g') (h + h')"

definition sha_block :: "sha_state \<Rightarrow> bytes \<Rightarrow> sha_state" where
  "sha_block s block =
     sha_add s (foldl sha_round s (zip sha_K (sha_schedule 48 (rev (words_of block)))))"

function sha_blocks :: "sha_state \<Rightarrow> bytes \<Rightarrow> sha_state" where
  "sha_blocks s bs =
     (if length bs < 64 then s else sha_blocks (sha_block s (take 64 bs)) (drop 64 bs))"
  by pat_completeness auto
termination
  by (relation "measure (\<lambda>(s, bs). length bs)") auto

declare sha_blocks.simps [simp del]

fun sha_init :: "u32 list \<Rightarrow> sha_state" where
  "sha_init [a, b, c, d, e, f, g, h] = Sha_state a b c d e f g h"
| "sha_init _ = Sha_state 0 0 0 0 0 0 0 0"

fun sha_digest :: "sha_state \<Rightarrow> bytes" where
  "sha_digest (Sha_state a b c d e f g h) =
     concat (map word_bytes [a, b, c, d, e, f, g, h])"

lemma length_sha_digest [simp, bytes_simps]: "length (sha_digest s) = 32"
  by (cases s) (simp add: word_bytes_def)

definition sha256_bytes :: "bytes \<Rightarrow> bytes" where
  "sha256_bytes m = sha_digest (sha_blocks (sha_init sha_H0) (sha_pad m))"

lemma length_sha256_bytes [simp, bytes_simps]: "length (sha256_bytes m) = 32"
  by (simp add: sha256_bytes_def)

definition sha256 :: "bytes \<Rightarrow> b32" where
  "sha256 m = b32_copy (sha256_bytes m)"

lemma b32_bytes_sha256: "b32_bytes (sha256 m) = sha256_bytes m"
  by (simp add: sha256_def)

text \<open>The padded message is a whole number of blocks that starts with the message.\<close>

lemma length_sha_pad: "length (sha_pad m) mod 64 = 0"
proof -
  let ?r = "length m mod 64"
  have "?r < 64" by simp
  have "(length m + 9 + (119 - ?r) mod 64) mod 64 = (?r + 9 + (119 - ?r)) mod 64"
    by (metis mod_add_left_eq mod_add_right_eq)
  also have "?r + 9 + (119 - ?r) = 128" using \<open>?r < 64\<close> by linarith
  finally show ?thesis by (simp add: sha_pad_def add_ac)
qed

section \<open>Collisions\<close>

text \<open>
  \<open>collision_between A B\<close>: one of the inputs in \<open>A\<close> and a different one of those in \<open>B\<close>
  have the same digest. The sets are always finite sets of inputs that the modelled code hashes,
  so a collision between them is one that can be read off its run.
\<close>

definition collision_between :: "bytes set \<Rightarrow> bytes set \<Rightarrow> bool" where
  "collision_between A B \<longleftrightarrow> (\<exists>a \<in> A. \<exists>b \<in> B. a \<noteq> b \<and> sha256 a = sha256 b)"

lemma collision_betweenI [intro]:
  "a \<in> A \<Longrightarrow> b \<in> B \<Longrightarrow> a \<noteq> b \<Longrightarrow> sha256 a = sha256 b \<Longrightarrow> collision_between A B"
  by (auto simp: collision_between_def)

lemma collision_between_mono:
  "collision_between A B \<Longrightarrow> A \<subseteq> A' \<Longrightarrow> B \<subseteq> B' \<Longrightarrow> collision_between A' B'"
  by (auto simp: collision_between_def)

lemma collision_or_mono:
  "P \<or> collision_between A B \<Longrightarrow> (P \<Longrightarrow> Q) \<Longrightarrow> A \<subseteq> A' \<Longrightarrow> B \<subseteq> B' \<Longrightarrow>
   Q \<or> collision_between A' B'"
  using collision_between_mono by blast

lemma collision_between_sym: "collision_between A B \<Longrightarrow> collision_between B A"
  by (auto simp: collision_between_def) metis

lemma sha256_eq_cases:
  "sha256 a = sha256 b \<Longrightarrow> a \<in> A \<Longrightarrow> b \<in> B \<Longrightarrow> a = b \<or> collision_between A B"
  by auto

end
