(* ===== verification/Commitment.thy ===== *)
theory Commitment
  imports Sha256
begin

text \<open>
  Package \<^verbatim>\<open>commitment\<close> (\<^verbatim>\<open>pkg/proof/commitment/commitment.go\<close>): the private witness of
  a document, its exact 90-byte preimage (\<open>Encode\<close>, \<open>Parse_commitment\<close>), the opaque digest
  that is published (\<open>Compute\<close>), creation with a fresh nonce (\<open>New_commitment\<close>) and the
  check of document bytes against a witness (\<open>Verify_commitment\<close>). The lemmas show that the
  preimage is a strict fixed-width format, what each operation accepts, and that a published
  digest binds the witness and the document up to a SHA-256 collision.
\<close>

section \<open>The witness\<close>

definition Commit_Version :: u8 where "Commit_Version = 1"
definition Alg_SHA256 :: u8 where "Alg_SHA256 = 1"
definition MetadataAbsent :: u8 where "MetadataAbsent = 0"
definition Original :: u8 where "Original = 1"
definition Derived :: u8 where "Derived = 2"

lemmas commitment_consts =
  Commit_Version_def Alg_SHA256_def MetadataAbsent_def Original_def Derived_def

definition commit_domain :: bytes where
  "commit_domain = ascii ''sigmaproof:commitment'' @ [0]"

lemma length_commit_domain [simp, bytes_simps]: "length commit_domain = 22"
  by (simp add: commit_domain_def)

record witness =
  w_Version :: u8
  w_Algorithm :: u8
  w_Representation :: u8
  w_Metadata :: u8
  w_DocumentDigest :: b32
  w_Nonce :: b32

lemma witness_eta [simp]:
  "\<lparr>w_Version = w_Version w, w_Algorithm = w_Algorithm w,
    w_Representation = w_Representation w, w_Metadata = w_Metadata w,
    w_DocumentDigest = w_DocumentDigest w, w_Nonce = w_Nonce w\<rparr> = w"
  by (cases w) simp

section \<open>Operations\<close>

definition Encode :: "witness \<Rightarrow> bytes result" where
  "Encode w =
     (if w_Version w \<noteq> Commit_Version then Inl (New ''unsupported commitment version'')
      else if w_Algorithm w \<noteq> Alg_SHA256 then Inl (New ''unsupported digest algorithm'')
      else if w_Representation w \<noteq> Original \<and> w_Representation w \<noteq> Derived
        then Inl (New ''unsupported document representation'')
      else if w_Metadata w \<noteq> MetadataAbsent
        then Inl (New ''metadata commitments are unsupported'')
      else Inr (commit_domain
        @ [w_Version w, w_Algorithm w, w_Representation w, w_Metadata w]
        @ b32_bytes (w_DocumentDigest w) @ b32_bytes (w_Nonce w)))"

definition Compute :: "witness \<Rightarrow> b32 result" where
  "Compute w = bindE (Encode w) (\<lambda>preimage. Inr (sha256 preimage))"

text \<open>The limit is at most \<open>max_int64 - 1\<close>, so that one more byte can be asked for.\<close>

definition hashDocument :: "reader option \<Rightarrow> i64 \<Rightarrow> b32 result" where
  "hashDocument document maxBytes =
     (case document of
        None \<Rightarrow> Inl (New ''document reader is required'')
      | Some r \<Rightarrow>
          if sint maxBytes < 0 \<or> maxBytes = max_int64
          then Inl (New ''invalid document byte limit'')
          else bindE (read_limited r (maxBytes + 1)) (\<lambda>copied.
            if sint maxBytes < int (length copied)
            then Inl (New ''document exceeds byte limit'')
            else Inr (sha256 copied)))"

text \<open>\<open>New_commitment\<close> draws its nonce from the entropy source, which it returns advanced.\<close>

definition New_commitment ::
    "reader option \<Rightarrow> u8 \<Rightarrow> i64 \<Rightarrow> entropy \<Rightarrow> (witness \<times> b32) result \<times> entropy" where
  "New_commitment document representation maxBytes rnd =
     (let w = \<lparr>w_Version = Commit_Version, w_Algorithm = Alg_SHA256,
               w_Representation = representation, w_Metadata = MetadataAbsent,
               w_DocumentDigest = b32_copy [], w_Nonce = b32_copy []\<rparr>
      in case Encode w of
          Inl err \<Rightarrow> (Inl err, rnd)
        | Inr _ \<Rightarrow>
          (case hashDocument document maxBytes of
             Inl err \<Rightarrow> (Inl err, rnd)
           | Inr digest \<Rightarrow>
             (case rand_read rnd of
                (Inl err, rnd') \<Rightarrow> (Inl err, rnd')
              | (Inr raw, rnd') \<Rightarrow>
                let w = w\<lparr>w_DocumentDigest := digest, w_Nonce := b32_copy raw\<rparr>
                in (bindE (Compute w) (\<lambda>c. Inr (w, c)), rnd'))))"

definition Verify_commitment ::
    "reader option \<Rightarrow> witness \<Rightarrow> b32 \<Rightarrow> i64 \<Rightarrow> go_error option" where
  "Verify_commitment document w expected maxBytes =
     (case Compute w of
        Inl err \<Rightarrow> Some err
      | Inr actual \<Rightarrow>
          if actual \<noteq> expected then Some (New ''commitment mismatch'')
          else case hashDocument document maxBytes of
              Inl err \<Rightarrow> Some err
            | Inr digest \<Rightarrow>
                if digest \<noteq> w_DocumentDigest w then Some (New ''document digest mismatch'')
                else None)"

definition Parse_commitment :: "bytes \<Rightarrow> witness result" where
  "Parse_commitment data =
     (if length data \<noteq> 90 \<or> slice 0 22 data \<noteq> commit_domain
      then Inl (New ''invalid commitment preimage framing'')
      else let w = \<lparr>w_Version = data ! 22, w_Algorithm = data ! 23,
                    w_Representation = data ! 24, w_Metadata = data ! 25,
                    w_DocumentDigest = b32_copy (slice 26 58 data),
                    w_Nonce = b32_copy (slice 58 90 data)\<rparr>
           in bindE (Encode w) (\<lambda>_. Inr w))"

section \<open>The preimage is a strict format of 90 bytes\<close>

definition preimage :: "witness \<Rightarrow> bytes" where
  "preimage w = commit_domain @ [w_Version w, w_Algorithm w, w_Representation w, w_Metadata w]
     @ b32_bytes (w_DocumentDigest w) @ b32_bytes (w_Nonce w)"

definition supported :: "witness \<Rightarrow> bool" where
  "supported w \<longleftrightarrow> w_Version w = 1 \<and> w_Algorithm w = 1
     \<and> (w_Representation w = 1 \<or> w_Representation w = 2) \<and> w_Metadata w = 0"

lemma Encode_eq_Inr [result_simps]: "Encode w = Inr bs \<longleftrightarrow> supported w \<and> bs = preimage w"
  by (auto simp: Encode_def supported_def preimage_def commitment_consts)

lemma Encode_eq_Inl: "Encode w = Inl e \<Longrightarrow> \<not> supported w"
  by (auto simp: Encode_def supported_def commitment_consts split: if_splits)

lemma Encode_supported: "supported w \<Longrightarrow> Encode w = Inr (preimage w)"
  by (simp add: Encode_eq_Inr)

lemma Compute_eq_Inr [result_simps]: "Compute w = Inr c \<longleftrightarrow> supported w \<and> c = sha256 (preimage w)"
  by (auto simp: Compute_def result_simps)

lemma length_preimage [simp, bytes_simps]: "length (preimage w) = 90"
  by (simp add: preimage_def)

lemma Parse_commitment_preimage: "supported w \<Longrightarrow> Parse_commitment (preimage w) = Inr w"
proof -
  have parts: "slice 0 22 (preimage w) = commit_domain"
    "preimage w ! 22 = w_Version w" "preimage w ! 23 = w_Algorithm w"
    "preimage w ! 24 = w_Representation w" "preimage w ! 25 = w_Metadata w"
    "slice 26 58 (preimage w) = b32_bytes (w_DocumentDigest w)"
    "slice 58 90 (preimage w) = b32_bytes (w_Nonce w)"
    by (simp_all add: preimage_def nth_append)
  then show "supported w \<Longrightarrow> ?thesis"
    by (simp add: Parse_commitment_def Let_def Encode_supported)
qed

lemma preimage_Parse_commitment:
  assumes "Parse_commitment bs = Inr w"
  shows "supported w \<and> preimage w = bs"
proof -
  have len: "length bs = 90" and dom: "slice 0 22 bs = commit_domain" and sup: "supported w"
    and w: "w_Version w = bs ! 22" "w_Algorithm w = bs ! 23" "w_Representation w = bs ! 24"
      "w_Metadata w = bs ! 25" "w_DocumentDigest w = b32_copy (slice 26 58 bs)"
      "w_Nonce w = b32_copy (slice 58 90 bs)"
    using assms by (auto simp: Parse_commitment_def result_simps Let_def split: if_splits)
  have one: "[bs ! 22, bs ! 23, bs ! 24, bs ! 25] =
      slice 22 23 bs @ slice 23 24 bs @ slice 24 25 bs @ slice 25 26 bs"
    using len slice_single [of 22 bs] slice_single [of 23 bs] slice_single [of 24 bs]
      slice_single [of 25 bs] by simp
  have "preimage w = slice 0 22 bs @ [bs ! 22, bs ! 23, bs ! 24, bs ! 25]
      @ slice 26 58 bs @ slice 58 90 bs"
    using len by (simp add: preimage_def w dom)
  also have "\<dots> = slice 0 90 bs"
    by (simp only: one append_assoc) (simp add: bytes_simps)
  finally show ?thesis using sup len by simp
qed

interpretation commitment: bounded_codec Encode Parse_commitment 90 90
  by unfold_locales
    (auto simp: Encode_eq_Inr Parse_commitment_preimage dest: preimage_Parse_commitment)

lemma preimage_inject:
  "supported w \<Longrightarrow> supported v \<Longrightarrow> preimage w = preimage v \<longleftrightarrow> w = v"
  by (metis Encode_supported commitment.enc_inj)

section \<open>What the operations accept\<close>

lemma hashDocument_eq_Inr:
  "hashDocument d m = Inr h \<longleftrightarrow>
    (\<exists>r. d = Some r \<and> 0 \<le> sint m \<and> m \<noteq> max_int64 \<and> ending r = Eof
      \<and> int (length (content r)) \<le> sint m \<and> h = sha256 (content r))" (is "?l \<longleftrightarrow> ?r")
proof
  assume ?l
  then obtain r bs where r: "d = Some r" "0 \<le> sint m" "m \<noteq> max_int64"
    and bs: "read_limited r (m + 1) = Inr bs" "int (length bs) \<le> sint m" "h = sha256 bs"
    by (auto simp: hashDocument_def result_simps not_less split: option.splits if_splits)
  have "length bs < nat (sint (m + 1))" using sint_succ [OF r(3)] bs(2) by simp
  from read_limited_short [OF bs(1) this] r bs show ?r by blast
next
  assume ?r
  then obtain r where r: "d = Some r" "0 \<le> sint m" "m \<noteq> max_int64" "ending r = Eof"
    "int (length (content r)) \<le> sint m" "h = sha256 (content r)" by blast
  then have "length (content r) < nat (sint (m + 1))" using sint_succ [OF r(3)] by simp
  with read_limited_Eof [OF r(4) this] r show ?l by (simp add: hashDocument_def)
qed

lemma Verify_commitment_None:
  "Verify_commitment d w c m = None \<longleftrightarrow>
    Compute w = Inr c \<and> hashDocument d m = Inr (w_DocumentDigest w)"
  by (auto simp: Verify_commitment_def split: sum.splits)

lemma Verify_commitment_Some:
  "Verify_commitment d w c m = Some e \<Longrightarrow> Compute w = Inr c \<Longrightarrow>
   hashDocument d m \<noteq> Inr (w_DocumentDigest w)"
  using Verify_commitment_None [of d w c m] by auto

lemma New_commitment_Inr:
  assumes "New_commitment d rep m rnd = (Inr (w, c), rnd')"
  shows "Compute w = Inr c \<and> hashDocument d m = Inr (w_DocumentDigest w)
    \<and> w_Representation w = rep \<and> (\<exists>raw. rnd = Inr raw # rnd' \<and> w_Nonce w = b32_copy raw)"
  using assms
  by (cases rnd) (auto simp: New_commitment_def Let_def result_simps split: sum.splits)

lemma New_commitment_succeeds:
  "(\<exists>w c rnd'. New_commitment d rep m rnd = (Inr (w, c), rnd')) \<longleftrightarrow>
    (rep = Original \<or> rep = Derived) \<and> (\<exists>h. hashDocument d m = Inr h)
      \<and> (\<exists>raw rest. rnd = Inr raw # rest)" (is "?l \<longleftrightarrow> ?r")
proof
  assume ?l
  then obtain w c rnd' where new: "New_commitment d rep m rnd = (Inr (w, c), rnd')" by blast
  from New_commitment_Inr [OF new] show ?r
    by (auto simp: Compute_eq_Inr supported_def commitment_consts)
next
  assume ?r
  then obtain h raw rest where "rep = 1 \<or> rep = 2" "hashDocument d m = Inr h" "rnd = Inr raw # rest"
    by (auto simp: commitment_consts)
  then show ?l
    by (auto simp: New_commitment_def Let_def Encode_def Compute_def commitment_consts)
qed

lemma binding_cases:
  assumes "Compute w = Inr c" and "Compute v = Inr c"
  shows "w = v \<or> collision_between {preimage w} {preimage v}"
proof -
  have "preimage w = preimage v \<or> collision_between {preimage w} {preimage v}"
    by (rule sha256_eq_cases) (use assms in \<open>auto simp: Compute_eq_Inr\<close>)
  then show ?thesis using assms preimage_inject by (auto simp: Compute_eq_Inr)
qed

section \<open>Properties\<close>

text \<open>
  The preimage format is strict in both directions and 90 bytes wide: a witness encodes to
  some bytes exactly when those bytes parse to this witness, so no byte string but the canonical
  one is accepted and no field is lost.
\<close>

theorem commitment_format_strict:
  "(Encode w = Inr bs \<longleftrightarrow> Parse_commitment bs = Inr w) \<and>
   (Parse_commitment bs = Inr w \<longrightarrow> length bs = 90)"
  using commitment.dec_iff_enc [of bs w] commitment.dec_bounds [of bs w] by auto

theorem commitment_format_strict_witness:
  "\<exists>w bs. w_Representation w = 2 \<and> Parse_commitment bs = Inr w \<and> length bs = 90"
proof -
  let ?w = "\<lparr>w_Version = 1, w_Algorithm = 1, w_Representation = 2, w_Metadata = 0,
    w_DocumentDigest = b32_copy [5], w_Nonce = b32_copy [6]\<rparr>"
  have "Encode ?w = Inr (preimage ?w)" by (simp add: Encode_eq_Inr supported_def)
  then have "Parse_commitment (preimage ?w) = Inr ?w \<and> length (preimage ?w) = 90"
    using commitment_format_strict [of ?w "preimage ?w"] by simp
  then show ?thesis by (intro exI [of _ ?w] exI [of _ "preimage ?w"]) simp
qed

text \<open>
  A published digest binds both the private witness and the document: two successful
  verifications against the same commitment are of the same witness and of the same bytes, or
  two of the four strings hashed by them collide.
\<close>

theorem commitment_binding:
  assumes "Verify_commitment (Some d) w c m = None" and "Verify_commitment (Some e) v c k = None"
  shows "w = v \<and> content d = content e \<or>
    collision_between {preimage w, content d} {preimage v, content e}"
proof -
  let ?coll = "collision_between {preimage w, content d} {preimage v, content e}"
  have "w = v \<or> ?coll"
    by (rule collision_or_mono [OF binding_cases [of w c v]])
      (use assms in \<open>auto simp: Verify_commitment_None\<close>)
  moreover have "content d = content e \<or> ?coll" if "w = v"
    by (rule sha256_eq_cases)
      (use assms that in \<open>auto simp: Verify_commitment_None hashDocument_eq_Inr\<close>)
  ultimately show ?thesis by blast
qed

theorem commitment_binding_witness:
  "\<exists>w c. Verify_commitment (Some (bytes_reader [1, 2])) w c 5 = None \<and>
    (w = w \<and> content (bytes_reader [1, 2]) = content (bytes_reader [1, 2]) \<or>
     collision_between {preimage w, content (bytes_reader [1, 2])}
       {preimage w, content (bytes_reader [1, 2])})"
proof -
  let ?w = "\<lparr>w_Version = 1, w_Algorithm = 1, w_Representation = 1, w_Metadata = 0,
    w_DocumentDigest = sha256 [1, 2], w_Nonce = b32_copy [6]\<rparr>"
  have "Verify_commitment (Some (bytes_reader [1, 2])) ?w (sha256 (preimage ?w)) 5 = None"
    by (simp add: Verify_commitment_None Compute_eq_Inr supported_def hashDocument_eq_Inr
        max_int64_def)
  from this commitment_binding [OF this this] show ?thesis by blast
qed

text \<open>
  What \<open>New_commitment\<close> returns verifies: the document it read verifies against the
  witness and the commitment under every limit that admits the document, the witness carries the
  requested representation, and its nonce is the one block of entropy that the call consumed.
\<close>

theorem commitment_new_verifies:
  assumes "New_commitment (Some d) representation m rnd = (Inr (w, c), rnd')"
    and "int (length (content d)) \<le> sint k" and "k \<noteq> max_int64"
  shows "Verify_commitment (Some d) w c k = None \<and> w_Representation w = representation \<and>
    (\<exists>raw. rnd = Inr raw # rnd' \<and> w_Nonce w = b32_copy raw)"
  using New_commitment_Inr [OF assms(1)] assms(2,3)
  by (auto simp: Verify_commitment_None hashDocument_eq_Inr)

theorem commitment_new_verifies_witness:
  "\<exists>w c. New_commitment (Some (bytes_reader [1])) 2 4 [Inr [9]] = (Inr (w, c), []) \<and>
    Verify_commitment (Some (bytes_reader [1])) w c 1 = None"
proof -
  have h: "hashDocument (Some (bytes_reader [1])) 4 = Inr (sha256 [1])"
    by (simp add: hashDocument_eq_Inr max_int64_def)
  obtain w c rnd' where new:
    "New_commitment (Some (bytes_reader [1])) 2 4 [Inr [9]] = (Inr (w, c), rnd')"
    using New_commitment_succeeds [of "Some (bytes_reader [1])" 2 4 "[Inr [9]]"] h
    by (auto simp: Derived_def)
  have "rnd' = []" using New_commitment_Inr [OF new] by simp
  moreover have "Verify_commitment (Some (bytes_reader [1])) w c 1 = None"
    using commitment_new_verifies [OF new, of 1] by (simp add: max_int64_def)
  ultimately show ?thesis using new by blast
qed

text \<open>
  C40. The byte limit is exact and does not overflow: a document is hashed precisely when the
  limit is neither negative nor the largest 64-bit value (whose successor would be negative), the
  reader ends without an error and its whole content fits the limit; the digest is then that of
  the whole content.
\<close>

theorem document_limit_exact:
  "hashDocument (Some r) m = Inr h \<longleftrightarrow>
    0 \<le> sint m \<and> m \<noteq> max_int64 \<and> ending r = Eof \<and>
    int (length (content r)) \<le> sint m \<and> h = sha256 (content r)"
  by (auto simp: hashDocument_eq_Inr)

end
