(* ===== verification/Merkle.thy ===== *)
theory Merkle
  imports Sha256
begin

text \<open>
  Package \<^verbatim>\<open>merkle\<close> (\<^verbatim>\<open>pkg/proof/merkle/merkle.go\<close>): the RFC 6962 tree over raw entries.
  \<open>leaf\<close>, \<open>node\<close> and \<open>split\<close> are the helpers of the file, \<open>Root\<close>, \<open>Path\<close> and
  \<open>Verify\<close> its exported functions. The index and size parameters keep their 64 bits; the
  slice \<^verbatim>\<open>entries\<close> is a list. The lemmas show what \<open>split\<close> computes and that the recursions end;
  what the package guarantees is in theory \<open>Merkle_Props\<close>.
\<close>

type_synonym hash = b32

section \<open>Leaves, nodes and the split point\<close>

definition leaf_input :: "bytes \<Rightarrow> bytes" where
  "leaf_input data = 0 # data"

definition node_input :: "hash \<Rightarrow> hash \<Rightarrow> bytes" where
  "node_input left right = 1 # b32_bytes left @ b32_bytes right"

definition leaf :: "bytes \<Rightarrow> hash" where
  "leaf data = sha256 (leaf_input data)"

definition node :: "hash \<Rightarrow> hash \<Rightarrow> hash" where
  "node left right = sha256 (node_input left right)"

text \<open>
  The shift count of the source is \<^verbatim>\<open>bits.Len64(size-1) - 1\<close>, which is negative (a panic) for
  size 1 only; every caller tests for size 1 first.
\<close>

definition split :: "u64 \<Rightarrow> u64" where
  "split n = push_bit (len64 (n - 1) - 1) 1"

lemma leaf_input_inject [simp]: "leaf_input a = leaf_input b \<longleftrightarrow> a = b"
  by (simp add: leaf_input_def)

lemma node_input_inject [simp]: "node_input a b = node_input c d \<longleftrightarrow> a = c \<and> b = d"
  by (simp add: node_input_def b32_bytes_inject)

lemma leaf_input_neq_node_input [simp]:
  "leaf_input a \<noteq> node_input b c" "node_input b c \<noteq> leaf_input a"
  by (simp_all add: leaf_input_def node_input_def)

lemma unat_split: "unat (split n) = 2 ^ (len64 (n - 1) - 1)"
proof -
  let ?k = "len64 (n - 1) - 1"
  have "?k < 64" using len64_le [of "n - 1"] by linarith
  then have less: "(2::nat) ^ ?k < 2 ^ 64"
    by (intro power_strict_increasing) simp_all
  have "split n = of_nat (2 ^ ?k)"
    by (simp add: split_def push_bit_eq_mult)
  then show ?thesis
    using less by (simp only: unat_of_nat) simp
qed

text \<open>On sizes of at least two the split point is positive, below the size, at least half of it.\<close>

lemma split_bounds:
  assumes "1 < unat n"
  shows "0 < unat (split n)" and "unat (split n) < unat n" and "unat n \<le> 2 * unat (split n)"
proof -
  have n1: "unat (n - 1) = unat n - 1"
    using assms by (metis less_irrefl_nat unat_0 unat_minus_one not_less_zero)
  let ?l = "bit_len (unat n - 1)"
  have pos: "0 < unat n - 1" using assms by simp
  then have l: "0 < ?l" by (simp add: bit_len_pos)
  have s: "unat (split n) = 2 ^ (?l - 1)" by (simp add: unat_split len64_def n1)
  show "0 < unat (split n)" by (simp add: s)
  show "unat (split n) < unat n" using bit_len_le [OF pos] assms by (simp add: s)
  have "unat n - 1 < 2 ^ ?l" by (rule bit_len_less)
  also have "(2::nat) ^ ?l = 2 * 2 ^ (?l - 1)" using l by (metis Suc_diff_1 power_Suc)
  finally show "unat n \<le> 2 * unat (split n)" by (simp add: s)
qed

lemma split_le_any: "unat (split n) \<le> 2 ^ 63"
proof -
  have "len64 (n - 1) - 1 \<le> 63" using len64_le [of "n - 1"] by linarith
  then show ?thesis by (simp add: unat_split power_increasing del: power_numeral)
qed

lemma split_pos: "0 < unat (split n)"
  by (simp add: unat_split)

section \<open>Roots and paths\<close>

text \<open>
  \<^verbatim>\<open>entries[:k]\<close> and \<^verbatim>\<open>entries[k:]\<close> are \<open>take\<close> and \<open>drop\<close>. The recursions end for
  every list because the split point of two or more entries lies strictly inside the list.
\<close>

lemma split_inside:
  fixes xs :: "'a list"
  assumes "1 < length xs"
  shows "unat (split (of_nat (length xs))) < length xs"
proof (cases "length xs < 2 ^ 64")
  case True
  then have "unat (of_nat (length xs) :: u64) = length xs" by (simp add: unat_of_nat)
  then show ?thesis using split_bounds(2) [of "of_nat (length xs)"] assms by simp
next
  case False
  have "unat (split (of_nat (length xs))) \<le> 2 ^ 63" by (rule split_le_any)
  also have "\<dots> < length xs" using False by simp
  finally show ?thesis .
qed

lemma split_parts_shorter:
  fixes xs :: "'a list"
  assumes "length xs \<noteq> 0" and "length xs \<noteq> 1"
  shows "length (take (unat (split (of_nat (length xs)))) xs) < length xs"
    and "length (drop (unat (split (of_nat (length xs)))) xs) < length xs"
  using split_inside [of xs] split_pos [of "of_nat (length xs)"] assms by simp_all

function Root :: "bytes list \<Rightarrow> hash" where
  "Root entries =
     (if length entries = 0 then sha256 []
      else if length entries = 1 then leaf (entries ! 0)
      else let k = unat (split (of_nat (length entries)))
           in node (Root (take k entries)) (Root (drop k entries)))"
  by pat_completeness auto
termination
  by (relation "measure length") (simp_all only: in_measure wf_measure split_parts_shorter not_False_eq_True)

declare Root.simps [simp del]

function Path :: "bytes list \<Rightarrow> u64 \<Rightarrow> hash list result" where
  "Path entries index =
     (if of_nat (length entries) \<le> index then Inl (New ''leaf index outside tree'')
      else if length entries = 1 then Inr []
      else let k = split (of_nat (length entries))
           in if index < k
              then bindE (Path (take (unat k) entries) index)
                     (\<lambda>path. Inr (path @ [Root (drop (unat k) entries)]))
              else bindE (Path (drop (unat k) entries) (index - k))
                     (\<lambda>path. Inr (path @ [Root (take (unat k) entries)])))"
  by pat_completeness auto
termination
proof (relation "measure (\<lambda>(xs, i). length xs)", goal_cases)
  case (2 entries index k)
  then have "length entries \<noteq> 0" by auto
  with 2 show ?case by (simp only: in_measure case_prod_conv split_parts_shorter not_False_eq_True)
next
  case (3 entries index k)
  then have "length entries \<noteq> 0" by auto
  with 3 show ?case by (simp only: in_measure case_prod_conv split_parts_shorter not_False_eq_True)
qed simp

declare Path.simps [simp del]

section \<open>Verification\<close>

text \<open>Size 0 is refused by \<^verbatim>\<open>Verify\<close>; the recursion ends for it as well.\<close>

lemma split_less_measure:
  fixes n :: u64
  assumes "n \<noteq> 1"
  shows "split n \<noteq> 0" and "unat (split n) < (if n = 0 then 2 ^ 64 else unat n)"
    and "n \<noteq> 0 \<Longrightarrow> unat (n - split n) < unat n" and "n \<noteq> 0 \<Longrightarrow> n - split n \<noteq> 0"
proof -
  show "split n \<noteq> 0" using split_pos [of n] by auto
  have n1: "1 < unat n" if "n \<noteq> 0"
    using that assms by (metis less_one linorder_neqE_nat unat_eq_zero unat_1 word_unat_eq_iff)
  show "unat (split n) < (if n = 0 then 2 ^ 64 else unat n)"
    using split_le_any [of n] split_bounds(2) [OF n1] by auto
  assume "n \<noteq> 0"
  then have b: "unat (split n) < unat n" "0 < unat (split n)" using split_bounds n1 by auto
  then have "unat (n - split n) = unat n - unat (split n)"
    by (intro unat_sub) (simp add: word_le_nat_alt)
  with b show "unat (n - split n) < unat n" and "n - split n \<noteq> 0" by auto
qed

text \<open>
  The closure \<^verbatim>\<open>rebuild\<close> of \<^verbatim>\<open>Verify\<close>: it reads \<^verbatim>\<open>entry\<close> and \<^verbatim>\<open>path\<close> and counts the
  siblings consumed in the variable \<^verbatim>\<open>used\<close>, which the model passes in and returns.
\<close>

function rebuild :: "bytes \<Rightarrow> hash list \<Rightarrow> u64 \<Rightarrow> u64 \<Rightarrow> nat \<Rightarrow> (hash \<times> nat) result" where
  "rebuild entry path i n used =
     (if n = 1 then Inr (leaf entry, used)
      else let k = split n in
        bindE (if i < k then rebuild entry path i k used
               else rebuild entry path (i - k) (n - k) used)
          (\<lambda>(child, used).
             if length path \<le> used then Inl (New ''truncated inclusion path'')
             else let sibling = path ! used
                  in Inr (if i < k then node child sibling else node sibling child, used + 1)))"
  by pat_completeness auto
termination
proof (relation "measure (\<lambda>(entry, path, i, n, used). if n = 0 then 2 ^ 64 else unat (n :: u64))",
    goal_cases)
  case (2 entry path i n used k)
  then show ?case using split_less_measure(1,2) [of n] by simp
next
  case (3 entry path i n used k)
  have "unat (n - split n) < 2 ^ 64"
    using unsigned_less [of "n - split n", where ?'a = nat] by simp
  moreover have "- split n \<noteq> 0" using split_less_measure(1) [of n] 3(1) by simp
  ultimately show ?case
    using 3 split_less_measure(3,4) [of n] by (cases "n = 0") simp_all
qed simp

declare rebuild.simps [simp del]

definition Verify :: "bytes \<Rightarrow> u64 \<Rightarrow> u64 \<Rightarrow> hash list \<Rightarrow> hash \<Rightarrow> go_error option" where
  "Verify entry index n path root =
     (if n = 0 \<or> n \<le> index then Some (New ''invalid tree size or leaf index'')
      else if 64 < length path then Some (New ''path exceeds maximum depth'')
      else case rebuild entry path index n 0 of
          Inl err \<Rightarrow> Some err
        | Inr (got, used) \<Rightarrow>
            if used \<noteq> length path then Some (New ''extra inclusion path nodes'')
            else if got \<noteq> root then Some (New ''inclusion root mismatch'')
            else None)"

end
