(* ===== verification/Vector_Commitment.thy ===== *)
theory Vector_Commitment
  imports Sha256
begin

text \<open>
  The interface between a tree of entries and its clients (the batch manifest, the package
  verifier, the store's export): a digest that commits to an ordered list, an operation that
  opens one position, and a check of an opening against a digest and a claimed size. The laws
  are relative to SHA-256: where a law could only fail through a collision it names the inputs
  that would collide, \<open>commit_in\<close> those hashed by \<open>commit\<close> and \<open>check_in\<close> those hashed
  by \<open>check\<close>.
\<close>

locale vector_commitment =
  fixes commit :: "'x list \<Rightarrow> 'h"
    and open_at :: "'x list \<Rightarrow> u64 \<Rightarrow> 'p result"
    and check :: "'x \<Rightarrow> u64 \<Rightarrow> u64 \<Rightarrow> 'p \<Rightarrow> 'h \<Rightarrow> go_error option"
    and commit_in :: "'x list \<Rightarrow> bytes set"
    and check_in :: "'x \<Rightarrow> u64 \<Rightarrow> u64 \<Rightarrow> 'p \<Rightarrow> bytes set"
  assumes open_checks: "length xs < 2 ^ 64 \<Longrightarrow> unat i < length xs \<Longrightarrow>
      \<exists>p. open_at xs i = Inr p \<and> check (xs ! unat i) i (of_nat (length xs)) p (commit xs) = None"
    and open_outside: "length xs \<le> unat i \<Longrightarrow> \<exists>err. open_at xs i = Inl err"
    and check_inside: "check e i n p h = None \<Longrightarrow> i < n"
    and check_member: "check e i n p (commit xs) = None \<Longrightarrow>
      e \<in> set xs \<or> collision_between (check_in e i n p) (commit_in xs)"
    and check_unique: "check e i n p h = None \<Longrightarrow> check e' i n p' h = None \<Longrightarrow>
      e = e' \<and> p = p' \<or> collision_between (check_in e i n p) (check_in e' i n p')"
    and commit_inject: "commit xs = commit ys \<Longrightarrow>
      xs = ys \<or> collision_between (commit_in xs) (commit_in ys)"
begin

lemma open_at_iff:
  assumes "length xs < 2 ^ 64"
  shows "(\<exists>p. open_at xs i = Inr p) \<longleftrightarrow> unat i < length xs"
  using open_checks [OF assms, of i] open_outside [of xs i] by (cases "unat i < length xs") auto

lemma open_at_checks:
  assumes "length xs < 2 ^ 64" and "open_at xs i = Inr p"
  shows "unat i < length xs" and "check (xs ! unat i) i (of_nat (length xs)) p (commit xs) = None"
proof -
  show i: "unat i < length xs" using assms open_outside [of xs i] by (cases "unat i < length xs") auto
  show "check (xs ! unat i) i (of_nat (length xs)) p (commit xs) = None"
    using open_checks [OF assms(1) i] assms(2) by auto
qed

text \<open>With the genuine size, only the genuine entry and the genuine opening are accepted.\<close>

lemma check_position:
  assumes "length xs < 2 ^ 64" and "check e i (of_nat (length xs)) p (commit xs) = None"
  shows "\<exists>q. open_at xs i = Inr q \<and>
    (e = xs ! unat i \<and> p = q \<or>
     collision_between (check_in e i (of_nat (length xs)) p)
       (check_in (xs ! unat i) i (of_nat (length xs)) q))"
proof -
  have "unat (of_nat (length xs) :: u64) = length xs" using assms(1) by (simp add: unat_of_nat)
  then have "unat i < length xs" using check_inside [OF assms(2)] by (simp add: word_less_nat_alt)
  from open_checks [OF assms(1) this] obtain q where
    q: "open_at xs i = Inr q" "check (xs ! unat i) i (of_nat (length xs)) q (commit xs) = None"
    by blast
  from check_unique [OF assms(2) q(2)] q(1) show ?thesis by blast
qed

end

end
