(* ===== verification/Merkle_Props.thy ===== *)
theory Merkle_Props
  imports Merkle Vector_Commitment
begin

text \<open>
  What package \<^verbatim>\<open>merkle\<close> guarantees. The specification functions are \<open>depth\<close> (the sibling
  count of a leaf), \<open>path_root\<close> (the root that an entry and a path determine, from the root
  downwards, with no counter and no errors), and \<open>root_inputs\<close> and \<open>path_inputs\<close> (the byte
  strings hashed when a root is computed and when a path is verified).
\<close>

section \<open>Specification functions\<close>

function depth :: "u64 \<Rightarrow> u64 \<Rightarrow> nat" where
  "depth i n =
     (if unat n \<le> 1 then 0
      else let k = split n in Suc (if i < k then depth i k else depth (i - k) (n - k)))"
  by pat_completeness auto
termination
proof (relation "measure (\<lambda>(i, n). unat n)", goal_cases)
  case (2 i n k)
  then show ?case using split_bounds(2) [of n] by simp
next
  case (3 i n k)
  then have "n \<noteq> 1" "n \<noteq> 0" by auto
  with 3 show ?case using split_less_measure(3) [of n] by simp
qed simp

declare depth.simps [simp del]

text \<open>The last sibling of the path is the one next to the root.\<close>

function path_root :: "bytes \<Rightarrow> u64 \<Rightarrow> u64 \<Rightarrow> hash list \<Rightarrow> hash" where
  "path_root e i n p =
     (if unat n \<le> 1 \<or> p = [] then leaf e
      else let k = split n in
        if i < k then node (path_root e i k (butlast p)) (last p)
        else node (last p) (path_root e (i - k) (n - k) (butlast p)))"
  by pat_completeness auto
termination
  by (relation "measure (\<lambda>(e, i, n, p). length p)") auto

declare path_root.simps [simp del]

function path_inputs :: "bytes \<Rightarrow> u64 \<Rightarrow> u64 \<Rightarrow> hash list \<Rightarrow> bytes list" where
  "path_inputs e i n p =
     (if unat n \<le> 1 \<or> p = [] then [leaf_input e]
      else let k = split n in
        if i < k then node_input (path_root e i k (butlast p)) (last p)
               # path_inputs e i k (butlast p)
        else node_input (last p) (path_root e (i - k) (n - k) (butlast p))
               # path_inputs e (i - k) (n - k) (butlast p))"
  by pat_completeness auto
termination
  by (relation "measure (\<lambda>(e, i, n, p). length p)") auto

declare path_inputs.simps [simp del]

function root_inputs :: "bytes list \<Rightarrow> bytes list" where
  "root_inputs xs =
     (if length xs = 0 then [[]]
      else if length xs = 1 then [leaf_input (xs ! 0)]
      else let k = unat (split (of_nat (length xs)))
           in node_input (Root (take k xs)) (Root (drop k xs))
                # root_inputs (take k xs) @ root_inputs (drop k xs))"
  by pat_completeness auto
termination
  by (relation "measure length")
    (simp_all only: in_measure wf_measure split_parts_shorter not_False_eq_True)

declare root_inputs.simps [simp del]

section \<open>The arithmetic of one descent\<close>

text \<open>
  One step from a tree of size \<open>n\<close> into the subtree that holds the leaf: everything that the
  inductions below need about the words involved.
\<close>

lemma descend_left:
  fixes i n :: u64
  assumes "1 < unat n" and "i < split n"
  shows "unat i < unat (split n)" "1 \<le> unat (split n)" "split n \<noteq> 0"
  using assms split_pos [of n] by (auto simp: word_less_nat_alt Suc_le_eq)

lemma descend_right:
  fixes i n :: u64
  assumes "1 < unat n" and "\<not> i < split n" and "i < n"
  shows "unat (i - split n) = unat i - unat (split n)"
    and "unat (n - split n) = unat n - unat (split n)"
    and "i - split n < n - split n" "n - split n \<noteq> 0" "unat (split n) \<le> unat i"
proof -
  have b: "unat (split n) < unat n" "0 < unat (split n)" using split_bounds assms by auto
  show i: "unat (i - split n) = unat i - unat (split n)"
    using assms(2) by (intro unat_sub) (simp add: not_less)
  show n: "unat (n - split n) = unat n - unat (split n)"
    using b by (intro unat_sub) (simp add: word_le_nat_alt)
  show "unat (split n) \<le> unat i"
    using assms(2) by (simp add: word_less_nat_alt)
  with i n assms(3) b show "i - split n < n - split n"
    by (simp add: word_less_nat_alt)
  show "n - split n \<noteq> 0" using b by auto
qed

lemma unat_gt_1_iff: "1 < unat (n :: u64) \<longleftrightarrow> n \<noteq> 0 \<and> n \<noteq> 1"
proof -
  have "unat n = 0 \<longleftrightarrow> n = 0" "unat n = 1 \<longleftrightarrow> n = 1"
    by (auto simp: word_unat_eq_iff)
  then show ?thesis by linarith
qed

lemma length_parts:
  fixes xs :: "'a list"
  assumes "length xs < 2 ^ 64" and "1 < length xs"
  defines "k \<equiv> split (of_nat (length xs))"
  shows "unat (of_nat (length xs) :: u64) = length xs"
    and "of_nat (length (take (unat k) xs)) = k"
    and "of_nat (length (drop (unat k) xs)) = of_nat (length xs) - k"
    and "length (take (unat k) xs) < 2 ^ 64" "length (drop (unat k) xs) < 2 ^ 64"
    and "length (take (unat k) xs) = unat k" "unat k < length xs"
proof -
  show "unat (of_nat (length xs) :: u64) = length xs" using assms(1) by (simp add: unat_of_nat)
  show "unat k < length xs" using split_inside [OF assms(2)] by (simp add: k_def)
  then show "of_nat (length (take (unat k) xs)) = k"
    and "length (take (unat k) xs) = unat k"
    and "of_nat (length (drop (unat k) xs)) = of_nat (length xs) - k"
    by (simp_all add: min_def of_nat_diff)
  show "length (take (unat k) xs) < 2 ^ 64" "length (drop (unat k) xs) < 2 ^ 64"
    using assms(1) by simp_all
qed

section \<open>What Verify accepts\<close>

lemma depth_le: "unat n \<le> 2 ^ m \<Longrightarrow> depth i n \<le> m"
proof (induction i n arbitrary: m rule: depth.induct)
  case (1 i n)
  show ?case
  proof (cases "unat n \<le> 1")
    case True
    then show ?thesis by (simp add: depth.simps [of i n])
  next
    case False
    then have n: "1 < unat n" by simp
    let ?j = "len64 (n - 1) - 1"
    have k: "unat (split n) = 2 ^ ?j" by (rule unat_split)
    have "(2::nat) ^ ?j < unat n" using split_bounds(2) [OF n] unfolding k .
    also have "\<dots> \<le> 2 ^ m" by (rule 1(3))
    finally have "?j < m" by (rule power_less_imp_less_exp [rotated]) simp
    then obtain m' where m: "m = Suc m'" "?j \<le> m'" by (cases m) auto
    then have le: "unat (split n) \<le> 2 ^ m'" by (simp add: k)
    have "unat (n - split n) = unat n - unat (split n)"
      using split_bounds(2) [OF n] by (intro unat_sub) (simp add: word_le_nat_alt)
    then have "unat (n - split n) \<le> 2 ^ m'" using split_bounds(3) [OF n] le by linarith
    with 1(1,2) False le m show ?thesis by (simp add: depth.simps [of i n] Let_def)
  qed
qed

lemma depth_le_64: "depth i n \<le> 64"
proof (rule depth_le)
  show "unat n \<le> 2 ^ 64" using unsigned_less [of n, where ?'a = nat] by simp
qed

lemma rebuild_1: "rebuild e path i 1 used = Inr (leaf e, used)"
  by (subst rebuild.simps) simp

lemma depth_1 [simp]: "depth i 1 = 0"
  by (subst depth.simps) simp

lemma path_root_Nil [simp]: "path_root e i n [] = leaf e"
  by (subst path_root.simps) simp

lemma Root_1: "length xs = 1 \<Longrightarrow> Root xs = leaf (xs ! 0)"
  by (subst Root.simps) simp

lemma rebuild_eq:
  "n \<noteq> 0 \<Longrightarrow> used \<le> length path \<Longrightarrow> rebuild e path i n used =
     (if used + depth i n \<le> length path
      then Inr (path_root e i n (take (depth i n) (drop used path)), used + depth i n)
      else Inl (New ''truncated inclusion path''))"
proof (induction e path i n used rule: rebuild.induct)
  case (1 entry path i n used)
  show ?case
  proof (cases "n = 1")
    case True
    then show ?thesis
      using 1(4) by (simp add: rebuild_1)
  next
    case False
    have n: "\<not> unat n \<le> 1" using False 1(3) unat_gt_1_iff [of n] by simp
    have nz: "split n \<noteq> 0" "n - split n \<noteq> 0"
      using split_less_measure(1,4) [OF False] 1(3) by auto
    let ?k = "split n" and ?left = "i < split n"
    define d where "d = (if ?left then depth i ?k else depth (i - ?k) (n - ?k))"
    define sub where "sub = (\<lambda>p. if ?left then path_root entry i ?k p
      else path_root entry (i - ?k) (n - ?k) p)"
    have dep: "depth i n = Suc d" using n by (simp add: depth.simps [of i n] d_def Let_def)
    have child: "(if ?left then rebuild entry path i ?k used
        else rebuild entry path (i - ?k) (n - ?k) used) =
      (if used + d \<le> length path then Inr (sub (take d (drop used path)), used + d)
       else Inl (New ''truncated inclusion path''))"
      using 1(1,2) [OF False refl] 1(4) nz by (simp add: d_def sub_def)
    have unfold: "rebuild entry path i n used =
      bindE (if used + d \<le> length path then Inr (sub (take d (drop used path)), used + d)
             else Inl (New ''truncated inclusion path''))
        (\<lambda>(child, used). if length path \<le> used then Inl (New ''truncated inclusion path'')
           else Inr (if ?left then node child (path ! used) else node (path ! used) child, used + 1))"
      using False by (simp only: rebuild.simps [of entry path i n] Let_def child if_False)
    have top: "path_root entry i n p = (if ?left then node (sub (butlast p)) (last p)
        else node (last p) (sub (butlast p)))" if "p \<noteq> []" for p
      using that n by (simp add: path_root.simps [of entry i n p] Let_def sub_def)
    show ?thesis
    proof (cases "used + Suc d \<le> length path")
      case True
      then have "take (Suc d) (drop used path) = take d (drop used path) @ [path ! (used + d)]"
        by (simp add: take_Suc_conv_app_nth)
      with True show ?thesis by (simp add: unfold dep top)
    next
      case False
      then show ?thesis by (simp add: unfold dep)
    qed
  qed
qed

lemma Verify_None_iff:
  "Verify e i n p root = None \<longleftrightarrow> i < n \<and> length p = depth i n \<and> path_root e i n p = root"
proof -
  have "n \<noteq> 0" if "i < n" using that by auto
  then show ?thesis
    using depth_le_64 [of i n]
    by (auto simp: Verify_def rebuild_eq not_le split: if_splits sum.splits)
qed

section \<open>Generated paths\<close>

lemma Path_exists:
  "length xs < 2 ^ 64 \<Longrightarrow> unat i < length xs \<Longrightarrow>
   \<exists>p. Path xs i = Inr p \<and> length p = depth i (of_nat (length xs))
     \<and> path_root (xs ! unat i) i (of_nat (length xs)) p = Root xs"
proof (induction xs i rule: Path.induct)
  case (1 xs i)
  have len: "unat (of_nat (length xs) :: u64) = length xs"
    using 1(3) by (simp add: unat_of_nat)
  then have in_range: "i < of_nat (length xs)" using 1(4) by (simp add: word_less_nat_alt)
  then have not_le: "\<not> of_nat (length xs) \<le> i" by simp
  show ?case
  proof (cases "length xs = 1")
    case True
    with 1(4) have "unat i = 0" by simp
    with True not_le show ?thesis
      by (simp add: Path.simps [of xs i] Root_1)
  next
    case False
    with 1(4) have two: "1 < length xs" by linarith
    let ?n = "of_nat (length xs) :: u64" and ?k = "split (of_nat (length xs))"
    note parts = length_parts [OF 1(3) two]
    have n: "1 < unat ?n" using two len by simp
    have root: "Root xs = node (Root (take (unat ?k) xs)) (Root (drop (unat ?k) xs))"
      using two by (subst Root.simps) (auto simp: Let_def)
    have nle: "\<not> unat ?n \<le> 1" using n by simp
    show ?thesis
    proof (cases "i < ?k")
      case True
      let ?l = "take (unat ?k) xs" and ?r = "drop (unat ?k) xs"
      have il: "unat i < unat ?k" by (rule descend_left(1) [OF n True])
      then have "unat i < length ?l" using parts(6) by simp
      from 1(1) [OF not_le False refl True parts(4) this]
      obtain p where p: "Path ?l i = Inr p" "length p = depth i ?k"
        "path_root (xs ! unat i) i ?k p = Root ?l"
        using il unfolding parts(2) by auto
      have "Path xs i = Inr (p @ [Root ?r])"
        using not_le False True p(1) by (simp only: Path.simps [of xs i] Let_def) simp
      moreover have "depth i ?n = Suc (depth i ?k)"
        using nle True by (simp only: depth.simps [of i ?n] Let_def) simp
      moreover have "path_root (xs ! unat i) i ?n (p @ [Root ?r]) = node (Root ?l) (Root ?r)"
        using nle True p(3) by (simp only: path_root.simps [of _ i ?n] Let_def) simp
      ultimately show ?thesis using p(2) root by simp
    next
      case right: False
      let ?l = "take (unat ?k) xs" and ?r = "drop (unat ?k) xs"
      note d = descend_right [OF n right in_range]
      have "unat (i - ?k) < length ?r" using d(1,5) 1(4) by simp
      from 1(2) [OF not_le False refl right parts(5) this]
      obtain p where p: "Path ?r (i - ?k) = Inr p" "length p = depth (i - ?k) (?n - ?k)"
        "path_root (?r ! unat (i - ?k)) (i - ?k) (?n - ?k) p = Root ?r"
        unfolding parts(3) by blast
      have e: "?r ! unat (i - ?k) = xs ! unat i" using d(1,5) parts(7) by simp
      have "Path xs i = Inr (p @ [Root ?l])"
        using not_le False right p(1) by (simp only: Path.simps [of xs i] Let_def) simp
      moreover have "depth i ?n = Suc (depth (i - ?k) (?n - ?k))"
        using nle right by (simp only: depth.simps [of i ?n] Let_def) simp
      moreover have "path_root (xs ! unat i) i ?n (p @ [Root ?l]) = node (Root ?l) (Root ?r)"
        using nle right p(3) e by (simp only: path_root.simps [of _ i ?n] Let_def) simp
      ultimately show ?thesis using p(2) root by simp
    qed
  qed
qed

lemma Path_error: "length xs \<le> unat i \<Longrightarrow> Path xs i = Inl (New ''leaf index outside tree'')"
proof -
  assume le: "length xs \<le> unat i"
  also have "unat i < 2 ^ 64" using unsigned_less [of i, where ?'a = nat] by simp
  finally have "unat (of_nat (length xs) :: u64) = length xs" by (simp add: unat_of_nat)
  with le show ?thesis by (simp add: Path.simps [of xs i] word_le_nat_alt)
qed

section \<open>Soundness up to collisions\<close>

lemma leaf_eq_cases:
  "leaf a = leaf b \<Longrightarrow> leaf_input a \<in> A \<Longrightarrow> leaf_input b \<in> B \<Longrightarrow> a = b \<or> collision_between A B"
  unfolding leaf_def by (drule sha256_eq_cases) auto

lemma node_eq_cases:
  "node a b = node c d \<Longrightarrow> node_input a b \<in> A \<Longrightarrow> node_input c d \<in> B \<Longrightarrow>
   a = c \<and> b = d \<or> collision_between A B"
  unfolding node_def by (drule sha256_eq_cases) auto

lemma leaf_node_collision:
  "leaf a = node c d \<Longrightarrow> leaf_input a \<in> A \<Longrightarrow> node_input c d \<in> B \<Longrightarrow> collision_between A B"
  unfolding leaf_def node_def by (drule sha256_eq_cases) auto

lemma input_neq_Nil [simp]:
  "leaf_input e \<noteq> []" "node_input l r \<noteq> []" "[] \<noteq> leaf_input e" "[] \<noteq> node_input l r"
  by (simp_all add: leaf_input_def node_input_def)

lemma leaf_empty_collision:
  "leaf a = sha256 [] \<Longrightarrow> leaf_input a \<in> A \<Longrightarrow> [] \<in> B \<Longrightarrow> collision_between A B"
  unfolding leaf_def by (drule sha256_eq_cases) auto

lemma node_empty_collision:
  "node a b = sha256 [] \<Longrightarrow> node_input a b \<in> A \<Longrightarrow> [] \<in> B \<Longrightarrow> collision_between A B"
  unfolding node_def by (drule sha256_eq_cases) auto

lemma node_leaf_collision:
  "node c d = leaf a \<Longrightarrow> node_input c d \<in> A \<Longrightarrow> leaf_input a \<in> B \<Longrightarrow> collision_between A B"
  unfolding leaf_def node_def by (drule sha256_eq_cases) auto

lemmas collision_cases = leaf_node_collision node_leaf_collision leaf_empty_collision
  node_empty_collision

text \<open>The shapes of a verification: the facts that link \<open>path_root\<close> with the inputs hashed.\<close>

lemma path_shapes:
  obtains (leaf) "unat n \<le> 1 \<or> p = []" "path_root e i n p = leaf e"
      "path_inputs e i n p = [leaf_input e]"
  | (left) "\<not> (unat n \<le> 1 \<or> p = [])" "i < split n"
      "path_root e i n p = node (path_root e i (split n) (butlast p)) (last p)"
      "path_inputs e i n p =
         node_input (path_root e i (split n) (butlast p)) (last p) # path_inputs e i (split n) (butlast p)"
  | (right) "\<not> (unat n \<le> 1 \<or> p = [])" "\<not> i < split n"
      "path_root e i n p = node (last p) (path_root e (i - split n) (n - split n) (butlast p))"
      "path_inputs e i n p =
         node_input (last p) (path_root e (i - split n) (n - split n) (butlast p))
           # path_inputs e (i - split n) (n - split n) (butlast p)"
  by (cases "unat n \<le> 1 \<or> p = []"; cases "i < split n")
    (simp_all add: path_root.simps [of e i n p] path_inputs.simps [of e i n p] Let_def)

text \<open>
  The three shapes of a tree: the facts that link \<open>Root\<close> with the inputs hashed for it.
\<close>

lemma Root_shapes:
  obtains (empty) "xs = []" "Root xs = sha256 []" "root_inputs xs = [[]]"
  | (one) x where "xs = [x]" "Root xs = leaf x" "root_inputs xs = [leaf_input x]"
  | (more) l r where "xs = l @ r" "length l < length xs" "length r < length xs"
      "Root xs = node (Root l) (Root r)"
      "root_inputs xs = node_input (Root l) (Root r) # root_inputs l @ root_inputs r"
proof -
  consider "length xs = 0" | "length xs = 1" | "1 < length xs" by linarith
  then show thesis
  proof cases
    case 1
    then show ?thesis by (intro empty) (simp_all add: Root.simps root_inputs.simps)
  next
    case 2
    then obtain x where "xs = [x]" by (auto simp: length_Suc_conv)
    then show ?thesis
      by (intro one [of x]) (simp_all add: Root.simps [of "[x]"] root_inputs.simps [of "[x]"])
  next
    case 3
    let ?k = "unat (split (of_nat (length xs)))"
    have k: "?k < length xs" "0 < ?k" using split_inside [OF 3] split_pos by auto
    show ?thesis
    proof (rule more [of "take ?k xs" "drop ?k xs"])
      show "Root xs = node (Root (take ?k xs)) (Root (drop ?k xs))"
        using 3 by (subst Root.simps) (auto simp: Let_def)
      show "root_inputs xs = node_input (Root (take ?k xs)) (Root (drop ?k xs))
          # root_inputs (take ?k xs) @ root_inputs (drop ?k xs)"
        using 3 by (subst root_inputs.simps) (auto simp: Let_def)
    qed (use 3 k in simp_all)
  qed
qed

lemma Root_hd: "Root xs = sha256 (hd (root_inputs xs)) \<and> hd (root_inputs xs) \<in> set (root_inputs xs)"
  by (cases rule: Root_shapes [of xs]) (simp_all add: leaf_def node_def)

text \<open>Whatever size and index are claimed, the entry is one of the tree's, or a collision is found.\<close>

lemma path_root_member:
  "path_root e i n p = Root xs \<Longrightarrow>
   e \<in> set xs \<or> collision_between (set (path_inputs e i n p)) (set (root_inputs xs))"
proof (induction e i n p arbitrary: xs rule: path_root.induct)
  case (1 e i n p)
  let ?coll = "collision_between (set (path_inputs e i n p)) (set (root_inputs xs))"
  note eq = 1(3)
  show ?case
  proof (cases rule: Root_shapes [of xs])
    case empty
    show ?thesis
      by (cases rule: path_shapes [of n p e i]) (use eq empty in \<open>auto intro: collision_cases\<close>)
  next
    case (one x)
    show ?thesis
      by (cases rule: path_shapes [of n p e i])
        (use eq one leaf_eq_cases in \<open>auto intro: collision_cases\<close>)
  next
    case (more l r)
    have xs: "set xs = set l \<union> set r" by (simp add: more(1))
    show ?thesis
    proof (cases rule: path_shapes [of n p e i])
      case leaf
      have "?coll"
      proof (rule leaf_node_collision)
        show "leaf e = node (Root l) (Root r)" using eq leaf(2) more(4) by simp
      qed (simp_all add: leaf(3) more(5))
      then show ?thesis ..
    next
      case left
      let ?p = "path_root e i (split n) (butlast p)"
      have "?p = Root l \<and> last p = Root r \<or> ?coll"
      proof (rule node_eq_cases)
        show "node ?p (last p) = node (Root l) (Root r)" using eq left(3) more(4) by simp
      qed (simp_all add: left(4) more(5))
      then show ?thesis
      proof
        assume "?p = Root l \<and> last p = Root r"
        then have "?p = Root l" by simp
        from 1(1) [OF left(1) refl left(2) this] show ?thesis
          by (rule collision_or_mono) (auto simp: xs left(4) more(5))
      qed simp
    next
      case right
      let ?p = "path_root e (i - split n) (n - split n) (butlast p)"
      have "last p = Root l \<and> ?p = Root r \<or> ?coll"
      proof (rule node_eq_cases)
        show "node (last p) ?p = node (Root l) (Root r)" using eq right(3) more(4) by simp
      qed (simp_all add: right(4) more(5))
      then show ?thesis
      proof
        assume "last p = Root l \<and> ?p = Root r"
        then have "?p = Root r" by simp
        from 1(2) [OF right(1) refl right(2) this] show ?thesis
          by (rule collision_or_mono) (auto simp: xs right(4) more(5))
      qed simp
    qed
  qed
qed

text \<open>For one index and size, the root determines the entry and the path.\<close>

lemma path_root_unique:
  "path_root e i n p = path_root e' i n p' \<Longrightarrow> length p = depth i n \<Longrightarrow> length p' = depth i n \<Longrightarrow>
   e = e' \<and> p = p' \<or> collision_between (set (path_inputs e i n p)) (set (path_inputs e' i n p'))"
proof (induction e i n p arbitrary: p' rule: path_root.induct)
  case (1 e i n p)
  note eq = 1(3)
  let ?coll = "collision_between (set (path_inputs e i n p)) (set (path_inputs e' i n p'))"
  show ?case
  proof (cases "unat n \<le> 1")
    case True
    then have nil: "p = []" "p' = []" using 1(4,5) by (simp_all add: depth.simps [of i n])
    then have "e = e' \<or> ?coll"
      by (intro leaf_eq_cases) (use eq in \<open>simp_all add: path_inputs.simps [of _ i n "[]"]\<close>)
    with nil show ?thesis by simp
  next
    case False
    define d where "d = (if i < split n then depth i (split n) else depth (i - split n) (n - split n))"
    have "depth i n = Suc d" using False by (simp add: depth.simps [of i n] d_def Let_def)
    then have len: "length p = Suc d" "length p' = Suc d" using 1(4,5) by simp_all
    then have ne: "\<not> (unat n \<le> 1 \<or> p = [])" "p \<noteq> []" "p' \<noteq> []" using False by auto
    have snoc: "p = p'" if "butlast p = butlast p'" "last p = last p'"
      using that ne by (metis append_butlast_last_id)
    show ?thesis
    proof (cases rule: path_shapes [of n p' e' i])
      case leaf
      then show ?thesis using False ne by simp
    next
      case left
      let ?q = "path_root e i (split n) (butlast p)" and ?q' = "path_root e' i (split n) (butlast p')"
      have inputs: "path_inputs e i n p = node_input ?q (last p) # path_inputs e i (split n) (butlast p)"
        and root: "path_root e i n p = node ?q (last p)"
        using ne left(2) by (simp_all add: path_inputs.simps [of e i n p] path_root.simps [of e i n p] Let_def)
      have "?q = ?q' \<and> last p = last p' \<or> ?coll"
        by (rule node_eq_cases) (use eq root left(3) in \<open>simp_all add: inputs left(4)\<close>)
      then show ?thesis
      proof
        assume a: "?q = ?q' \<and> last p = last p'"
        have "length (butlast p) = depth i (split n)" "length (butlast p') = depth i (split n)"
          using len left(2) by (simp_all add: d_def)
        from 1(1) [OF ne(1) refl left(2) conjunct1 [OF a] this] show ?thesis
          by (rule collision_or_mono) (use a snoc in \<open>auto simp: inputs left(4)\<close>)
      qed simp
    next
      case right
      let ?q = "path_root e (i - split n) (n - split n) (butlast p)"
        and ?q' = "path_root e' (i - split n) (n - split n) (butlast p')"
      have inputs: "path_inputs e i n p =
          node_input (last p) ?q # path_inputs e (i - split n) (n - split n) (butlast p)"
        and root: "path_root e i n p = node (last p) ?q"
        using ne right(2) by (simp_all add: path_inputs.simps [of e i n p] path_root.simps [of e i n p] Let_def)
      have "last p = last p' \<and> ?q = ?q' \<or> ?coll"
        by (rule node_eq_cases) (use eq root right(3) in \<open>simp_all add: inputs right(4)\<close>)
      then show ?thesis
      proof
        assume a: "last p = last p' \<and> ?q = ?q'"
        have "length (butlast p) = depth (i - split n) (n - split n)"
          "length (butlast p') = depth (i - split n) (n - split n)"
          using len right(2) by (simp_all add: d_def)
        from 1(2) [OF ne(1) refl right(2) conjunct2 [OF a] this] show ?thesis
          by (rule collision_or_mono) (use a snoc in \<open>auto simp: inputs right(4)\<close>)
      qed simp
    qed
  qed
qed

text \<open>The root determines the entries, their order and their number.\<close>

lemma Root_inject:
  "Root xs = Root ys \<Longrightarrow> xs = ys \<or> collision_between (set (root_inputs xs)) (set (root_inputs ys))"
proof (induction "length xs" arbitrary: xs ys rule: less_induct)
  case less
  let ?coll = "collision_between (set (root_inputs xs)) (set (root_inputs ys))"
  have "hd (root_inputs xs) = hd (root_inputs ys) \<or> ?coll"
    by (rule sha256_eq_cases) (use less(2) Root_hd in auto)
  then show ?case
  proof
    assume hd: "hd (root_inputs xs) = hd (root_inputs ys)"
    show ?thesis
    proof (cases rule: Root_shapes [of xs])
      case empty
      then show ?thesis by (cases rule: Root_shapes [of ys]) (use hd in simp_all)
    next
      case (one x)
      then show ?thesis by (cases rule: Root_shapes [of ys]) (use hd in simp_all)
    next
      case (more l r)
      note xs = more
      show ?thesis
      proof (cases rule: Root_shapes [of ys])
        case (more l' r')
        have eqs: "Root l = Root l'" "Root r = Root r'" using hd by (simp_all add: xs(5) more(5))
        have "l = l' \<or> ?coll"
          using less(1) [OF xs(2) eqs(1)] by (rule collision_or_mono) (auto simp: xs(5) more(5))
        moreover have "r = r' \<or> ?coll"
          using less(1) [OF xs(3) eqs(2)] by (rule collision_or_mono) (auto simp: xs(5) more(5))
        ultimately show ?thesis using xs(1) more(1) by blast
      qed (use hd xs(5) in simp_all)
    qed
  qed simp
qed

section \<open>The tree is a vector commitment\<close>

interpretation merkle: vector_commitment Root Path Verify
  "\<lambda>xs. set (root_inputs xs)" "\<lambda>e i n p. set (path_inputs e i n p)"
proof (unfold_locales, goal_cases)
  case (1 xs i)
  then have "unat (of_nat (length xs) :: u64) = length xs" by (simp add: unat_of_nat)
  with 1 have "i < of_nat (length xs)" by (simp add: word_less_nat_alt)
  with Path_exists [OF 1] show ?case by (auto simp: Verify_None_iff)
next
  case (2 xs i)
  then show ?case using Path_error by blast
next
  case (3 e i n p h)
  then show ?case by (simp add: Verify_None_iff)
next
  case (4 e i n p xs)
  then show ?case by (simp add: Verify_None_iff path_root_member)
next
  case (5 e i n p h e' p')
  then show ?case by (simp add: Verify_None_iff path_root_unique)
next
  case (6 xs ys)
  then show ?case by (rule Root_inject)
qed

section \<open>Properties\<close>



text \<open>
  C15. Whatever index and size a prover claims, \<open>Verify\<close> accepts a path against the root of a
  tree only for an entry of that tree, unless an input hashed by the verifier collides with one
  hashed for the tree: leaves cannot pass for inner nodes nor inner nodes for leaves.
\<close>

theorem merkle_verify_member:
  assumes "Verify entry index n path (Root entries) = None"
  shows "entry \<in> set entries \<or>
    collision_between (set (path_inputs entry index n path)) (set (root_inputs entries))"
  using assms by (rule merkle.check_member)

theorem merkle_verify_member_witness:
  "[7] \<in> set [[7 :: u8]] \<or>
    collision_between (set (path_inputs [7] 0 1 [])) (set (root_inputs [[7]]))"
proof (rule merkle_verify_member)
  show "Verify [7] 0 1 [] (Root [[7]]) = None"
    by (simp add: Verify_None_iff Root_1)
qed

text \<open>
  When the claimed size is the tree's size, \<open>Verify\<close> accepts at an index only the entry
  at that index with exactly the path that \<open>Path\<close> generates, up to a collision between an
  input of this verification and one of the honest verification.
\<close>

theorem merkle_verify_position:
  assumes "length entries < 2 ^ 63"
    and "Verify entry index (of_nat (length entries)) path (Root entries) = None"
  shows "\<exists>honest. Path entries index = Inr honest \<and>
    (entry = entries ! unat index \<and> path = honest \<or>
     collision_between (set (path_inputs entry index (of_nat (length entries)) path))
       (set (path_inputs (entries ! unat index) index (of_nat (length entries)) honest)))"
  using merkle.check_position [OF _ assms(2)] assms(1) by simp

theorem merkle_verify_position_witness:
  "\<exists>honest. Path [[7]] 0 = Inr honest \<and>
    ([7] = [[7 :: u8]] ! 0 \<and> [] = honest \<or>
     collision_between (set (path_inputs [7] 0 1 [])) (set (path_inputs [7] 0 1 honest)))"
  using merkle_verify_position [of "[[7]]" "[7]" 0 "[]"] by (simp add: Verify_None_iff Root_1)

text \<open>
  The root determines the whole ordered list of entries, its length included: two lists with
  the same root are equal, or two of the inputs hashed for them collide.
\<close>

theorem merkle_root_injective:
  assumes "Root xs = Root ys"
  shows "xs = ys \<or> collision_between (set (root_inputs xs)) (set (root_inputs ys))"
  using assms by (rule merkle.commit_inject)

theorem merkle_root_injective_witness:
  "[[1], [2 :: u8]] = [[1], [2]] \<or>
    collision_between (set (root_inputs [[1], [2]])) (set (root_inputs [[1], [2 :: u8]]))"
  by (rule merkle_root_injective) (rule refl)

text \<open>
  The outcome of \<open>Verify\<close> on every input, each error in the order in which the code
  reports it: bad size or index, more than 64 siblings, too few siblings, too many, wrong root.
\<close>

theorem merkle_verify_outcome:
  "Verify entry index n path root =
    (if n = 0 \<or> n \<le> index then Some (New ''invalid tree size or leaf index'')
     else if 64 < length path then Some (New ''path exceeds maximum depth'')
     else if length path < depth index n then Some (New ''truncated inclusion path'')
     else if depth index n < length path then Some (New ''extra inclusion path nodes'')
     else if path_root entry index n path \<noteq> root then Some (New ''inclusion root mismatch'')
     else None)"
  by (auto simp: Verify_def rebuild_eq not_le)

text \<open>
  \<open>split\<close> computes RFC 6962's split point: of the sizes from two on, the greatest power of
  two strictly below the size.
\<close>

theorem merkle_split_greatest:
  assumes "2 \<le> unat n"
  shows "(\<exists>m. unat (split n) = 2 ^ m) \<and> unat (split n) < unat n \<and>
    (\<forall>j. 2 ^ j < unat n \<longrightarrow> 2 ^ j \<le> unat (split n))"
proof (intro conjI allI impI)
  show "\<exists>m. unat (split n) = 2 ^ m" using unat_split by blast
  have n: "1 < unat n" using assms by simp
  show "unat (split n) < unat n" using split_bounds(2) [OF n] .
  fix j assume "2 ^ j < unat n"
  also have "unat n \<le> 2 * unat (split n)" by (rule split_bounds(3) [OF n])
  finally have "(2::nat) ^ j < 2 ^ Suc (len64 (n - 1) - 1)" by (simp add: unat_split)
  then have "j < Suc (len64 (n - 1) - 1)" by (rule power_less_imp_less_exp [rotated]) simp
  then show "2 ^ j \<le> unat (split n)" by (simp add: unat_split power_increasing)
qed

theorem merkle_split_greatest_witness:
  "unat (split 6) < 6 \<and> 4 \<le> unat (split 6)"
proof -
  have six: "2 \<le> unat (6 :: u64)" by simp
  from merkle_split_greatest [OF six] have "unat (split 6) < 6"
    and "2 ^ 2 < unat (6 :: u64) \<longrightarrow> 2 ^ 2 \<le> unat (split 6)" by (simp, blast)
  then show ?thesis by simp
qed

text \<open>
  The root does not authenticate the size: for an index in the left subtree, two sizes with
  the same split point accept exactly the same paths, with the same errors.
\<close>

theorem merkle_size_not_bound:
  assumes "split n = split m" and "index < split n" and "1 < unat n" and "1 < unat m"
  shows "Verify entry index n path root = Verify entry index m path root"
proof -
  have n: "index < n" "n \<noteq> 0" and m: "index < m" "m \<noteq> 0"
    using assms split_bounds(2) [OF assms(3)] split_bounds(2) [OF assms(4)]
    by (auto simp: word_less_nat_alt)
  have "depth index n = depth index m"
    using assms by (simp add: depth.simps [of index n] depth.simps [of index m])
  moreover have "path_root entry index n path = path_root entry index m path"
    using assms by (simp add: path_root.simps [of entry index n] path_root.simps [of entry index m])
  ultimately show ?thesis
    using n m by (simp add: Verify_def rebuild_eq not_le)
qed

theorem merkle_size_not_bound_witness:
  "Verify [7] 0 3 [] (sha256 []) = Verify [7] 0 4 [] (sha256 [])"
proof -
  have "split 3 = 2" "split 4 = 2" by (simp_all add: split_def len64_def bit_len.simps)
  then show ?thesis using merkle_size_not_bound [of 3 4 0 "[7]" "[]" "sha256 []"] by simp
qed

end
