(* ===== verification/Batch.thy ===== *)
theory Batch
  imports Commitment Merkle_Props
begin

text \<open>
  Package \<^verbatim>\<open>batch\<close> (\<^verbatim>\<open>pkg/proof/batch/manifest.go\<close>): the public manifest of a batch,
  its construction from ordered commitments (\<open>New_manifest\<close>), its exact 61-byte encoding
  (\<open>MarshalBinary_manifest\<close>, \<open>Parse_manifest\<close>), its content address (\<open>Digest_manifest\<close>)
  and the membership check (\<open>Verify_manifest\<close>). The lemmas show the strict format, which
  batches are accepted, that members of a batch verify and nothing else does, and that the
  manifest digest binds the whole ordered batch.
\<close>

section \<open>The manifest\<close>

definition Batch_Version :: u8 where "Batch_Version = 1"
definition RFC6962SHA256 :: u8 where "RFC6962SHA256 = 1"
definition MaxLeaves :: u64 where "MaxLeaves = push_bit 16 1"
definition EncodedSize :: nat where "EncodedSize = 61"

lemmas batch_consts = Batch_Version_def RFC6962SHA256_def EncodedSize_def

lemma unat_MaxLeaves [simp]: "unat MaxLeaves = 65536"
  by (simp add: MaxLeaves_def)

definition batch_domain :: bytes where
  "batch_domain = ascii ''sigmaproof:batch'' @ [0]"

lemma length_batch_domain [simp, bytes_simps]: "length batch_domain = 17"
  by (simp add: batch_domain_def)

record manifest =
  m_Version :: u8
  m_CommitmentVersion :: u8
  m_CommitmentAlgorithm :: u8
  m_TreeAlgorithm :: u8
  m_Size :: u64
  m_Root :: hash

lemma manifest_eta [simp]:
  "\<lparr>m_Version = m_Version m, m_CommitmentVersion = m_CommitmentVersion m,
    m_CommitmentAlgorithm = m_CommitmentAlgorithm m, m_TreeAlgorithm = m_TreeAlgorithm m,
    m_Size = m_Size m, m_Root = m_Root m\<rparr> = m"
  by (cases m) simp

section \<open>Operations\<close>

definition validate :: "manifest \<Rightarrow> go_error option" where
  "validate m =
     (if m_Version m \<noteq> Batch_Version then Some (New ''unsupported batch manifest version'')
      else if m_CommitmentVersion m \<noteq> Commit_Version
        then Some (New ''unsupported commitment profile'')
      else if m_CommitmentAlgorithm m \<noteq> Alg_SHA256
        then Some (New ''unsupported commitment algorithm'')
      else if m_TreeAlgorithm m \<noteq> RFC6962SHA256 then Some (New ''unsupported tree algorithm'')
      else if m_Size m = 0 \<or> MaxLeaves < m_Size m
        then Some (New ''batch size outside profile limits'')
      else None)"

definition New_manifest :: "b32 list \<Rightarrow> manifest result" where
  "New_manifest commitments =
     (let m = \<lparr>m_Version = Batch_Version, m_CommitmentVersion = Commit_Version,
               m_CommitmentAlgorithm = Alg_SHA256, m_TreeAlgorithm = RFC6962SHA256,
               m_Size = of_nat (length commitments), m_Root = b32_copy []\<rparr>
      in guardE (validate m) (Inr (m\<lparr>m_Root := Root (map b32_bytes commitments)\<rparr>)))"

definition MarshalBinary_manifest :: "manifest \<Rightarrow> bytes result" where
  "MarshalBinary_manifest m =
     guardE (validate m)
       (Inr (batch_domain
         @ [m_Version m, m_CommitmentVersion m, m_CommitmentAlgorithm m, m_TreeAlgorithm m]
         @ put_uint64 (m_Size m) @ b32_bytes (m_Root m)))"

definition Parse_manifest :: "bytes \<Rightarrow> manifest result" where
  "Parse_manifest data =
     (if length data \<noteq> EncodedSize then Inl (New ''invalid manifest length'')
      else if slice 0 17 data \<noteq> batch_domain then Inl (New ''invalid manifest domain'')
      else let m = \<lparr>m_Version = data ! 17, m_CommitmentVersion = data ! 18,
                    m_CommitmentAlgorithm = data ! 19, m_TreeAlgorithm = data ! 20,
                    m_Size = get_uint64 (slice 21 29 data),
                    m_Root = b32_copy (drop 29 data)\<rparr>
           in guardE (validate m) (Inr m))"

definition Digest_manifest :: "manifest \<Rightarrow> b32 result" where
  "Digest_manifest m = bindE (MarshalBinary_manifest m) (\<lambda>data. Inr (sha256 data))"

definition Verify_manifest :: "manifest \<Rightarrow> b32 \<Rightarrow> u64 \<Rightarrow> hash list \<Rightarrow> go_error option" where
  "Verify_manifest m c index path =
     (case validate m of
        Some err \<Rightarrow> Some err
      | None \<Rightarrow> Verify (b32_bytes c) index (m_Size m) path (m_Root m))"

section \<open>The manifest is a strict format of 61 bytes\<close>

definition manifest_bytes :: "manifest \<Rightarrow> bytes" where
  "manifest_bytes m = batch_domain
     @ [m_Version m, m_CommitmentVersion m, m_CommitmentAlgorithm m, m_TreeAlgorithm m]
     @ put_uint64 (m_Size m) @ b32_bytes (m_Root m)"

lemma validate_None:
  "validate m = None \<longleftrightarrow> m_Version m = 1 \<and> m_CommitmentVersion m = 1
     \<and> m_CommitmentAlgorithm m = 1 \<and> m_TreeAlgorithm m = 1
     \<and> 1 \<le> unat (m_Size m) \<and> unat (m_Size m) \<le> 65536"
proof -
  have "m_Size m = 0 \<longleftrightarrow> \<not> 1 \<le> unat (m_Size m)"
    by (metis less_one not_le unat_0 unat_eq_zero)
  moreover have "MaxLeaves < m_Size m \<longleftrightarrow> \<not> unat (m_Size m) \<le> 65536"
    by (simp add: word_less_nat_alt not_le)
  ultimately show ?thesis by (simp add: validate_def batch_consts commitment_consts)
qed

lemma MarshalBinary_manifest_eq_Inr [result_simps]:
  "MarshalBinary_manifest m = Inr bs \<longleftrightarrow> validate m = None \<and> bs = manifest_bytes m"
  by (auto simp: MarshalBinary_manifest_def manifest_bytes_def result_simps)

lemma Digest_manifest_eq_Inr [result_simps]:
  "Digest_manifest m = Inr h \<longleftrightarrow> validate m = None \<and> h = sha256 (manifest_bytes m)"
  by (auto simp: Digest_manifest_def result_simps)

lemma length_manifest_bytes [simp, bytes_simps]: "length (manifest_bytes m) = 61"
  by (simp add: manifest_bytes_def)

lemma Parse_manifest_bytes: "validate m = None \<Longrightarrow> Parse_manifest (manifest_bytes m) = Inr m"
proof -
  have parts: "slice 0 17 (manifest_bytes m) = batch_domain"
    "manifest_bytes m ! 17 = m_Version m" "manifest_bytes m ! 18 = m_CommitmentVersion m"
    "manifest_bytes m ! 19 = m_CommitmentAlgorithm m" "manifest_bytes m ! 20 = m_TreeAlgorithm m"
    "slice 21 29 (manifest_bytes m) = put_uint64 (m_Size m)"
    "drop 29 (manifest_bytes m) = b32_bytes (m_Root m)"
    by (simp_all add: manifest_bytes_def nth_append)
  then show "validate m = None \<Longrightarrow> ?thesis"
    by (simp add: Parse_manifest_def EncodedSize_def Let_def)
qed

lemma manifest_bytes_Parse:
  assumes "Parse_manifest bs = Inr m"
  shows "validate m = None \<and> manifest_bytes m = bs"
proof -
  have len: "length bs = 61" and dom: "slice 0 17 bs = batch_domain" and ok: "validate m = None"
    and m: "m_Version m = bs ! 17" "m_CommitmentVersion m = bs ! 18"
      "m_CommitmentAlgorithm m = bs ! 19" "m_TreeAlgorithm m = bs ! 20"
      "m_Size m = get_uint64 (slice 21 29 bs)" "m_Root m = b32_copy (drop 29 bs)"
    using assms
    by (auto simp: Parse_manifest_def EncodedSize_def result_simps Let_def split: if_splits)
  have one: "[bs ! 17, bs ! 18, bs ! 19, bs ! 20] =
      slice 17 18 bs @ slice 18 19 bs @ slice 19 20 bs @ slice 20 21 bs"
    using len slice_single [of 17 bs] slice_single [of 18 bs] slice_single [of 19 bs]
      slice_single [of 20 bs] by simp
  have rest: "drop 29 bs = slice 29 61 bs" using len by (simp add: slice_def)
  have "manifest_bytes m = slice 0 17 bs @ [bs ! 17, bs ! 18, bs ! 19, bs ! 20]
      @ slice 21 29 bs @ slice 29 61 bs"
    using len by (simp add: manifest_bytes_def m dom rest)
  also have "\<dots> = slice 0 61 bs"
    by (simp only: one append_assoc) (simp add: bytes_simps)
  finally show ?thesis using ok len by simp
qed

interpretation manifest: bounded_codec MarshalBinary_manifest Parse_manifest 61 61
  by unfold_locales
    (auto simp: MarshalBinary_manifest_eq_Inr Parse_manifest_bytes dest: manifest_bytes_Parse)

lemma manifest_bytes_inject:
  "validate m = None \<Longrightarrow> validate n = None \<Longrightarrow> manifest_bytes m = manifest_bytes n \<longleftrightarrow> m = n"
  by (metis Parse_manifest_bytes sum.inject(2))

section \<open>Batches\<close>

lemma map_b32_bytes_inject: "map b32_bytes xs = map b32_bytes ys \<longleftrightarrow> xs = ys"
  by (rule inj_map_eq_map) (simp add: inj_def b32_bytes_inject)


text \<open>Go slices are shorter than \<open>2 ^ 63\<close>, so their length is not cut by the conversion.\<close>

lemma New_manifest_eq_Inr:
  assumes "length cs < 2 ^ 63"
  shows "New_manifest cs = Inr m \<longleftrightarrow> 1 \<le> length cs \<and> length cs \<le> 65536 \<and> validate m = None
    \<and> m_Size m = of_nat (length cs) \<and> m_Root m = Root (map b32_bytes cs)"
proof -
  have "unat (of_nat (length cs) :: u64) = length cs" using assms by (simp add: unat_of_nat)
  then show ?thesis
    by (cases m) (auto simp: New_manifest_def Let_def result_simps validate_None batch_consts
        commitment_consts)
qed

definition manifest_of :: "b32 list \<Rightarrow> manifest" where
  "manifest_of cs = \<lparr>m_Version = 1, m_CommitmentVersion = 1, m_CommitmentAlgorithm = 1,
     m_TreeAlgorithm = 1, m_Size = of_nat (length cs), m_Root = Root (map b32_bytes cs)\<rparr>"

lemma validate_manifest_of:
  "1 \<le> length cs \<Longrightarrow> length cs \<le> 65536 \<Longrightarrow> validate (manifest_of cs) = None"
  by (simp add: manifest_of_def validate_None unat_of_nat)

lemma New_manifest_of:
  assumes "1 \<le> length cs" and "length cs \<le> 65536"
  shows "New_manifest cs = Inr (manifest_of cs)"
proof -
  have "length cs < 2 ^ 63" using assms(2) by simp
  then show ?thesis
    using assms New_manifest_eq_Inr [of cs] by (simp add: manifest_of_def validate_None unat_of_nat)
qed

lemma New_manifest_size:
  assumes "length cs < 2 ^ 63" and "New_manifest cs = Inr m"
  shows "unat (m_Size m) = length cs"
  using assms New_manifest_eq_Inr [OF assms(1)] by (simp add: unat_of_nat)

lemma New_manifest_error:
  assumes "length cs < 2 ^ 63" and "cs = [] \<or> 65536 < length cs"
  shows "New_manifest cs = Inl (New ''batch size outside profile limits'')"
proof -
  have "unat (of_nat (length cs) :: u64) = length cs" using assms by (simp add: unat_of_nat)
  then have "MaxLeaves < of_nat (length cs)" if "cs \<noteq> []"
    using assms(2) that by (simp add: word_less_nat_alt)
  then show ?thesis
    by (cases "cs = []")
      (simp_all add: New_manifest_def Let_def validate_def batch_consts commitment_consts)
qed

lemma Verify_manifest_None:
  "Verify_manifest m c i p = None \<longleftrightarrow>
    validate m = None \<and> Verify (b32_bytes c) i (m_Size m) p (m_Root m) = None"
  by (simp add: Verify_manifest_def split: option.splits)

text \<open>A manifest of a batch that verifies a member is a vector commitment to its entries.\<close>

lemma New_manifest_check:
  assumes "length cs < 2 ^ 63" and "New_manifest cs = Inr m"
  shows "Verify_manifest m c i p = None \<longleftrightarrow>
    Verify (b32_bytes c) i (of_nat (length (map b32_bytes cs))) p (Root (map b32_bytes cs)) = None"
  using assms(2) New_manifest_eq_Inr [OF assms(1)] by (simp add: Verify_manifest_None)

section \<open>Properties\<close>

text \<open>
  The manifest format is strict in both directions and 61 bytes wide: a manifest encodes to
  some bytes exactly when those bytes parse to this manifest.
\<close>

theorem manifest_format_strict:
  "(MarshalBinary_manifest m = Inr bs \<longleftrightarrow> Parse_manifest bs = Inr m) \<and>
   (Parse_manifest bs = Inr m \<longrightarrow> length bs = 61)"
  using manifest.dec_iff_enc [of bs m] manifest.dec_bounds [of bs m] by auto

theorem manifest_format_strict_witness:
  "\<exists>m bs. m_Size m = 65536 \<and> Parse_manifest bs = Inr m \<and> length bs = 61"
proof -
  let ?m = "\<lparr>m_Version = 1, m_CommitmentVersion = 1, m_CommitmentAlgorithm = 1,
    m_TreeAlgorithm = 1, m_Size = 65536, m_Root = b32_copy [5]\<rparr>"
  have "MarshalBinary_manifest ?m = Inr (manifest_bytes ?m)"
    by (simp add: MarshalBinary_manifest_eq_Inr validate_None)
  then have "Parse_manifest (manifest_bytes ?m) = Inr ?m \<and> length (manifest_bytes ?m) = 61"
    using manifest_format_strict [of ?m "manifest_bytes ?m"] by simp
  then show ?thesis by (intro exI [of _ ?m] exI [of _ "manifest_bytes ?m"]) simp
qed

text \<open>
  A manifest is built for exactly the batches of 1 to 65536 commitments; it records the
  number of commitments and the root of their bytes in the given order, and every other batch is
  refused with the size error.
\<close>

theorem manifest_built_iff:
  assumes "length commitments < 2 ^ 63"
  shows "New_manifest commitments =
    (if 1 \<le> length commitments \<and> length commitments \<le> 65536
     then Inr \<lparr>m_Version = 1, m_CommitmentVersion = 1, m_CommitmentAlgorithm = 1,
       m_TreeAlgorithm = 1, m_Size = of_nat (length commitments),
       m_Root = Root (map b32_bytes commitments)\<rparr>
     else Inl (New ''batch size outside profile limits''))"
proof (cases "1 \<le> length commitments \<and> length commitments \<le> 65536")
  case True
  then show ?thesis using New_manifest_of [of commitments] by (simp add: manifest_of_def)
next
  case False
  then have "commitments = [] \<or> 65536 < length commitments" by (cases commitments) auto
  from New_manifest_error [OF assms this] False show ?thesis by simp
qed

theorem manifest_built_iff_witness:
  "New_manifest [b32_copy [1]] = Inr \<lparr>m_Version = 1, m_CommitmentVersion = 1,
     m_CommitmentAlgorithm = 1, m_TreeAlgorithm = 1, m_Size = 1,
     m_Root = Root [b32_bytes (b32_copy [1])]\<rparr> \<and>
   New_manifest [] = Inl (New ''batch size outside profile limits'')"
  using manifest_built_iff [of "[b32_copy [1]]"] manifest_built_iff [of "[]"] by simp

text \<open>
  Relative to the manifest of a batch, every member verifies at its own index with the path
  generated for it, and whatever verifies at an index is the member at that index with that very
  path, up to a collision.
\<close>

theorem manifest_membership:
  assumes "length cs < 2 ^ 63" and "New_manifest cs = Inr m"
  shows "(unat i < length cs \<longrightarrow> (\<exists>p. Path (map b32_bytes cs) i = Inr p \<and>
      Verify_manifest m (cs ! unat i) i p = None)) \<and>
    (Verify_manifest m c i p = None \<longrightarrow> unat i < length cs \<and>
      (\<exists>q. Path (map b32_bytes cs) i = Inr q \<and>
        (c = cs ! unat i \<and> p = q \<or>
         collision_between (set (path_inputs (b32_bytes c) i (m_Size m) p))
           (set (path_inputs (b32_bytes (cs ! unat i)) i (m_Size m) q)))))"
proof (intro conjI impI)
  let ?xs = "map b32_bytes cs"
  have len: "length ?xs < 2 ^ 64" using assms(1) by simp
  note check = New_manifest_check [OF assms]
  show "\<exists>p. Path ?xs i = Inr p \<and> Verify_manifest m (cs ! unat i) i p = None" if "unat i < length cs"
    using merkle.open_checks [OF len, of i] that by (simp add: check)
  assume "Verify_manifest m c i p = None"
  then have ok: "Verify (b32_bytes c) i (of_nat (length ?xs)) p (Root ?xs) = None"
    by (simp only: check)
  then obtain q where q: "Path ?xs i = Inr q"
    "b32_bytes c = ?xs ! unat i \<and> p = q \<or>
     collision_between (set (path_inputs (b32_bytes c) i (of_nat (length ?xs)) p))
       (set (path_inputs (?xs ! unat i) i (of_nat (length ?xs)) q))"
    using merkle.check_position [OF len ok] by blast
  show i: "unat i < length cs" using merkle.open_at_checks(1) [OF len q(1)] by simp
  have "m_Size m = of_nat (length ?xs)" using assms(2) New_manifest_eq_Inr [OF assms(1)] by simp
  with q i show "\<exists>q. Path ?xs i = Inr q \<and> (c = cs ! unat i \<and> p = q \<or>
         collision_between (set (path_inputs (b32_bytes c) i (m_Size m) p))
           (set (path_inputs (b32_bytes (cs ! unat i)) i (m_Size m) q)))"
    by (auto simp: b32_bytes_inject)
qed

theorem manifest_membership_witness:
  "\<exists>m p. New_manifest [b32_copy [1], b32_copy [2]] = Inr m \<and>
    Verify_manifest m (b32_copy [2]) 1 p = None"
proof -
  let ?cs = "[b32_copy [1], b32_copy [2]]"
  have m: "New_manifest ?cs = Inr (manifest_of ?cs)" by (rule New_manifest_of) simp_all
  show ?thesis using manifest_membership [OF _ m, of 1] m by auto
qed

text \<open>
  The digest of a manifest binds the whole batch, its order and its size included (a root
  alone does not bind the size): two batches whose manifests have the same digest are equal, or
  two of the inputs hashed for the digests and the trees collide.
\<close>

theorem manifest_digest_binds_batch:
  assumes "length cs < 2 ^ 63" and "length ds < 2 ^ 63"
    and "New_manifest cs = Inr m" and "New_manifest ds = Inr n"
    and "Digest_manifest m = Inr h" and "Digest_manifest n = Inr h"
  shows "cs = ds \<or>
    collision_between (insert (manifest_bytes m) (set (root_inputs (map b32_bytes cs))))
      (insert (manifest_bytes n) (set (root_inputs (map b32_bytes ds))))"
proof -
  let ?coll = "collision_between (insert (manifest_bytes m) (set (root_inputs (map b32_bytes cs))))
      (insert (manifest_bytes n) (set (root_inputs (map b32_bytes ds))))"
  have m: "validate m = None" "m_Root m = Root (map b32_bytes cs)"
    and n: "validate n = None" "m_Root n = Root (map b32_bytes ds)"
    using assms New_manifest_eq_Inr by auto
  have "manifest_bytes m = manifest_bytes n \<or> ?coll"
    by (rule sha256_eq_cases) (use assms(5,6) in \<open>auto simp: Digest_manifest_def result_simps\<close>)
  then show ?thesis
  proof
    assume "manifest_bytes m = manifest_bytes n"
    then have "Root (map b32_bytes cs) = Root (map b32_bytes ds)"
      using m n manifest_bytes_inject by metis
    from merkle.commit_inject [OF this] show ?thesis
      by (rule collision_or_mono) (auto simp: map_b32_bytes_inject)
  qed simp
qed

theorem manifest_digest_binds_batch_witness:
  "\<exists>m. New_manifest [b32_copy [1]] = Inr m \<and>
    ([b32_copy [1]] = [b32_copy [1]] \<or>
     collision_between (insert (manifest_bytes m) (set (root_inputs (map b32_bytes [b32_copy [1]]))))
       (insert (manifest_bytes m) (set (root_inputs (map b32_bytes [b32_copy [1]])))))"
proof -
  let ?cs = "[b32_copy [1]]"
  have m: "New_manifest ?cs = Inr (manifest_of ?cs)" by (rule New_manifest_of) simp_all
  have d: "Digest_manifest (manifest_of ?cs) = Inr (sha256 (manifest_bytes (manifest_of ?cs)))"
    by (simp add: Digest_manifest_eq_Inr validate_manifest_of)
  show ?thesis using manifest_digest_binds_batch [OF _ _ m m d d] m by simp
qed

end
