(* ===== verification/Storage_Records.thy ===== *)
theory Storage_Records
  imports Go_Json_Values Batch
begin

text \<open>
  The records of package \<^verbatim>\<open>storage\<close> (\<^verbatim>\<open>internal/storage/store.go\<close>) and their stored
  form: sources, evidence and frozen batches with the JSON members of their exported fields, the
  input checks, and the keys of the indexes. The lemmas show that a valid record is read back
  from what is written, that a written record stays below the read limit, and that index keys
  identify what they stand for.
\<close>

section \<open>Constants and records\<close>

definition MaxBatchEntries :: int where "MaxBatchEntries = 1024"
definition maxRecordBytes :: nat where "maxRecordBytes = 128 * 1024"

definition SubmissionNotSubmitted :: gostring where
  "SubmissionNotSubmitted = ascii ''not_submitted''"
definition SubmissionUnknown :: gostring where
  "SubmissionUnknown = ascii ''unknown''"
definition SubmissionSubmitted :: gostring where
  "SubmissionSubmitted = ascii ''submitted''"

record source =
  s_Instance :: gostring
  s_Object :: gostring
  s_Version :: gostring

record evidence =
  e_ID :: gostring
  e_Sequence :: u64
  e_Source :: source
  e_Witness :: witness
  e_BatchID :: gostring
  e_Index :: u64

record frozen_batch =
  f_ID :: gostring
  f_Limit :: int
  f_EvidenceIDs :: "gostring list"
  f_Manifest :: bytes
  f_SubmissionState :: gostring
  f_SubmissionRef :: gostring

record submission =
  o_BatchID :: gostring
  o_Manifest :: bytes
  o_State :: gostring
  o_Ref :: gostring

section \<open>Checks and keys\<close>

definition validText :: "gostring \<Rightarrow> bool" where
  "validText value \<longleftrightarrow> 0 < length value \<and> length value \<le> 256 \<and> utf8_valid value \<and> 0 \<notin> set value"

definition validID :: "gostring \<Rightarrow> bool" where
  "validID ident \<longleftrightarrow> length ident = 32 \<and> hex_decode ident \<noteq> None"

definition validSource :: "source \<Rightarrow> bool" where
  "validSource s \<longleftrightarrow> validText (s_Instance s) \<and> validText (s_Object s) \<and> validText (s_Version s)"

definition validSubmissionState :: "gostring \<Rightarrow> bool" where
  "validSubmissionState state \<longleftrightarrow>
     state = SubmissionNotSubmitted \<or> state = SubmissionUnknown \<or> state = SubmissionSubmitted"

definition sequenceKey :: "u64 \<Rightarrow> bytes" where
  "sequenceKey n = put_uint64 n"

section \<open>Stored forms\<close>

definition source_json :: "source \<Rightarrow> json" where
  "source_json s = JObject
     [(ascii ''Instance'', JString (s_Instance s)), (ascii ''Object'', JString (s_Object s)),
      (ascii ''Version'', JString (s_Version s))]"

definition witness_json :: "witness \<Rightarrow> json" where
  "witness_json w = JObject
     [(ascii ''Version'', uint_json (w_Version w)), (ascii ''Algorithm'', uint_json (w_Algorithm w)),
      (ascii ''Representation'', uint_json (w_Representation w)),
      (ascii ''Metadata'', uint_json (w_Metadata w)),
      (ascii ''DocumentDigest'', array_json (w_DocumentDigest w)),
      (ascii ''Nonce'', array_json (w_Nonce w))]"

definition evidence_json :: "evidence \<Rightarrow> json" where
  "evidence_json e = JObject
     [(ascii ''ID'', JString (e_ID e)), (ascii ''Sequence'', uint_json (e_Sequence e)),
      (ascii ''Source'', source_json (e_Source e)), (ascii ''Witness'', witness_json (e_Witness e)),
      (ascii ''BatchID'', JString (e_BatchID e)), (ascii ''Index'', uint_json (e_Index e))]"

definition batch_json :: "frozen_batch \<Rightarrow> json" where
  "batch_json b = JObject
     [(ascii ''ID'', JString (f_ID b)), (ascii ''Limit'', int_json (f_Limit b)),
      (ascii ''EvidenceIDs'', strings_json (f_EvidenceIDs b)),
      (ascii ''Manifest'', bytes_json (f_Manifest b)),
      (ascii ''SubmissionState'', JString (f_SubmissionState b)),
      (ascii ''SubmissionRef'', JString (f_SubmissionRef b))]"

text \<open>\<^verbatim>\<open>json.Marshal\<close> of the two kinds of records, and of the anonymous struct of a source key.\<close>

definition marshal_evidence :: "evidence \<Rightarrow> bytes" where
  "marshal_evidence e = json_text (evidence_json e)"

definition marshal_batch :: "frozen_batch \<Rightarrow> bytes" where
  "marshal_batch b = json_text (batch_json b)"

definition sourceKey :: "source \<Rightarrow> u8 \<Rightarrow> bytes" where
  "sourceKey s rep = json_text (JObject
     [(ascii ''Source'', source_json s), (ascii ''Representation'', uint_json rep)])"

definition source_fields :: "source field_decoder list" where
  "source_fields =
     [(ascii ''Instance'', \<lambda>x j. map_option (\<lambda>v. x\<lparr>s_Instance := v\<rparr>) (dec_string (s_Instance x) j)),
      (ascii ''Object'', \<lambda>x j. map_option (\<lambda>v. x\<lparr>s_Object := v\<rparr>) (dec_string (s_Object x) j)),
      (ascii ''Version'', \<lambda>x j. map_option (\<lambda>v. x\<lparr>s_Version := v\<rparr>) (dec_string (s_Version x) j))]"

definition witness_fields :: "witness field_decoder list" where
  "witness_fields =
     [(ascii ''Version'', \<lambda>x j. map_option (\<lambda>v. x\<lparr>w_Version := v\<rparr>) (dec_uint (w_Version x) j)),
      (ascii ''Algorithm'', \<lambda>x j. map_option (\<lambda>v. x\<lparr>w_Algorithm := v\<rparr>) (dec_uint (w_Algorithm x) j)),
      (ascii ''Representation'',
        \<lambda>x j. map_option (\<lambda>v. x\<lparr>w_Representation := v\<rparr>) (dec_uint (w_Representation x) j)),
      (ascii ''Metadata'', \<lambda>x j. map_option (\<lambda>v. x\<lparr>w_Metadata := v\<rparr>) (dec_uint (w_Metadata x) j)),
      (ascii ''DocumentDigest'',
        \<lambda>x j. map_option (\<lambda>v. x\<lparr>w_DocumentDigest := v\<rparr>) (dec_array (w_DocumentDigest x) j)),
      (ascii ''Nonce'', \<lambda>x j. map_option (\<lambda>v. x\<lparr>w_Nonce := v\<rparr>) (dec_array (w_Nonce x) j))]"

definition evidence_fields :: "evidence field_decoder list" where
  "evidence_fields =
     [(ascii ''ID'', \<lambda>x j. map_option (\<lambda>v. x\<lparr>e_ID := v\<rparr>) (dec_string (e_ID x) j)),
      (ascii ''Sequence'', \<lambda>x j. map_option (\<lambda>v. x\<lparr>e_Sequence := v\<rparr>) (dec_uint (e_Sequence x) j)),
      (ascii ''Source'',
        \<lambda>x j. map_option (\<lambda>v. x\<lparr>e_Source := v\<rparr>) (dec_struct source_fields (e_Source x) j)),
      (ascii ''Witness'',
        \<lambda>x j. map_option (\<lambda>v. x\<lparr>e_Witness := v\<rparr>) (dec_struct witness_fields (e_Witness x) j)),
      (ascii ''BatchID'', \<lambda>x j. map_option (\<lambda>v. x\<lparr>e_BatchID := v\<rparr>) (dec_string (e_BatchID x) j)),
      (ascii ''Index'', \<lambda>x j. map_option (\<lambda>v. x\<lparr>e_Index := v\<rparr>) (dec_uint (e_Index x) j))]"

definition batch_fields :: "frozen_batch field_decoder list" where
  "batch_fields =
     [(ascii ''ID'', \<lambda>x j. map_option (\<lambda>v. x\<lparr>f_ID := v\<rparr>) (dec_string (f_ID x) j)),
      (ascii ''Limit'', \<lambda>x j. map_option (\<lambda>v. x\<lparr>f_Limit := v\<rparr>) (dec_int (f_Limit x) j)),
      (ascii ''EvidenceIDs'', \<lambda>x j. map_option (\<lambda>v. x\<lparr>f_EvidenceIDs := v\<rparr>) (dec_strings j)),
      (ascii ''Manifest'', \<lambda>x j. map_option (\<lambda>v. x\<lparr>f_Manifest := v\<rparr>) (dec_bytes j)),
      (ascii ''SubmissionState'',
        \<lambda>x j. map_option (\<lambda>v. x\<lparr>f_SubmissionState := v\<rparr>) (dec_string (f_SubmissionState x) j)),
      (ascii ''SubmissionRef'',
        \<lambda>x j. map_option (\<lambda>v. x\<lparr>f_SubmissionRef := v\<rparr>) (dec_string (f_SubmissionRef x) j))]"

text \<open>The zero values, from which \<^verbatim>\<open>Unmarshal\<close> starts.\<close>

definition zero_source :: source where
  "zero_source = \<lparr>s_Instance = [], s_Object = [], s_Version = []\<rparr>"

definition zero_witness :: witness where
  "zero_witness = \<lparr>w_Version = 0, w_Algorithm = 0, w_Representation = 0, w_Metadata = 0,
     w_DocumentDigest = b32_copy [], w_Nonce = b32_copy []\<rparr>"

definition zero_evidence :: evidence where
  "zero_evidence = \<lparr>e_ID = [], e_Sequence = 0, e_Source = zero_source, e_Witness = zero_witness,
     e_BatchID = [], e_Index = 0\<rparr>"

definition zero_batch :: frozen_batch where
  "zero_batch = \<lparr>f_ID = [], f_Limit = 0, f_EvidenceIDs = [], f_Manifest = [],
     f_SubmissionState = [], f_SubmissionRef = []\<rparr>"

definition unmarshal_evidence :: "bytes \<Rightarrow> evidence option" where
  "unmarshal_evidence s = Option.bind (json_parse s) (dec_struct evidence_fields zero_evidence)"

definition unmarshal_batch :: "bytes \<Rightarrow> frozen_batch option" where
  "unmarshal_batch s = Option.bind (json_parse s) (dec_struct batch_fields zero_batch)"

text \<open>\<^verbatim>\<open>decode\<close> for the two targets: absent, oversized and malformed records are errors.\<close>

definition decode :: "(bytes \<Rightarrow> 'a option) \<Rightarrow> bytes option \<Rightarrow> 'a result" where
  "decode unmarshal data =
     (case data of
        None \<Rightarrow> Inl (Sent ErrNotFound)
      | Some bs \<Rightarrow>
          if maxRecordBytes < length bs then Inl (Sent ErrCorrupt)
          else case unmarshal bs of None \<Rightarrow> Inl (Sent ErrCorrupt) | Some x \<Rightarrow> Inr x)"

section \<open>Sizes of the texts\<close>

lemma length_escape: "length (escape s) \<le> 6 * length s"
proof (induction s rule: escape.induct)
  case (2 c cs)
  have esc: "length (escape_ascii c) \<le> 6" by (simp add: escape_ascii_def)
  let ?n = "rune_len (c # cs)"
  have rune: "length (escape_rune (take ?n (c # cs))) \<le> 6 * ?n" if "0 < ?n"
    using that rune_len_le [of "c # cs"] by (simp add: escape_rune_def del: rune_len.simps)
  have "?n \<le> Suc (length cs)" using rune_len_le [of "c # cs"] by simp
  then have "6 * ?n + 6 * (Suc (length cs) - ?n) = 6 + 6 * length cs" by simp
  with 2 esc rune show ?case
    by (fastforce simp: escape.simps(2) [of c cs] Let_def simp del: rune_len.simps)
qed simp

lemma length_quote: "length (quote s) \<le> 2 + 6 * length s"
  using length_escape [of s] by (simp add: quote_def)

lemma length_commas: "length (commas xs) \<le> (\<Sum>x\<leftarrow>xs. length x + 1)"
  by (induction xs rule: commas.induct) simp_all

lemma length_commas_le: "\<forall>x \<in> set xs. length x \<le> k \<Longrightarrow> length (commas xs) \<le> length xs * (k + 1)"
  using length_commas [of xs] sum_list_mono [of xs "\<lambda>x. length x + 1" "\<lambda>_. k + 1"]
  by (simp add: sum_list_const_mult sum_list_triv)

lemma length_uint:
  fixes w :: "'a::len word"
  assumes "2 ^ LENGTH('a) \<le> (10 :: nat) ^ k" and "0 < k"
  shows "length (json_text (uint_json w)) \<le> k"
proof -
  have "unat w < 10 ^ k"
    using unsigned_less [of w, where ?'a = nat] assms(1) by (rule less_le_trans)
  then show ?thesis using assms(2) by (simp add: uint_json_def length_decimal)
qed

lemma length_array: "length (json_text (array_json a)) \<le> 130"
proof -
  have "length (commas (map json_text (map uint_json (b32_bytes a)))) \<le> 32 * (3 + 1)"
    using length_commas_le [of "map json_text (map uint_json (b32_bytes a))" 3] length_uint [where ?'a = 8 and k = 3]
    by auto
  then show ?thesis by (simp add: array_json_def)
qed

text \<open>Hexadecimal text is written as it is.\<close>

lemma hex_value_ascii:
  assumes "hex_value c = Some v"
  shows "c \<le> 0x7F \<and> escape_ascii c = [c] \<and> c \<noteq> 0"
proof -
  have "unat c < 128 \<and> unat c \<ge> 48 \<and> c \<noteq> 60 \<and> c \<noteq> 62 \<and> c \<noteq> 92"
    using assms by (auto simp: hex_value_def word_le_nat_alt split: if_splits)
  moreover from this have "\<not> c < 32" by (simp add: word_less_nat_alt)
  ultimately show ?thesis
    by (auto simp: escape_ascii_def word_le_nat_alt)
qed

lemma hex_decode_ascii: "hex_decode s = Some bs \<Longrightarrow> (\<forall>c \<in> set s. c \<le> 0x7F \<and> c \<noteq> 0) \<and> escape s = s"
  by (induction s arbitrary: bs rule: hex_decode.induct)
    (auto simp: escape.simps(2) dest!: hex_value_ascii split: option.splits)

section \<open>Records are read back\<close>

lemma ascii_utf8: "list_all (\<lambda>c. (of_char c :: u8) \<le> 0x7F) s \<Longrightarrow> utf8_valid (ascii s)"
  by (rule utf8_valid_ascii) (auto simp: ascii_def list_all_iff)

lemma uint_json_ok [simp]: "json_ok d (uint_json w)"
  by (simp add: uint_json_def)

lemma array_json_ok [simp]: "0 < d \<Longrightarrow> json_ok d (array_json a)"
  by (simp add: array_json_def)

lemma strings_json_ok [simp]: "0 < d \<Longrightarrow> \<forall>s \<in> set xs. utf8_valid s \<Longrightarrow> json_ok d (strings_json xs)"
  by (simp add: strings_json_def)

lemma bytes_json_ok [simp]: "json_ok d (bytes_json bs)"
  using b64_encode_ascii [of bs] by (simp add: bytes_json_def utf8_valid_ascii)

definition utf8_source :: "source \<Rightarrow> bool" where
  "utf8_source s \<longleftrightarrow> utf8_valid (s_Instance s) \<and> utf8_valid (s_Object s) \<and> utf8_valid (s_Version s)"

lemma source_json_ok: "utf8_source s \<Longrightarrow> 0 < d \<Longrightarrow> json_ok d (source_json s)"
  by (simp add: source_json_def utf8_source_def ascii_utf8)

lemma dec_struct_JObject [simp]: "dec_struct fds x (JObject ms) = dec_members fds x ms"
  by (simp add: dec_struct_def)

lemma dec_source: "dec_struct source_fields x (source_json s) = Some s"
  by (simp add: source_fields_def source_json_def fold_name.simps(2))

lemma witness_json_ok: "1 < d \<Longrightarrow> json_ok d (witness_json w)"
  by (simp add: witness_json_def ascii_utf8)

lemma dec_witness: "dec_struct witness_fields x (witness_json w) = Some w"
  by (simp add: witness_fields_def witness_json_def fold_name.simps(2))

lemma unmarshal_marshal_evidence:
  assumes "utf8_valid (e_ID e)" "utf8_source (e_Source e)" "utf8_valid (e_BatchID e)"
  shows "unmarshal_evidence (marshal_evidence e) = Some e"
proof -
  have "json_ok max_nesting (evidence_json e)"
    using assms by (simp add: evidence_json_def max_nesting_def source_json_ok witness_json_ok ascii_utf8)
  then show ?thesis
    by (simp add: unmarshal_evidence_def marshal_evidence_def json_parse_text)
      (simp add: evidence_json_def evidence_fields_def dec_source dec_witness fold_name.simps(2))
qed

lemma unmarshal_marshal_batch:
  assumes "utf8_valid (f_ID b)" "\<forall>i \<in> set (f_EvidenceIDs b). utf8_valid i" "0 \<le> f_Limit b"
    "f_Limit b < 2 ^ 63" "utf8_valid (f_SubmissionState b)" "utf8_valid (f_SubmissionRef b)"
  shows "unmarshal_batch (marshal_batch b) = Some b"
proof -
  have "json_ok max_nesting (batch_json b)"
    using assms by (simp add: batch_json_def max_nesting_def ascii_utf8 int_json_def)
  then show ?thesis using assms
    by (simp add: unmarshal_batch_def marshal_batch_def json_parse_text)
      (simp add: batch_json_def batch_fields_def dec_int_json fold_name.simps(2))
qed


lemma json_text_inject:
  assumes "json_ok max_nesting j" "json_ok max_nesting k" "json_text j = json_text k"
  shows "j = k"
  using json_parse_text [OF assms(1)] json_parse_text [OF assms(2)] unfolding assms(3)
  by (metis option.inject)

lemma sourceKey_inject:
  assumes "utf8_source s" "utf8_source t" "sourceKey s r = sourceKey t q"
  shows "s = t \<and> r = q"
proof -
  let ?j = "\<lambda>s r. JObject [(ascii ''Source'', source_json s), (ascii ''Representation'', uint_json r)]"
  have "json_ok max_nesting (?j s r)" "json_ok max_nesting (?j t q)"
    using assms(1,2) by (simp_all add: source_json_ok max_nesting_def)
  then have "?j s r = ?j t q"
    using assms(3) unfolding sourceKey_def by (rule json_text_inject)
  then have "source_json s = source_json t" "uint_json r = uint_json q" by simp_all
  then show ?thesis
    by (metis dec_source dec_uint_json option.inject)
qed

lemma length_sourceKey_le:
  "length (json_text (source_json s)) \<le> 6000 \<Longrightarrow> length (sourceKey s rep) \<le> 7000"
  using length_quote [of "ascii ''Source''"] length_quote [of "ascii ''Representation''"]
    length_uint [where ?'a = 8 and k = 3, of rep]
  by (simp add: sourceKey_def uint_json_def del: ascii_Cons)

lemma sourceKey_neq_Nil [simp]: "sourceKey s rep \<noteq> []"
  by (simp add: sourceKey_def)

section \<open>Valid records\<close>

lemma validText_utf8: "validText s \<Longrightarrow> utf8_valid s"
  by (simp add: validText_def)

lemma validText_length: "validText s \<Longrightarrow> length s \<le> 256"
  by (simp add: validText_def)

lemma validSource_utf8: "validSource s \<Longrightarrow> utf8_source s"
  by (simp add: validSource_def utf8_source_def validText_utf8)

lemma validID_text:
  assumes "validID i"
  shows "utf8_valid i" "escape i = i" "length i = 32" "0 \<notin> set i" "i \<noteq> []"
proof -
  obtain bs where bs: "hex_decode i = Some bs" using assms by (auto simp: validID_def)
  from hex_decode_ascii [OF bs] assms show "utf8_valid i" "escape i = i" "length i = 32" "0 \<notin> set i"
    "i \<noteq> []"
    by (auto simp: validID_def intro: utf8_valid_ascii)
qed

lemma validID_hex: "length raw = 16 \<Longrightarrow> validID (hex_encode raw)"
  by (simp add: validID_def)

text \<open>The evidence and the batches that the operations store, and the limits of their texts.\<close>

definition good_evidence :: "evidence \<Rightarrow> bool" where
  "good_evidence e \<longleftrightarrow> validID (e_ID e) \<and> e_Sequence e \<noteq> 0 \<and> validSource (e_Source e)
     \<and> supported (e_Witness e) \<and> (e_BatchID e = [] \<or> validID (e_BatchID e))"

definition good_batch :: "frozen_batch \<Rightarrow> bool" where
  "good_batch b \<longleftrightarrow> validID (f_ID b) \<and> 1 \<le> f_Limit b \<and> f_Limit b \<le> MaxBatchEntries
     \<and> int (length (f_EvidenceIDs b)) \<le> f_Limit b \<and> (\<forall>i \<in> set (f_EvidenceIDs b). validID i)
     \<and> (\<exists>m. Parse_manifest (f_Manifest b) = Inr m \<and> of_nat (length (f_EvidenceIDs b)) = m_Size m)
     \<and> validSubmissionState (f_SubmissionState b)
     \<and> (f_SubmissionRef b = [] \<or> validText (f_SubmissionRef b))"

lemma validSubmissionState_text:
  "validSubmissionState s \<Longrightarrow> utf8_valid s \<and> length s \<le> 13 \<and> s \<noteq> []"
  by (auto simp: validSubmissionState_def SubmissionNotSubmitted_def SubmissionUnknown_def
      SubmissionSubmitted_def)

lemma good_evidence_utf8:
  "good_evidence e \<Longrightarrow> utf8_valid (e_ID e) \<and> utf8_source (e_Source e) \<and> utf8_valid (e_BatchID e)"
  by (auto simp: good_evidence_def validID_text validSource_utf8)

lemma length_source_json:
  assumes "validSource s"
  shows "length (json_text (source_json s)) \<le> 6000"
proof -
  have q: "length (quote x) \<le> 1538" if "validText x" for x
    using length_quote [of x] validText_length [OF that] by simp
  have k: "length (quote (ascii x)) \<le> 2 + 6 * length x" for x
    using length_quote [of "ascii x"] by simp
  show ?thesis
    using assms q [of "s_Instance s"] q [of "s_Object s"] q [of "s_Version s"] k [of "''Instance''"]
      k [of "''Object''"] k [of "''Version''"]
    by (simp add: source_json_def validSource_def del: ascii_Cons)
qed

lemma length_marshal_evidence: "good_evidence e \<Longrightarrow> length (marshal_evidence e) \<le> maxRecordBytes"
proof -
  assume good: "good_evidence e"
  have u8: "length (decimal (unat w)) \<le> 3" for w :: u8
    using length_uint [where ?'a = 8 and k = 3, of w] by (simp add: uint_json_def)
  have u64: "length (decimal (unat w)) \<le> 20" for w :: u64
    using length_uint [where ?'a = 64 and k = 20, of w] by (simp add: uint_json_def)
  have id: "length (e_ID e) \<le> 256" "length (e_BatchID e) \<le> 256"
    using good by (auto simp: good_evidence_def dest: validID_text)
  have q: "length (quote s) \<le> 1538" if "length s \<le> 256" for s
    using length_quote [of s] that by simp
  have k: "length (quote (ascii s)) \<le> 2 + 6 * length s" for s
    using length_quote [of "ascii s"] by simp
  let ?w = "e_Witness e" and ?s = "e_Source e"
  have "length (json_text (source_json ?s)) \<le> 6000"
    using good by (simp add: good_evidence_def length_source_json)
  moreover have "length (json_text (witness_json ?w)) \<le> 2000"
    using u8 [of "w_Version ?w"] u8 [of "w_Algorithm ?w"] u8 [of "w_Representation ?w"]
      u8 [of "w_Metadata ?w"] length_array [of "w_DocumentDigest ?w"] length_array [of "w_Nonce ?w"]
      k [of "''Version''"] k [of "''Algorithm''"] k [of "''Representation''"] k [of "''Metadata''"]
      k [of "''DocumentDigest''"] k [of "''Nonce''"]
    by (simp add: witness_json_def uint_json_def del: ascii_Cons)
  ultimately show ?thesis
    using q [OF id(1)] q [OF id(2)] u64 [of "e_Sequence e"] u64 [of "e_Index e"]
      k [of "''ID''"] k [of "''Sequence''"] k [of "''Source''"] k [of "''Witness''"]
      k [of "''BatchID''"] k [of "''Index''"]
    by (simp add: marshal_evidence_def evidence_json_def uint_json_def maxRecordBytes_def del: ascii_Cons)
qed

lemma decode_evidence:
  "good_evidence e \<Longrightarrow> decode unmarshal_evidence (Some (marshal_evidence e)) = Inr e"
  using good_evidence_utf8 [of e] length_marshal_evidence [of e]
  by (simp add: decode_def unmarshal_marshal_evidence not_less)


lemma good_batch_length: "good_batch b \<Longrightarrow> length (f_EvidenceIDs b) \<le> 1024"
  by (auto simp: good_batch_def MaxBatchEntries_def)

lemma length_strings_json:
  assumes "\<forall>i \<in> set xs. validID i"
  shows "length (json_text (strings_json xs)) \<le> 4 + 35 * length xs"
proof -
  have "\<forall>x \<in> set (map json_text (map JString xs)). length x \<le> 34"
    using assms by (auto simp: quote_def validID_text)
  from length_commas_le [OF this] show ?thesis by (simp add: strings_json_def)
qed

lemma length_marshal_batch: "good_batch b \<Longrightarrow> length (marshal_batch b) \<le> maxRecordBytes"
proof -
  assume good: "good_batch b"
  have q: "length (quote s) \<le> 1538" if "length s \<le> 256" for s
    using length_quote [of s] that by simp
  have k: "length (quote (ascii s)) \<le> 2 + 6 * length s" for s
    using length_quote [of "ascii s"] by simp
  have ids: "length (json_text (strings_json (f_EvidenceIDs b))) \<le> 36000"
    using length_strings_json [of "f_EvidenceIDs b"] good_batch_length [OF good] good
    by (simp add: good_batch_def)
  have "length (f_Manifest b) = 61"
    using good manifest.dec_bounds by (fastforce simp: good_batch_def)
  then have man: "length (json_text (bytes_json (f_Manifest b))) \<le> 1538"
    using q [of "b64_encode (f_Manifest b)"] length_b64_encode [of "f_Manifest b"]
    by (auto simp: bytes_json_def)
  have "nat (f_Limit b) < 10 ^ 4" using good by (auto simp: good_batch_def MaxBatchEntries_def)
  then have lim: "length (json_text (int_json (f_Limit b))) \<le> 4"
    using length_decimal [of "nat (f_Limit b)" 4] good by (simp add: int_json_def good_batch_def)
  have "length (f_ID b) \<le> 256" "length (f_SubmissionState b) \<le> 256" "length (f_SubmissionRef b) \<le> 256"
    using good by (auto simp: good_batch_def dest: validID_text validSubmissionState_text validText_length)
  from this [THEN q] ids man lim show ?thesis
    using k [of "''ID''"] k [of "''Limit''"] k [of "''EvidenceIDs''"] k [of "''Manifest''"]
      k [of "''SubmissionState''"] k [of "''SubmissionRef''"]
    by (simp add: marshal_batch_def batch_json_def maxRecordBytes_def del: ascii_Cons)
qed

lemma decode_batch:
  assumes "good_batch b"
  shows "decode unmarshal_batch (Some (marshal_batch b)) = Inr b"
proof -
  have "utf8_valid (f_ID b)" "\<forall>i \<in> set (f_EvidenceIDs b). utf8_valid i" "0 \<le> f_Limit b"
    "f_Limit b < 2 ^ 63" "utf8_valid (f_SubmissionState b)" "utf8_valid (f_SubmissionRef b)"
    using assms by (auto simp: good_batch_def MaxBatchEntries_def validID_text validText_utf8
        dest: validSubmissionState_text)
  then show ?thesis
    using length_marshal_batch [OF assms] by (simp add: decode_def unmarshal_marshal_batch not_less)
qed

end
