(* ===== verification/Bolt.thy ===== *)
theory Bolt
  imports Go_Bytes "HOL-Library.Finite_Map"
begin

text \<open>
  The interface of the embedded database \<^verbatim>\<open>go.etcd.io/bbolt\<close>, which is not part of the
  repository: its operations are the fields of a record that every storage operation takes as an
  argument, and what the store relies on is the locale \<open>bolt_laws\<close>, stated as bbolt documents it.
  A state \<open>'d\<close> is the content of the database as a transaction sees it; a bucket is the path of
  names that leads to it. \<open>Update\<close> and \<open>View\<close> are the two kinds of transactions. A database
  in memory for which the laws hold is in theory \<open>Bolt_Memory\<close>.
\<close>

section \<open>The operations and their laws\<close>

type_synonym path = "bytes list"

record 'd bolt =
  bk_exists :: "'d \<Rightarrow> path \<Rightarrow> bool"
  bk_create :: "'d \<Rightarrow> path \<Rightarrow> bytes \<Rightarrow> 'd result"
  bk_get :: "'d \<Rightarrow> path \<Rightarrow> bytes \<Rightarrow> bytes option"
  bk_put :: "'d \<Rightarrow> path \<Rightarrow> bytes \<Rightarrow> bytes \<Rightarrow> 'd result"
  bk_delete :: "'d \<Rightarrow> path \<Rightarrow> bytes \<Rightarrow> 'd result"
  bk_sequence :: "'d \<Rightarrow> path \<Rightarrow> u64"
  bk_next :: "'d \<Rightarrow> path \<Rightarrow> (u64 \<times> 'd) result"
  bk_entries :: "'d \<Rightarrow> path \<Rightarrow> (bytes \<times> bytes option) list"
  bk_begin :: "'d \<Rightarrow> go_error option"
  bk_commit :: "'d \<Rightarrow> go_error option"

text \<open>The documented limits of a key and of a value.\<close>

definition max_key :: nat where "max_key = 32768"
definition max_value :: nat where "max_value = 2 ^ 31 - 2"

locale bolt_laws =
  fixes B :: "'d bolt"
  assumes exists_parent: "bk_exists B d (p @ [k]) \<Longrightarrow> bk_exists B d p"
    and exists_root: "bk_exists B d []"
    and get_bucket: "bk_exists B d (p @ [k]) \<Longrightarrow> bk_get B d p k = None"
    and put_exists: "bk_put B d p k v = Inr d' \<Longrightarrow> bk_exists B d' q = bk_exists B d q"
    and put_get: "bk_put B d p k v = Inr d' \<Longrightarrow>
      bk_get B d' q l = (if q = p \<and> l = k then Some v else bk_get B d q l)"
    and put_sequence: "bk_put B d p k v = Inr d' \<Longrightarrow> bk_sequence B d' q = bk_sequence B d q"
    and put_succeeds: "bk_exists B d p \<Longrightarrow> \<not> bk_exists B d (p @ [k]) \<Longrightarrow> k \<noteq> [] \<Longrightarrow>
      length k \<le> max_key \<Longrightarrow> length v \<le> max_value \<Longrightarrow> \<exists>d'. bk_put B d p k v = Inr d'"
    and delete_exists: "bk_delete B d p k = Inr d' \<Longrightarrow> bk_exists B d' q = bk_exists B d q"
    and delete_get: "bk_delete B d p k = Inr d' \<Longrightarrow>
      bk_get B d' q l = (if q = p \<and> l = k then None else bk_get B d q l)"
    and delete_sequence: "bk_delete B d p k = Inr d' \<Longrightarrow> bk_sequence B d' q = bk_sequence B d q"
    and delete_succeeds: "bk_exists B d p \<Longrightarrow> \<not> bk_exists B d (p @ [k]) \<Longrightarrow>
      \<exists>d'. bk_delete B d p k = Inr d'"
    and create_exists: "bk_create B d p n = Inr d' \<Longrightarrow>
      bk_exists B d' q = (q = p @ [n] \<or> bk_exists B d q)"
    and create_fresh: "bk_create B d p n = Inr d' \<Longrightarrow> \<not> bk_exists B d (p @ [n])"
    and create_get: "bk_create B d p n = Inr d' \<Longrightarrow>
      bk_get B d' q l = (if q = p @ [n] then None else bk_get B d q l)"
    and create_sequence: "bk_create B d p n = Inr d' \<Longrightarrow>
      bk_sequence B d' q = (if q = p @ [n] then 0 else bk_sequence B d q)"
    and create_succeeds: "bk_exists B d p \<Longrightarrow> \<not> bk_exists B d (p @ [n]) \<Longrightarrow>
      bk_get B d p n = None \<Longrightarrow> n \<noteq> [] \<Longrightarrow> length n \<le> max_key \<Longrightarrow> \<exists>d'. bk_create B d p n = Inr d'"
    and next_exists: "bk_next B d p = Inr (s, d') \<Longrightarrow> bk_exists B d' q = bk_exists B d q"
    and next_get: "bk_next B d p = Inr (s, d') \<Longrightarrow> bk_get B d' q l = bk_get B d q l"
    and next_sequence: "bk_next B d p = Inr (s, d') \<Longrightarrow>
      s = bk_sequence B d p + 1 \<and> bk_sequence B d' q = (if q = p then s else bk_sequence B d q)"
    and next_succeeds: "bk_exists B d p \<Longrightarrow> \<exists>s d'. bk_next B d p = Inr (s, d')"
    and entries_sorted: "sorted_wrt (<) (map fst (bk_entries B d p))"
    and entries_get: "(k, Some v) \<in> set (bk_entries B d p) \<longleftrightarrow> bk_get B d p k = Some v"
    and entries_bucket: "(k, None) \<in> set (bk_entries B d p) \<longleftrightarrow> bk_exists B d (p @ [k])"
begin

lemmas put_laws = put_exists put_get put_sequence
lemmas delete_laws = delete_exists delete_get delete_sequence
lemmas create_laws = create_exists create_get create_sequence
lemmas next_laws = next_exists next_get

lemma exists_prefix: "bk_exists B d (p @ q) \<Longrightarrow> bk_exists B d p"
proof (induction q rule: rev_induct)
  case (snoc k q)
  then show ?case using exists_parent [of d "p @ q" k] by simp
qed simp

lemma entries_distinct: "distinct (map fst (bk_entries B d p))"
  using entries_sorted [of d p] by (simp add: strict_sorted_iff)

text \<open>In a bucket without nested buckets every entry of the cursor has a value.\<close>

lemma entries_flat:
  assumes "\<And>k. \<not> bk_exists B d (p @ [k])"
  shows "\<forall>(k, v) \<in> set (bk_entries B d p). v \<noteq> None \<and> bk_get B d p k = v"
proof (clarify, intro conjI)
  fix k v assume "(k, v) \<in> set (bk_entries B d p)"
  then show "v \<noteq> None" "bk_get B d p k = v"
    using assms entries_bucket [of k d p] entries_get [of k _ d p] by (cases v; simp)+
qed

end

section \<open>Transactions\<close>

text \<open>
  \<^verbatim>\<open>db.Update(f)\<close> starts a transaction, runs \<open>f\<close> on it, and commits unless \<open>f\<close> returned an
  error; an error of \<open>f\<close> or of the commit leaves the database unchanged. \<^verbatim>\<open>db.View(f)\<close> runs \<open>f\<close>
  on the content at its start.
\<close>

definition Update :: "'d bolt \<Rightarrow> ('d \<Rightarrow> ('a \<times> 'd) result) \<Rightarrow> 'd \<Rightarrow> 'a result \<times> 'd" where
  "Update B f d =
     (case bk_begin B d of
        Some err \<Rightarrow> (Inl err, d)
      | None \<Rightarrow>
          (case f d of
             Inl err \<Rightarrow> (Inl err, d)
           | Inr (x, d') \<Rightarrow>
               (case bk_commit B d' of Some err \<Rightarrow> (Inl err, d) | None \<Rightarrow> (Inr x, d'))))"

definition View :: "'d bolt \<Rightarrow> ('d \<Rightarrow> 'a result) \<Rightarrow> 'd \<Rightarrow> 'a result" where
  "View B f d = (case bk_begin B d of Some err \<Rightarrow> Inl err | None \<Rightarrow> f d)"

lemma Update_Inr [result_simps]:
  "Update B f d = (Inr x, d') \<longleftrightarrow>
     bk_begin B d = None \<and> f d = Inr (x, d') \<and> bk_commit B d' = None"
  by (auto simp: Update_def split: option.splits sum.splits)

lemma Update_Inl: "Update B f d = (Inl e, d') \<Longrightarrow> d' = d"
  by (auto simp: Update_def split: option.splits sum.splits)

lemma View_Inr [result_simps]: "View B f d = Inr x \<longleftrightarrow> bk_begin B d = None \<and> f d = Inr x"
  by (auto simp: View_def split: option.splits)

lemma View_Inl: "View B f d = Inl e \<longleftrightarrow>
   bk_begin B d = Some e \<or> bk_begin B d = None \<and> f d = Inl e"
  by (auto simp: View_def split: option.splits)

end
