(* ===== verification/Bolt_Memory.thy ===== *)
theory Bolt_Memory
  imports Bolt
begin

text \<open>
  A database in memory that satisfies the laws of \<open>bolt_laws\<close>: a finite map from bucket paths to
  the sequence counter and the entries of the bucket. It shows that the laws can hold and is the
  database of the concrete examples.
\<close>

type_synonym memory = "(path, u64 \<times> (bytes, bytes) fmap) fmap"

definition mem_exists :: "memory \<Rightarrow> path \<Rightarrow> bool" where
  "mem_exists d p \<longleftrightarrow> (\<forall>i \<in> {1..length p}. take i p |\<in>| fmdom d)"

definition mem_bucket :: "memory \<Rightarrow> path \<Rightarrow> u64 \<times> (bytes, bytes) fmap" where
  "mem_bucket d p = (if mem_exists d p then case fmlookup d p of Some b \<Rightarrow> b | None \<Rightarrow> (0, fmempty)
     else (0, fmempty))"

definition mem_get :: "memory \<Rightarrow> path \<Rightarrow> bytes \<Rightarrow> bytes option" where
  "mem_get d p k = (if mem_exists d (p @ [k]) then None else fmlookup (snd (mem_bucket d p)) k)"

definition mem_children :: "memory \<Rightarrow> path \<Rightarrow> bytes fset" where
  "mem_children d p = ffilter (\<lambda>n. mem_exists d (p @ [n])) (last |`| fmdom d)"

definition mem_bolt :: "memory bolt" where
  "mem_bolt = \<lparr>
     bk_exists = mem_exists,
     bk_create = (\<lambda>d p n.
       if \<not> mem_exists d p \<or> mem_exists d (p @ [n]) \<or> mem_get d p n \<noteq> None \<or> n = []
         \<or> max_key < length n
       then Inl (New ''create bucket'')
       else Inr (fmupd (p @ [n]) (0, fmempty)
         (fmfilter (\<lambda>q. take (Suc (length p)) q \<noteq> p @ [n]) d))),
     bk_get = mem_get,
     bk_put = (\<lambda>d p k v.
       if \<not> mem_exists d p \<or> mem_exists d (p @ [k]) \<or> k = [] \<or> max_key < length k
         \<or> max_value < length v
       then Inl (New ''put'')
       else let (s, m) = mem_bucket d p in Inr (fmupd p (s, fmupd k v m) d)),
     bk_delete = (\<lambda>d p k.
       if \<not> mem_exists d p \<or> mem_exists d (p @ [k]) then Inl (New ''delete'')
       else let (s, m) = mem_bucket d p in Inr (fmupd p (s, fmdrop k m) d)),
     bk_sequence = (\<lambda>d p. fst (mem_bucket d p)),
     bk_next = (\<lambda>d p.
       if \<not> mem_exists d p then Inl (New ''next sequence'')
       else let (s, m) = mem_bucket d p in Inr (s + 1, fmupd p (s + 1, m) d)),
     bk_entries = (\<lambda>d p. map (\<lambda>k. (k, mem_get d p k))
       (sorted_list_of_fset (ffilter (\<lambda>k. mem_get d p k \<noteq> None) (fmdom (snd (mem_bucket d p)))
         |\<union>| mem_children d p))),
     bk_begin = (\<lambda>_. None),
     bk_commit = (\<lambda>_. None)\<rparr>"

lemma mem_exists_snoc: "mem_exists d (p @ [k]) \<longleftrightarrow> mem_exists d p \<and> p @ [k] |\<in>| fmdom d"
proof -
  have "{1..length (p @ [k])} = insert (Suc (length p)) {1..length p}" by auto
  then show ?thesis by (auto simp: mem_exists_def)
qed

lemma mem_exists_Nil [simp]: "mem_exists d []"
  by (simp add: mem_exists_def)

lemma mem_exists_upd: "mem_exists d p \<Longrightarrow> mem_exists (fmupd p x d) q = mem_exists d q"
proof (induction q rule: rev_induct)
  case (snoc k q)
  have "mem_exists d p" by fact
  then have "p = q @ [k] \<Longrightarrow> q @ [k] |\<in>| fmdom d" using mem_exists_snoc by blast
  with snoc show ?case by (auto simp: mem_exists_snoc)
qed simp

lemma mem_bucket_upd:
  "mem_exists d p \<Longrightarrow> mem_bucket (fmupd p x d) q = (if q = p then x else mem_bucket d q)"
  by (auto simp: mem_bucket_def mem_exists_upd)

lemma mem_get_upd:
  "mem_exists d p \<Longrightarrow> mem_get (fmupd p (s, m) d) q l =
     (if q = p \<and> \<not> mem_exists d (p @ [l]) then fmlookup m l else mem_get d q l)"
  by (auto simp: mem_get_def mem_bucket_upd mem_exists_upd)

lemma mem_exists_create:
  assumes "mem_exists d p" "\<not> mem_exists d (p @ [n])"
  shows "mem_exists (fmupd (p @ [n]) x (fmfilter (\<lambda>q. take (Suc (length p)) q \<noteq> p @ [n]) d)) q
    \<longleftrightarrow> q = p @ [n] \<or> mem_exists d q"
proof (induction q rule: rev_induct)
  case (snoc k q)
  let ?d = "fmupd (p @ [n]) x (fmfilter (\<lambda>q. take (Suc (length p)) q \<noteq> p @ [n]) d)"
  have dom: "q @ [k] |\<in>| fmdom ?d \<longleftrightarrow>
      q @ [k] = p @ [n] \<or> q @ [k] |\<in>| fmdom d \<and> take (Suc (length p)) (q @ [k]) \<noteq> p @ [n]"
    by auto
  have no: "\<not> mem_exists d r" if "take (Suc (length p)) r = p @ [n]" for r
  proof
    assume "mem_exists d r"
    then have "mem_exists d (take (Suc (length p)) r)" by (simp add: mem_exists_def min_def)
    with that assms(2) show False by simp
  qed
  show ?case
  proof (cases "q @ [k] = p @ [n]")
    case True
    then show ?thesis using snoc assms(1) by (simp add: mem_exists_snoc [of ?d])
  next
    case False
    have "q \<noteq> p @ [n] \<or> take (Suc (length p)) (q @ [k]) = p @ [n]" by auto
    then show ?thesis
      using False snoc no [of "q @ [k]"] dom
      by (auto simp: mem_exists_snoc [of ?d] mem_exists_snoc [of d])
  qed
qed simp

lemma mem_children_iff: "n |\<in>| mem_children d p \<longleftrightarrow> mem_exists d (p @ [n])"
proof -
  have "n |\<in>| last |`| fmdom d" if "mem_exists d (p @ [n])"
  proof -
    from that have "p @ [n] |\<in>| fmdom d" by (simp add: mem_exists_snoc)
    then have "last (p @ [n]) |\<in>| last |`| fmdom d" by (rule fimageI)
    then show ?thesis by simp
  qed
  then show ?thesis by (auto simp: mem_children_def)
qed

lemma sorted_list_of_fset_sorted: "sorted_wrt (<) (sorted_list_of_fset S)"
  by (simp add: sorted_list_of_fset.rep_eq strict_sorted_list_of_set)

lemma mem_put:
  "bk_put mem_bolt d p k v = Inr d' \<longleftrightarrow> mem_exists d p \<and> \<not> mem_exists d (p @ [k]) \<and> k \<noteq> [] \<and>
     length k \<le> max_key \<and> length v \<le> max_value \<and>
     d' = fmupd p (fst (mem_bucket d p), fmupd k v (snd (mem_bucket d p))) d"
  by (auto simp: mem_bolt_def split_beta)

lemma mem_delete:
  "bk_delete mem_bolt d p k = Inr d' \<longleftrightarrow> mem_exists d p \<and> \<not> mem_exists d (p @ [k]) \<and>
     d' = fmupd p (fst (mem_bucket d p), fmdrop k (snd (mem_bucket d p))) d"
  by (auto simp: mem_bolt_def split_beta)

lemma mem_next:
  "bk_next mem_bolt d p = Inr (s, d') \<longleftrightarrow> mem_exists d p \<and> s = fst (mem_bucket d p) + 1 \<and>
     d' = fmupd p (s, snd (mem_bucket d p)) d"
  by (auto simp: mem_bolt_def split_beta)

lemma mem_create:
  "bk_create mem_bolt d p n = Inr d' \<longleftrightarrow> mem_exists d p \<and> \<not> mem_exists d (p @ [n]) \<and>
     mem_get d p n = None \<and> n \<noteq> [] \<and> length n \<le> max_key \<and>
     d' = fmupd (p @ [n]) (0, fmempty) (fmfilter (\<lambda>q. take (Suc (length p)) q \<noteq> p @ [n]) d)"
  by (auto simp: mem_bolt_def)

lemma mem_observers [simp]:
  "bk_exists mem_bolt = mem_exists" "bk_get mem_bolt = mem_get"
  "bk_sequence mem_bolt d p = fst (mem_bucket d p)"
  "bk_begin mem_bolt d = None" "bk_commit mem_bolt d = None"
  by (simp_all add: mem_bolt_def)

lemma mem_create_bucket:
  assumes "bk_create mem_bolt d p n = Inr d'"
  shows "mem_bucket d' q = (if q = p @ [n] then (0, fmempty) else mem_bucket d q)"
proof -
  have d': "mem_exists d p" "\<not> mem_exists d (p @ [n])"
    "d' = fmupd (p @ [n]) (0, fmempty) (fmfilter (\<lambda>q. take (Suc (length p)) q \<noteq> p @ [n]) d)"
    using assms by (simp_all add: mem_create)
  note ex = mem_exists_create [OF d'(1,2), of "(0, fmempty)", folded d'(3)]
  show ?thesis
  proof (cases "q = p @ [n] \<or> \<not> mem_exists d q")
    case True
    then show ?thesis using ex d'(2,3) by (auto simp: mem_bucket_def)
  next
    case False
    then have "mem_exists d (take (Suc (length p)) q)" by (simp add: mem_exists_def min_def)
    then have "take (Suc (length p)) q \<noteq> p @ [n]" using d'(2) by auto
    then show ?thesis using False ex by (auto simp: mem_bucket_def d'(3))
  qed
qed

lemma mem_get_cases:
  "mem_get d p k = (if mem_exists d (p @ [k]) then None else fmlookup (snd (mem_bucket d p)) k)"
  by (rule mem_get_def)

interpretation memory: bolt_laws mem_bolt
proof (unfold_locales, goal_cases)
  case (1 d p k)
  then show ?case by (simp add: mem_exists_snoc)
next
  case (3 d p k)
  then show ?case by (simp add: mem_get_def)
next
  case (12 d p n d' q)
  then show ?case by (auto simp: mem_create mem_exists_create)
next
  case (14 d p n d' q l)
  then have "mem_exists d' r = (r = p @ [n] \<or> mem_exists d r)" for r
    by (auto simp: mem_create mem_exists_create)
  then show ?case
    using 14 mem_create_bucket [OF 14] by (auto simp: mem_get_cases) (auto simp: mem_create mem_get_cases)
next
  case (15 d p n d' q)
  then show ?case using mem_create_bucket [OF 15] by simp
next
  case (21 d p)
  show ?case by (simp add: mem_bolt_def comp_def sorted_list_of_fset_sorted)
next
  case (22 k v d p)
  show ?case by (auto simp: mem_bolt_def mem_get_cases mem_children_iff image_iff
        intro: fmdomI split: if_splits)
next
  case (23 k d p)
  show ?case by (auto simp: mem_bolt_def mem_get_cases mem_children_iff image_iff split: if_splits)
qed (auto simp: mem_put mem_delete mem_next mem_create mem_exists_upd mem_get_upd mem_bucket_upd
    mem_get_cases)

end
