(* ===== verification/Proof_Package.thy ===== *)
theory Proof_Package
  imports Batch
begin

text \<open>
  The package format of package \<^verbatim>\<open>proof\<close> (\<^verbatim>\<open>pkg/proof/package.go\<close>): the portable,
  explicitly unanchored evidence of one document. \<open>MarshalBinary_package\<close> and
  \<open>Parse_package\<close> are its exact binary encoding, \<open>Read_package\<close> the bounded read of it,
  \<open>pathLength\<close> the loop that derives the sibling count and \<open>CreateUnanchored\<close> the creation
  of a single-leaf package. The lemmas show the strict format with its length bounds, which
  inputs are classified as unsupported, and that bounded reading loses nothing.
\<close>

definition PackageVersion :: u8 where "PackageVersion = 1"
definition MaxPackageBytes :: nat where "MaxPackageBytes = 170 + 16 * 32"

definition magic :: bytes where
  "magic = ascii ''SIGMAPRF''"

lemma length_magic [simp, bytes_simps]: "length magic = 8"
  by (simp add: magic_def)

record package =
  p_Witness :: witness
  p_Manifest :: manifest
  p_Index :: u64
  p_Path :: "hash list"

lemma package_eta [simp]:
  "\<lparr>p_Witness = p_Witness p, p_Manifest = p_Manifest p, p_Index = p_Index p, p_Path = p_Path p\<rparr> = p"
  by (cases p) simp

section \<open>The sibling count\<close>

text \<open>The loop of \<^verbatim>\<open>pathLength\<close>, with its three variables.\<close>

function pathLength_loop :: "u64 \<Rightarrow> u64 \<Rightarrow> nat \<Rightarrow> nat" where
  "pathLength_loop index n count =
     (if 1 < n then
        let k = push_bit (len64 (n - 1) - 1) 1
        in if index < k then pathLength_loop index k (count + 1)
           else pathLength_loop (index - k) (n - k) (count + 1)
      else count)"
  by pat_completeness auto
termination
proof (relation "measure (\<lambda>(index, n, count). unat n)", goal_cases)
  case (2 index n count k)
  then have "1 < unat n" by (simp add: word_less_nat_alt)
  with 2 show ?case using split_bounds(2) [of n] by (simp add: split_def)
next
  case (3 index n count k)
  then have "n \<noteq> 1" "n \<noteq> 0" by auto
  with 3 show ?case using split_less_measure(3) [of n] by (simp add: split_def)
qed simp

declare pathLength_loop.simps [simp del]

definition pathLength :: "u64 \<Rightarrow> u64 \<Rightarrow> nat" where
  "pathLength index n = pathLength_loop index n 0"

lemma pathLength_loop_eq: "pathLength_loop index n count = count + depth index n"
proof (induction index n count rule: pathLength_loop.induct)
  case (1 index n count)
  show ?case
  proof (cases "1 < n")
    case True
    then have nle: "\<not> unat n \<le> 1" by (simp add: word_less_nat_alt)
    note IH = 1 [OF True refl, folded split_def]
    show ?thesis
      using True nle IH
      by (simp add: pathLength_loop.simps [of index n count, folded split_def]
          depth.simps [of index n] Let_def)
  next
    case False
    then have "unat n \<le> 1" by (simp add: word_less_nat_alt not_less)
    with False show ?thesis
      by (simp add: pathLength_loop.simps [of index n] depth.simps [of index n])
  qed
qed

lemma pathLength_eq [simp]: "pathLength index n = depth index n"
  by (simp add: pathLength_def pathLength_loop_eq)

section \<open>Operations\<close>

definition MarshalBinary_package :: "package \<Rightarrow> bytes result" where
  "MarshalBinary_package p =
     (case Encode (p_Witness p) of
        Inl err \<Rightarrow> Inl (Join (Sent ErrUnsupported) err)
      | Inr witness \<Rightarrow>
          bindE (MarshalBinary_manifest (p_Manifest p)) (\<lambda>manifest.
            if m_Size (p_Manifest p) \<le> p_Index p then Inl (New ''leaf index outside manifest'')
            else if length (p_Path p) \<noteq> pathLength (p_Index p) (m_Size (p_Manifest p))
              then Inl (New ''incorrect inclusion path length'')
            else Inr (magic @ [PackageVersion] @ witness @ manifest @ put_uint64 (p_Index p)
              @ [of_nat (length (p_Path p))] @ concat (map b32_bytes (p_Path p)) @ [0])))"

definition Parse_package :: "bytes \<Rightarrow> package result" where
  "Parse_package data =
     (if length data < 170 \<or> MaxPackageBytes < length data
        then Inl (New ''invalid package length'')
      else if slice 0 8 data \<noteq> magic then Inl (New ''invalid package magic'')
      else if data ! 8 \<noteq> PackageVersion then Inl (Sent ErrUnsupported)
      else let count = unat (data ! 168) in
        if 16 < count \<or> length data \<noteq> 170 + 32 * count
          then Inl (New ''invalid package path framing'')
        else if data ! (length data - 1) \<noteq> 0 then Inl (Sent ErrUnsupported)
        else if data ! 31 \<noteq> 1 \<or> data ! 32 \<noteq> 1 \<or> (data ! 33 \<noteq> 1 \<and> data ! 33 \<noteq> 2)
            \<or> data ! 34 \<noteq> 0 \<or> data ! 116 \<noteq> 1 \<or> data ! 117 \<noteq> 1 \<or> data ! 118 \<noteq> 1
            \<or> data ! 119 \<noteq> 1
          then Inl (Sent ErrUnsupported)
        else
          bindE (Parse_commitment (slice 9 99 data)) (\<lambda>witness.
          bindE (Parse_manifest (slice 99 160 data)) (\<lambda>manifest.
            let index = get_uint64 (slice 160 168 data) in
            if m_Size manifest \<le> index then Inl (New ''leaf index outside manifest'')
            else if count \<noteq> pathLength index (m_Size manifest)
              then Inl (New ''incorrect inclusion path length'')
            else Inr \<lparr>p_Witness = witness, p_Manifest = manifest, p_Index = index,
              p_Path = map (\<lambda>i. b32_copy (slice (169 + i * 32) (169 + (i + 1) * 32) data))
                [0..<count]\<rparr>)))"

definition Read_package :: "reader option \<Rightarrow> package result" where
  "Read_package r =
     (case r of
        None \<Rightarrow> Inl (New ''package reader is required'')
      | Some r \<Rightarrow> bindE (read_limited r (of_nat (MaxPackageBytes + 1))) Parse_package)"

definition CreateUnanchored ::
    "reader option \<Rightarrow> u8 \<Rightarrow> i64 \<Rightarrow> entropy \<Rightarrow> package result \<times> entropy" where
  "CreateUnanchored document representation maxBytes rnd =
     (case New_commitment document representation maxBytes rnd of
        (Inl err, rnd') \<Rightarrow> (Inl err, rnd')
      | (Inr (w, c), rnd') \<Rightarrow>
          (bindE (New_manifest [c]) (\<lambda>m.
             Inr \<lparr>p_Witness = w, p_Manifest = m, p_Index = 0, p_Path = []\<rparr>), rnd'))"

section \<open>The package is a strict format\<close>

definition package_ok :: "package \<Rightarrow> bool" where
  "package_ok p \<longleftrightarrow> supported (p_Witness p) \<and> validate (p_Manifest p) = None
     \<and> p_Index p < m_Size (p_Manifest p)
     \<and> length (p_Path p) = depth (p_Index p) (m_Size (p_Manifest p))"

definition package_bytes :: "package \<Rightarrow> bytes" where
  "package_bytes p = magic @ [1] @ preimage (p_Witness p) @ manifest_bytes (p_Manifest p)
     @ put_uint64 (p_Index p) @ [of_nat (length (p_Path p))]
     @ concat (map b32_bytes (p_Path p)) @ [0]"

lemma MarshalBinary_package_eq_Inr [result_simps]:
  "MarshalBinary_package p = Inr bs \<longleftrightarrow> package_ok p \<and> bs = package_bytes p"
  by (auto simp: MarshalBinary_package_def package_ok_def package_bytes_def PackageVersion_def
      result_simps not_le dest: Encode_eq_Inl split: sum.splits)

lemma length_concat_b32 [simp, bytes_simps]: "length (concat (map b32_bytes hs)) = 32 * length hs"
  by (induction hs) simp_all

lemma length_package_bytes [simp, bytes_simps]:
  "length (package_bytes p) = 170 + 32 * length (p_Path p)"
  by (simp add: package_bytes_def)

lemma depth_le_16: "validate m = None \<Longrightarrow> depth i (m_Size m) \<le> 16"
  by (rule depth_le) (simp add: validate_None)

lemma slice_concat_b32:
  "i < length hs \<Longrightarrow>
   slice (i * 32) ((i + 1) * 32) (concat (map b32_bytes hs) @ rest) = b32_bytes (hs ! i)"
proof (induction hs arbitrary: i)
  case (Cons h hs)
  show ?case
  proof (cases i)
    case 0
    then show ?thesis by (simp add: slice_def)
  next
    case (Suc j)
    then have "32 \<le> i * 32" by simp
    then have "slice (i * 32) ((i + 1) * 32) (b32_bytes h @ concat (map b32_bytes hs) @ rest) =
        slice (j * 32) ((j + 1) * 32) (concat (map b32_bytes hs) @ rest)"
      by (subst slice_skip [of _ 32]) (simp_all add: Suc)
    then show ?thesis using Cons Suc by simp
  qed
qed simp

lemma concat_slices:
  "concat (map (\<lambda>i. slice (a + i * 32) (a + (i + 1) * 32) bs) [0..<n]) = slice a (a + n * 32) bs"
proof (induction n)
  case (Suc n)
  then show ?case using slice_append [of a "a + n * 32" "a + Suc n * 32" bs] by simp
qed (simp add: slice_def)

text \<open>The fields of an encoded package, at the offsets that the parser reads.\<close>

lemma preimage_fields:
  "preimage w ! 22 = w_Version w" "preimage w ! 23 = w_Algorithm w"
  "preimage w ! 24 = w_Representation w" "preimage w ! 25 = w_Metadata w"
  by (simp_all add: preimage_def nth_append)

lemma manifest_fields:
  "manifest_bytes m ! 17 = m_Version m" "manifest_bytes m ! 18 = m_CommitmentVersion m"
  "manifest_bytes m ! 19 = m_CommitmentAlgorithm m" "manifest_bytes m ! 20 = m_TreeAlgorithm m"
  by (simp_all add: manifest_bytes_def nth_append)

lemma package_parts:
  "slice 0 8 (package_bytes p) = magic" "package_bytes p ! 8 = 1"
  "slice 9 99 (package_bytes p) = preimage (p_Witness p)"
  "slice 99 160 (package_bytes p) = manifest_bytes (p_Manifest p)"
  "slice 160 168 (package_bytes p) = put_uint64 (p_Index p)"
  "package_bytes p ! 168 = of_nat (length (p_Path p))"
  "package_bytes p ! (169 + 32 * length (p_Path p)) = 0"
  by (simp_all add: package_bytes_def nth_append)

lemma package_profile:
  "package_bytes p ! 31 = w_Version (p_Witness p)"
  "package_bytes p ! 32 = w_Algorithm (p_Witness p)"
  "package_bytes p ! 33 = w_Representation (p_Witness p)"
  "package_bytes p ! 34 = w_Metadata (p_Witness p)"
  "package_bytes p ! 116 = m_Version (p_Manifest p)"
  "package_bytes p ! 117 = m_CommitmentVersion (p_Manifest p)"
  "package_bytes p ! 118 = m_CommitmentAlgorithm (p_Manifest p)"
  "package_bytes p ! 119 = m_TreeAlgorithm (p_Manifest p)"
  by (simp_all add: package_bytes_def nth_append preimage_fields manifest_fields)

lemma package_path:
  "i < length (p_Path p) \<Longrightarrow>
   slice (169 + i * 32) (169 + (i + 1) * 32) (package_bytes p) = b32_bytes (p_Path p ! i)"
proof -
  let ?head = "magic @ [1] @ preimage (p_Witness p) @ manifest_bytes (p_Manifest p)
     @ put_uint64 (p_Index p) @ [of_nat (length (p_Path p))]"
  let ?tail = "concat (map b32_bytes (p_Path p)) @ [0]"
  have "package_bytes p = ?head @ ?tail" by (simp add: package_bytes_def)
  moreover have "slice (169 + i * 32) (169 + (i + 1) * 32) (?head @ ?tail) =
      slice (i * 32) ((i + 1) * 32) ?tail"
    by (subst slice_skip [where m = 169]) simp_all
  moreover assume "i < length (p_Path p)"
  ultimately show ?thesis by (simp only: slice_concat_b32)
qed

lemma Parse_package_bytes:
  assumes "package_ok p"
  shows "Parse_package (package_bytes p) = Inr p"
proof -
  let ?n = "length (p_Path p)"
  have ok: "supported (p_Witness p)" "validate (p_Manifest p) = None"
    "p_Index p < m_Size (p_Manifest p)" "?n = depth (p_Index p) (m_Size (p_Manifest p))"
    using assms by (simp_all add: package_ok_def)
  have n: "?n \<le> 16" using depth_le_16 [OF ok(2)] ok(4) by simp
  then have cnt: "unat (of_nat ?n :: u8) = ?n" by (simp add: unat_of_nat)
  have path: "map (\<lambda>i. b32_copy (slice (169 + i * 32) (169 + (i + 1) * 32) (package_bytes p)))
      [0..<?n] = p_Path p"
    by (rule nth_equalityI) (simp_all only: length_map length_upt nth_map nth_upt package_path
        b32_copy_bytes minus_nat.diff_0 add_0)
  have last: "package_bytes p ! (length (package_bytes p) - 1) = 0"
    using package_parts(7) [of p] by simp
  have profile: "\<not> (w_Version (p_Witness p) \<noteq> 1 \<or> w_Algorithm (p_Witness p) \<noteq> 1 \<or>
      (w_Representation (p_Witness p) \<noteq> 1 \<and> w_Representation (p_Witness p) \<noteq> 2) \<or>
      w_Metadata (p_Witness p) \<noteq> 0 \<or> m_Version (p_Manifest p) \<noteq> 1 \<or>
      m_CommitmentVersion (p_Manifest p) \<noteq> 1 \<or> m_CommitmentAlgorithm (p_Manifest p) \<noteq> 1 \<or>
      m_TreeAlgorithm (p_Manifest p) \<noteq> 1)"
    using ok(1,2) by (auto simp: supported_def validate_None)
  show ?thesis
    unfolding Parse_package_def Let_def package_profile last package_parts cnt
      Parse_commitment_preimage [OF ok(1)] Parse_manifest_bytes [OF ok(2)] bindE_Inr
      get_put_uint64 path if_not_P [OF profile]
    using ok(3,4) n by (simp add: MaxPackageBytes_def PackageVersion_def)
qed

lemma package_bytes_Parse:
  assumes "Parse_package bs = Inr p"
  shows "package_ok p \<and> package_bytes p = bs"
proof -
  define n where "n = unat (bs ! 168)"
  have len: "length bs = 170 + 32 * n" and mag: "slice 0 8 bs = magic" and ver: "bs ! 8 = 1"
    and last: "bs ! (length bs - 1) = 0"
    and w: "Parse_commitment (slice 9 99 bs) = Inr (p_Witness p)"
    and m: "Parse_manifest (slice 99 160 bs) = Inr (p_Manifest p)"
    and i: "p_Index p = get_uint64 (slice 160 168 bs)" "p_Index p < m_Size (p_Manifest p)"
    and d: "n = depth (p_Index p) (m_Size (p_Manifest p))"
    and path: "p_Path p = map (\<lambda>i. b32_copy (slice (169 + i * 32) (169 + (i + 1) * 32) bs)) [0..<n]"
    using assms
    by (auto simp: Parse_package_def PackageVersion_def Let_def n_def result_simps not_le
        split: if_splits)
  note w' = preimage_Parse_commitment [OF w] and m' = manifest_bytes_Parse [OF m]
  have lp: "length (p_Path p) = n" by (simp add: path)
  have ok: "package_ok p" using w' m' i(2) d lp by (simp add: package_ok_def)
  have hashes: "concat (map b32_bytes (p_Path p)) = slice 169 (169 + n * 32) bs"
  proof -
    have "map b32_bytes (p_Path p) = map (\<lambda>i. slice (169 + i * 32) (169 + (i + 1) * 32) bs) [0..<n]"
      using len by (simp add: path)
    then show ?thesis by (simp only: concat_slices)
  qed
  have idx: "put_uint64 (p_Index p) = slice 160 168 bs" using len by (simp add: i(1))
  have single: "[1] = slice 8 9 bs" "[of_nat n] = slice 168 169 bs"
    "[0] = slice (169 + n * 32) (170 + n * 32) bs"
    using slice_single [of 8 bs] slice_single [of 168 bs] slice_single [of "169 + n * 32" bs] len ver last
    by (simp_all add: n_def mult.commute)
  have "package_bytes p = slice 0 8 bs @ slice 8 9 bs @ slice 9 99 bs @ slice 99 160 bs
      @ slice 160 168 bs @ slice 168 169 bs @ slice 169 (169 + n * 32) bs
      @ slice (169 + n * 32) (170 + n * 32) bs"
    using w' m' by (simp only: package_bytes_def lp mag hashes idx single append_assoc)
  also have "\<dots> = slice 0 (170 + n * 32) bs"
    by (simp add: bytes_simps)
  also have "\<dots> = bs" using len by simp
  finally show ?thesis using ok by simp
qed

interpretation package: bounded_codec MarshalBinary_package Parse_package 170 682
proof unfold_locales
  fix p bs assume enc: "MarshalBinary_package p = Inr bs"
  then have ok: "package_ok p" "bs = package_bytes p" by (simp_all add: MarshalBinary_package_eq_Inr)
  then show "Parse_package bs = Inr p" by (simp add: Parse_package_bytes)
  have "length (p_Path p) \<le> 16" using ok(1) depth_le_16 by (auto simp: package_ok_def)
  then show "170 \<le> length bs \<and> length bs \<le> 682" by (simp add: ok(2))
next
  fix bs p assume "Parse_package bs = Inr p"
  then show "MarshalBinary_package p = Inr bs"
    using package_bytes_Parse by (simp add: MarshalBinary_package_eq_Inr)
qed

section \<open>Bounded reading and creation\<close>

lemma Read_package_eq_Inr:
  "Read_package r = Inr p \<longleftrightarrow>
    (\<exists>s. r = Some s \<and> ending s = Eof \<and> Parse_package (content s) = Inr p)" (is "?l \<longleftrightarrow> ?r")
proof
  have lim: "nat (sint (of_nat (MaxPackageBytes + 1) :: i64)) = 683"
    by (simp add: MaxPackageBytes_def)
  assume ?l
  then obtain s bs where s: "r = Some s" "read_limited s (of_nat (MaxPackageBytes + 1)) = Inr bs"
    "Parse_package bs = Inr p"
    by (auto simp: Read_package_def result_simps split: option.splits)
  have "length bs < 683" using package.dec_bounds [OF s(3)] by simp
  with read_limited_short [OF s(2)] lim s show ?r by auto
next
  have lim: "nat (sint (of_nat (MaxPackageBytes + 1) :: i64)) = 683"
    by (simp add: MaxPackageBytes_def)
  assume ?r
  then obtain s where s: "r = Some s" "ending s = Eof" "Parse_package (content s) = Inr p" by blast
  have "length (content s) < 683" using package.dec_bounds [OF s(3)] by simp
  then have "read_limited s (of_nat (MaxPackageBytes + 1)) = Inr (content s)"
    using read_limited_Eof [OF s(2)] lim by metis
  with s show ?l by (simp add: Read_package_def)
qed

lemma depth_single [simp]: "depth 0 1 = 0"
  by simp

lemma CreateUnanchored_Inr:
  assumes "CreateUnanchored d rep m rnd = (Inr p, rnd')"
  shows "package_ok p \<and> p_Index p = 0 \<and> p_Path p = [] \<and> w_Representation (p_Witness p) = rep
    \<and> hashDocument d m = Inr (w_DocumentDigest (p_Witness p))
    \<and> (\<exists>c. Compute (p_Witness p) = Inr c \<and> p_Manifest p = manifest_of [c])"
proof -
  obtain w c where new: "New_commitment d rep m rnd = (Inr (w, c), rnd')"
    and p: "bindE (New_manifest [c]) (\<lambda>m. Inr \<lparr>p_Witness = w, p_Manifest = m, p_Index = 0,
        p_Path = []\<rparr>) = Inr p"
    using assms by (auto simp: CreateUnanchored_def split: prod.splits sum.splits)
  have "New_manifest [c] = Inr (manifest_of [c])" by (rule New_manifest_of) simp_all
  with p have p: "p = \<lparr>p_Witness = w, p_Manifest = manifest_of [c], p_Index = 0, p_Path = []\<rparr>"
    by simp
  have "validate (manifest_of [c]) = None" by (rule validate_manifest_of) simp_all
  then show ?thesis
    using New_commitment_Inr [OF new]
    by (simp add: p package_ok_def Compute_eq_Inr) (simp add: manifest_of_def)
qed

end
