(* ===== verification/Storage.thy ===== *)
theory Storage
  imports Storage_Records Bolt_Memory Proof_Package
begin

text \<open>
  The operations of package \<^verbatim>\<open>storage\<close> (\<^verbatim>\<open>internal/storage/store.go\<close>) over the database
  interface of theory \<open>Bolt\<close>: tenants and their buckets, reading and checking records, and the
  exported operations \<open>Ingest\<close>, \<open>IngestDocument\<close>, \<open>Store_Evidence\<close>, \<open>Store_Batch\<close>,
  \<open>RecordSubmission\<close>, \<open>Freeze\<close>, \<open>Outbox\<close> and \<open>UnanchoredPackage\<close>, each with the
  transaction it runs. An operation takes the database operations \<open>B\<close> and the committed content
  \<open>d\<close>; those that draw identifiers also take the outcomes of the reads from \<^verbatim>\<open>crypto/rand\<close>.
\<close>

section \<open>Requests\<close>

record ingest_request =
  i_Tenant :: gostring
  i_Key :: gostring
  i_Source :: source
  i_Witness :: witness

record document_request =
  d_Tenant :: gostring
  d_Key :: gostring
  d_Source :: source
  d_Representation :: u8
  d_Document :: "reader option"
  d_MaxBytes :: i64

section \<open>Tenants and records\<close>

definition tenantBuckets :: "gostring list" where
  "tenantBuckets = map ascii
     [''evidence'', ''keys'', ''sources'', ''pending'', ''batches'', ''batch_keys'', ''outbox'']"

definition tenants_path :: path where
  "tenants_path = [ascii ''tenants'']"

definition tenant_path :: "gostring \<Rightarrow> path" where
  "tenant_path name = tenants_path @ [name]"

text \<open>\<^verbatim>\<open>t.Bucket(name)\<close> for one of the seven buckets of a tenant.\<close>

definition bucket :: "path \<Rightarrow> string \<Rightarrow> path" where
  "bucket t name = t @ [ascii name]"

fun create_all :: "'d bolt \<Rightarrow> path \<Rightarrow> gostring list \<Rightarrow> 'd \<Rightarrow> 'd result" where
  "create_all B t [] d = Inr d"
| "create_all B t (n # ns) d = bindE (bk_create B d t n) (create_all B t ns)"

definition tenant :: "'d bolt \<Rightarrow> 'd \<Rightarrow> gostring \<Rightarrow> bool \<Rightarrow> (path \<times> 'd) result" where
  "tenant B d name create =
     (if \<not> bk_exists B d tenants_path then Inl (Sent ErrCorrupt)
      else
        let t = tenant_path name in
        bindE (if bk_exists B d t then Inr d
               else if \<not> create then Inl (Sent ErrNotFound)
               else bindE (bk_create B d tenants_path name) (create_all B t tenantBuckets))
          (\<lambda>d. if list_all (\<lambda>n. bk_exists B d (t @ [n])) tenantBuckets then Inr (t, d)
               else Inl (Sent ErrCorrupt)))"

text \<open>
  \<^verbatim>\<open>newID\<close>: 16 random bytes in hexadecimal, drawn again while the bucket has a record of that
  name. The loop runs over the outcomes of \<^verbatim>\<open>rand.Read\<close>.
\<close>

fun newID :: "(bytes \<Rightarrow> bytes option) \<Rightarrow> entropy \<Rightarrow> gostring result \<times> entropy" where
  "newID get [] = (Inl (New ''entropy source exhausted''), [])"
| "newID get (Inl err # rnd) = (Inl err, rnd)"
| "newID get (Inr raw # rnd) =
     (let ident = hex_encode (take 16 (raw @ replicate 16 0))
      in if get ident = None then (Inr ident, rnd) else newID get rnd)"

definition put_evidence :: "'d bolt \<Rightarrow> path \<Rightarrow> evidence \<Rightarrow> 'd \<Rightarrow> 'd result" where
  "put_evidence B t e d = bk_put B d (bucket t ''evidence'') (e_ID e) (marshal_evidence e)"

definition put_batch :: "'d bolt \<Rightarrow> path \<Rightarrow> gostring \<Rightarrow> frozen_batch \<Rightarrow> 'd \<Rightarrow> 'd result" where
  "put_batch B t ident b d = bk_put B d (bucket t ''batches'') ident (marshal_batch b)"

definition stored_evidence :: "'d bolt \<Rightarrow> 'd \<Rightarrow> path \<Rightarrow> gostring \<Rightarrow> evidence result" where
  "stored_evidence B d t ident =
     bindE (decode unmarshal_evidence (bk_get B d (bucket t ''evidence'') ident)) (\<lambda>e.
       if e_ID e \<noteq> ident \<or> \<not> validID ident \<or> e_Sequence e = 0 \<or> \<not> validSource (e_Source e)
       then Inl (Sent ErrCorrupt)
       else case Compute (e_Witness e) of Inl _ \<Rightarrow> Inl (Sent ErrCorrupt) | Inr _ \<Rightarrow> Inr e)"

definition frozen :: "'d bolt \<Rightarrow> 'd \<Rightarrow> path \<Rightarrow> gostring \<Rightarrow> frozen_batch result" where
  "frozen B d t ident =
     bindE (decode unmarshal_batch (bk_get B d (bucket t ''batches'') ident)) (\<lambda>b.
       let b = (if f_SubmissionState b = [] then b\<lparr>f_SubmissionState := SubmissionNotSubmitted\<rparr> else b)
       in case Parse_manifest (f_Manifest b) of
            Inl _ \<Rightarrow> Inl (Sent ErrCorrupt)
          | Inr m \<Rightarrow>
              if f_ID b \<noteq> ident \<or> \<not> validID ident \<or> f_Limit b < 1 \<or> MaxBatchEntries < f_Limit b
                \<or> f_Limit b < int (length (f_EvidenceIDs b))
                \<or> of_nat (length (f_EvidenceIDs b)) \<noteq> m_Size m
                \<or> \<not> validSubmissionState (f_SubmissionState b)
                \<or> (f_SubmissionRef b \<noteq> [] \<and> \<not> validText (f_SubmissionRef b))
              then Inl (Sent ErrCorrupt)
              else Inr b)"

section \<open>Ingestion\<close>

definition ingest ::
    "'d bolt \<Rightarrow> ingest_request \<Rightarrow> 'd \<Rightarrow> entropy \<Rightarrow> ((evidence \<times> bool) \<times> 'd) result \<times> entropy" where
  "ingest B req d rnd =
     (case tenant B d (i_Tenant req) True of
        Inl err \<Rightarrow> (Inl err, rnd)
      | Inr (t, d) \<Rightarrow>
        let keys = bucket t ''keys''; sources = bucket t ''sources'';
            sk = sourceKey (i_Source req) (w_Representation (i_Witness req)) in
        case (case bk_get B d keys (i_Key req) of
                Some ident \<Rightarrow> Some ident
              | None \<Rightarrow> bk_get B d sources sk) of
          Some ident \<Rightarrow>
            (bindE (stored_evidence B d t ident) (\<lambda>e.
               if e_Source e \<noteq> i_Source req \<or> e_Witness e \<noteq> i_Witness req
               then Inl (Sent ErrConflict)
               else bindE (bk_put B d keys (i_Key req) (e_ID e)) (\<lambda>d. Inr ((e, False), d))), rnd)
        | None \<Rightarrow>
            let records = bucket t ''evidence'' in
            (case newID (bk_get B d records) rnd of
               (Inl err, rnd) \<Rightarrow> (Inl err, rnd)
             | (Inr idString, rnd) \<Rightarrow>
                 ((case bk_next B d records of
                     Inl _ \<Rightarrow> Inl (Sent ErrCorrupt)
                   | Inr (sequence, d) \<Rightarrow>
                       if sequence = 0 then Inl (Sent ErrCorrupt)
                       else
                         let e = \<lparr>e_ID = idString, e_Sequence = sequence, e_Source = i_Source req,
                                  e_Witness = i_Witness req, e_BatchID = [], e_Index = 0\<rparr> in
                         bindE (put_evidence B t e d) (\<lambda>d.
                         bindE (bk_put B d keys (i_Key req) (e_ID e)) (\<lambda>d.
                         bindE (bk_put B d sources sk (e_ID e)) (\<lambda>d.
                         bindE (bk_put B d (bucket t ''pending'') (sequenceKey sequence) (e_ID e))
                           (\<lambda>d. Inr ((e, True), d)))))), rnd)))"

text \<open>A transaction whose function also consumes entropy.\<close>

definition Update_rnd ::
    "'d bolt \<Rightarrow> ('d \<Rightarrow> entropy \<Rightarrow> ('a \<times> 'd) result \<times> entropy) \<Rightarrow> 'd \<Rightarrow> entropy \<Rightarrow>
     'a result \<times> 'd \<times> entropy" where
  "Update_rnd B f d rnd =
     (case bk_begin B d of
        Some err \<Rightarrow> (Inl err, d, rnd)
      | None \<Rightarrow>
          let (r, rnd') = f d rnd; (r', d') = Update B (\<lambda>_. r) d in (r', d', rnd'))"

definition Ingest ::
    "'d bolt \<Rightarrow> ingest_request \<Rightarrow> 'd \<Rightarrow> entropy \<Rightarrow> (evidence \<times> bool) result \<times> 'd \<times> entropy" where
  "Ingest B req d rnd =
     (if \<not> validText (i_Tenant req) \<or> \<not> validText (i_Key req) \<or> \<not> validSource (i_Source req)
      then (Inl (Sent ErrInvalid), d, rnd)
      else case Compute (i_Witness req) of
          Inl _ \<Rightarrow> (Inl (Sent ErrInvalid), d, rnd)
        | Inr _ \<Rightarrow> Update_rnd B (ingest B req) d rnd)"

text \<open>\<^verbatim>\<open>find\<close>: the record of a key or of a source version, \<open>None\<close> when there is none.\<close>

definition find_evidence ::
    "'d bolt \<Rightarrow> gostring \<Rightarrow> gostring \<Rightarrow> source \<Rightarrow> u8 \<Rightarrow> 'd \<Rightarrow> evidence option result" where
  "find_evidence B tenantID key src rep d =
     bindE
       (View B (\<lambda>d. case tenant B d tenantID False of
            Inl err \<Rightarrow> if errors_is err ErrNotFound then Inr None else Inl err
          | Inr (t, _) \<Rightarrow>
              (case (case bk_get B d (bucket t ''keys'') key of
                       Some ident \<Rightarrow> Some ident
                     | None \<Rightarrow> bk_get B d (bucket t ''sources'') (sourceKey src rep)) of
                 None \<Rightarrow> Inr None
               | Some ident \<Rightarrow> bindE (stored_evidence B d t ident) (\<lambda>e. Inr (Some e)))) d)
       (\<lambda>r. case r of
            None \<Rightarrow> Inr None
          | Some e \<Rightarrow>
              if e_ID e = [] then Inr None
              else if e_Source e \<noteq> src \<or> w_Representation (e_Witness e) \<noteq> rep
              then Inl (Sent ErrConflict)
              else Inr (Some e))"

text \<open>
  \<open>IngestDocument\<close> runs three transactions; \<open>between1\<close> and \<open>between2\<close> are what other callers
  commit before the second and the third.
\<close>

definition IngestDocument ::
    "'d bolt \<Rightarrow> ('d \<Rightarrow> 'd) \<Rightarrow> ('d \<Rightarrow> 'd) \<Rightarrow> document_request \<Rightarrow> 'd \<Rightarrow> entropy \<Rightarrow>
     (evidence \<times> bool) result \<times> 'd \<times> entropy" where
  "IngestDocument B between1 between2 req d rnd =
     (if \<not> validText (d_Tenant req) \<or> \<not> validText (d_Key req) \<or> \<not> validSource (d_Source req)
        \<or> (d_Representation req \<noteq> Original \<and> d_Representation req \<noteq> Derived)
        \<or> d_Document req = None \<or> sint (d_MaxBytes req) < 0 \<or> d_MaxBytes req = max_int64
      then (Inl (Sent ErrInvalid), d, rnd)
      else case find_evidence B (d_Tenant req) (d_Key req) (d_Source req) (d_Representation req) d of
          Inl err \<Rightarrow> (Inl err, d, rnd)
        | Inr (Some existing) \<Rightarrow>
            (case Compute (e_Witness existing) of
               Inl _ \<Rightarrow> (Inl (Sent ErrCorrupt), d, rnd)
             | Inr c \<Rightarrow>
                 (case Verify_commitment (d_Document req) (e_Witness existing) c (d_MaxBytes req) of
                    Some _ \<Rightarrow> (Inl (Sent ErrConflict), d, rnd)
                  | None \<Rightarrow> (Inr (existing, False), d, rnd)))
        | Inr None \<Rightarrow>
            (case New_commitment (d_Document req) (d_Representation req) (d_MaxBytes req) rnd of
               (Inl _, rnd) \<Rightarrow> (Inl (Sent ErrInvalid), d, rnd)
             | (Inr (w, _), rnd) \<Rightarrow>
                 (case Ingest B \<lparr>i_Tenant = d_Tenant req, i_Key = d_Key req,
                     i_Source = d_Source req, i_Witness = w\<rparr> (between1 d) rnd of
                    (Inr r, d, rnd) \<Rightarrow> (Inr r, d, rnd)
                  | (Inl err, d, rnd) \<Rightarrow>
                      if errors_is err ErrConflict then
                        let d = between2 d in
                        (case find_evidence B (d_Tenant req) (d_Key req) (d_Source req)
                            (d_Representation req) d of
                           Inl findErr \<Rightarrow> (Inl findErr, d, rnd)
                         | Inr (Some existing) \<Rightarrow>
                             if w_DocumentDigest (e_Witness existing) = w_DocumentDigest w
                             then (Inr (existing, False), d, rnd)
                             else (Inl (Sent ErrConflict), d, rnd)
                         | Inr None \<Rightarrow> (Inl (Sent ErrConflict), d, rnd))
                      else (Inl err, d, rnd))))"

section \<open>Reading\<close>

definition Store_Evidence :: "'d bolt \<Rightarrow> gostring \<Rightarrow> gostring \<Rightarrow> 'd \<Rightarrow> evidence result" where
  "Store_Evidence B tenantID ident d =
     (if \<not> validText tenantID \<or> \<not> validID ident then Inl (Sent ErrInvalid)
      else View B (\<lambda>d. bindE (tenant B d tenantID False) (\<lambda>(t, _). stored_evidence B d t ident)) d)"

definition Store_Batch :: "'d bolt \<Rightarrow> gostring \<Rightarrow> gostring \<Rightarrow> 'd \<Rightarrow> frozen_batch result" where
  "Store_Batch B tenantID ident d =
     (if \<not> validText tenantID \<or> \<not> validID ident then Inl (Sent ErrInvalid)
      else View B (\<lambda>d. bindE (tenant B d tenantID False) (\<lambda>(t, _). frozen B d t ident)) d)"

section \<open>Freezing batches\<close>

text \<open>
  The loop over the cursor of the pending bucket: at most \<open>n\<close> members with their commitments. A
  nested bucket would have no value, which the code reads as the empty identifier.
\<close>

fun pending_members ::
    "'d bolt \<Rightarrow> 'd \<Rightarrow> path \<Rightarrow> nat \<Rightarrow> (bytes \<times> bytes option) list \<Rightarrow> (evidence \<times> b32) list result" where
  "pending_members B d t 0 entries = Inr []"
| "pending_members B d t (Suc n) [] = Inr []"
| "pending_members B d t (Suc n) ((k, ident) # entries) =
     bindE (stored_evidence B d t (case ident of Some i \<Rightarrow> i | None \<Rightarrow> [])) (\<lambda>e.
       if k \<noteq> sequenceKey (e_Sequence e) \<or> e_BatchID e \<noteq> [] then Inl (Sent ErrCorrupt)
       else case Compute (e_Witness e) of
           Inl _ \<Rightarrow> Inl (Sent ErrCorrupt)
         | Inr c \<Rightarrow>
             bindE (pending_members B d t n entries) (\<lambda>rest. Inr ((e, c) # rest)))"

text \<open>The loop that binds the members to the batch and takes them out of the pending bucket.\<close>

fun bind_members ::
    "'d bolt \<Rightarrow> path \<Rightarrow> gostring \<Rightarrow> nat \<Rightarrow> evidence list \<Rightarrow> 'd \<Rightarrow> (gostring list \<times> 'd) result" where
  "bind_members B t ident i [] d = Inr ([], d)"
| "bind_members B t ident i (e # es) d =
     bindE (put_evidence B t (e\<lparr>e_BatchID := ident, e_Index := of_nat i\<rparr>) d) (\<lambda>d.
     bindE (bk_delete B d (bucket t ''pending'') (sequenceKey (e_Sequence e))) (\<lambda>d.
     bindE (bind_members B t ident (i + 1) es d) (\<lambda>(ids, d). Inr (e_ID e # ids, d))))"

definition freeze ::
    "'d bolt \<Rightarrow> gostring \<Rightarrow> gostring \<Rightarrow> int \<Rightarrow> 'd \<Rightarrow> entropy \<Rightarrow>
     (frozen_batch \<times> 'd) result \<times> entropy" where
  "freeze B tenantID key limit d rnd =
     (case tenant B d tenantID False of
        Inl err \<Rightarrow> (Inl err, rnd)
      | Inr (t, _) \<Rightarrow>
        let keys = bucket t ''batch_keys''; pending = bucket t ''pending'' in
        case bk_get B d keys key of
          Some ident \<Rightarrow>
            (bindE (frozen B d t ident) (\<lambda>b.
               if f_Limit b \<noteq> limit then Inl (Sent ErrConflict) else Inr (b, d)), rnd)
        | None \<Rightarrow>
            (case pending_members B d t (nat limit) (bk_entries B d pending) of
               Inl err \<Rightarrow> (Inl err, rnd)
             | Inr members \<Rightarrow>
                 if members = [] then (Inl (Sent ErrEmpty), rnd)
                 else case bindE (New_manifest (map snd members)) MarshalBinary_manifest of
                     Inl err \<Rightarrow> (Inl err, rnd)
                   | Inr manifest \<Rightarrow>
                       (case newID (bk_get B d (bucket t ''batches'')) rnd of
                          (Inl err, rnd) \<Rightarrow> (Inl err, rnd)
                        | (Inr ident, rnd) \<Rightarrow>
                            (bindE (bind_members B t ident 0 (map fst members) d) (\<lambda>(ids, d).
                               let b = \<lparr>f_ID = ident, f_Limit = limit, f_EvidenceIDs = ids,
                                        f_Manifest = manifest,
                                        f_SubmissionState = SubmissionNotSubmitted,
                                        f_SubmissionRef = []\<rparr> in
                               bindE (put_batch B t ident b d) (\<lambda>d.
                               bindE (bk_put B d keys key ident) (\<lambda>d.
                               bindE (bk_put B d (bucket t ''outbox'') ident manifest) (\<lambda>d.
                               Inr (b, d))))), rnd))))"

definition Freeze ::
    "'d bolt \<Rightarrow> gostring \<Rightarrow> gostring \<Rightarrow> int \<Rightarrow> 'd \<Rightarrow> entropy \<Rightarrow>
     frozen_batch result \<times> 'd \<times> entropy" where
  "Freeze B tenantID key limit d rnd =
     (if \<not> validText tenantID \<or> \<not> validText key \<or> limit < 1 \<or> MaxBatchEntries < limit
      then (Inl (Sent ErrInvalid), d, rnd)
      else Update_rnd B (freeze B tenantID key limit) d rnd)"

section \<open>Submission\<close>

definition RecordSubmission ::
    "'d bolt \<Rightarrow> gostring \<Rightarrow> gostring \<Rightarrow> gostring \<Rightarrow> gostring \<Rightarrow> 'd \<Rightarrow> frozen_batch result \<times> 'd" where
  "RecordSubmission B tenantID batchID state reference d =
     (if \<not> validText tenantID \<or> \<not> validID batchID \<or> \<not> validSubmissionState state
        \<or> (reference \<noteq> [] \<and> \<not> validText reference)
      then (Inl (Sent ErrInvalid), d)
      else Update B (\<lambda>d.
        bindE (tenant B d tenantID False) (\<lambda>(t, _).
        bindE (frozen B d t batchID) (\<lambda>b.
          if f_SubmissionState b = SubmissionSubmitted \<and> state \<noteq> SubmissionSubmitted
          then Inl (Sent ErrConflict)
          else
            let b = b\<lparr>f_SubmissionState := state, f_SubmissionRef := reference\<rparr>;
                outbox = bucket t ''outbox'' in
            bindE (put_batch B t batchID b d) (\<lambda>d.
            bindE (if state = SubmissionSubmitted then bk_delete B d outbox batchID
                   else bk_put B d outbox batchID (f_Manifest b)) (\<lambda>d. Inr (b, d)))))) d)"

fun outbox_entries ::
    "'d bolt \<Rightarrow> 'd \<Rightarrow> path \<Rightarrow> nat \<Rightarrow> (bytes \<times> bytes option) list \<Rightarrow> submission list result" where
  "outbox_entries B d t 0 entries = Inr []"
| "outbox_entries B d t (Suc n) [] = Inr []"
| "outbox_entries B d t (Suc n) ((ident, value) # entries) =
     (let payload = (case value of Some p \<Rightarrow> p | None \<Rightarrow> []) in
      bindE (frozen B d t ident) (\<lambda>b.
        if payload \<noteq> f_Manifest b then Inl (Sent ErrCorrupt)
        else bindE (outbox_entries B d t n entries) (\<lambda>rest.
          Inr (\<lparr>o_BatchID = ident, o_Manifest = payload, o_State = f_SubmissionState b,
                o_Ref = f_SubmissionRef b\<rparr> # rest))))"

definition Outbox :: "'d bolt \<Rightarrow> gostring \<Rightarrow> int \<Rightarrow> 'd \<Rightarrow> submission list result" where
  "Outbox B tenantID limit d =
     (if \<not> validText tenantID \<or> limit < 1 \<or> MaxBatchEntries < limit then Inl (Sent ErrInvalid)
      else View B (\<lambda>d. bindE (tenant B d tenantID False) (\<lambda>(t, _).
        outbox_entries B d t (nat limit) (bk_entries B d (bucket t ''outbox'')))) d)"

section \<open>Export\<close>

text \<open>The loop over the members of a batch; \<open>i\<close> is the index of the first one.\<close>

fun member_entries ::
    "'d bolt \<Rightarrow> 'd \<Rightarrow> path \<Rightarrow> gostring \<Rightarrow> nat \<Rightarrow> gostring list \<Rightarrow> bytes list result" where
  "member_entries B d t batchID i [] = Inr []"
| "member_entries B d t batchID i (memberID # ids) =
     bindE (stored_evidence B d t memberID) (\<lambda>member.
       if e_BatchID member \<noteq> batchID \<or> e_Index member \<noteq> of_nat i then Inl (Sent ErrCorrupt)
       else case Compute (e_Witness member) of
           Inl _ \<Rightarrow> Inl (Sent ErrCorrupt)
         | Inr c \<Rightarrow>
             bindE (member_entries B d t batchID (i + 1) ids) (\<lambda>rest. Inr (b32_bytes c # rest)))"

definition UnanchoredPackage :: "'d bolt \<Rightarrow> gostring \<Rightarrow> gostring \<Rightarrow> 'd \<Rightarrow> package result" where
  "UnanchoredPackage B tenantID ident d =
     (if \<not> validText tenantID \<or> \<not> validID ident then Inl (Sent ErrInvalid)
      else View B (\<lambda>d.
        bindE (tenant B d tenantID False) (\<lambda>(t, _).
        bindE (stored_evidence B d t ident) (\<lambda>e.
          if e_BatchID e = [] then Inl (Sent ErrNotBatched)
          else bindE (frozen B d t (e_BatchID e)) (\<lambda>b.
            if of_nat (length (f_EvidenceIDs b)) \<le> e_Index e
               \<or> f_EvidenceIDs b ! unat (e_Index e) \<noteq> ident
            then Inl (Sent ErrCorrupt)
            else bindE (member_entries B d t (f_ID b) 0 (f_EvidenceIDs b)) (\<lambda>entries.
              case Parse_manifest (f_Manifest b) of
                Inl _ \<Rightarrow> Inl (Sent ErrCorrupt)
              | Inr m \<Rightarrow>
                  if Root entries \<noteq> m_Root m then Inl (Sent ErrCorrupt)
                  else bindE (Path entries (e_Index e)) (\<lambda>path.
                    Inr \<lparr>p_Witness = e_Witness e, p_Manifest = m, p_Index = e_Index e,
                         p_Path = path\<rparr>)))))) d)"

section \<open>Opening\<close>

text \<open>
  The transaction of \<^verbatim>\<open>Open\<close>: it accepts a database of schema version 1, refuses every other
  schema and every foreign database unchanged, and sets up an empty one. What comes before it in
  \<^verbatim>\<open>Open\<close>, the checks of the file and the lock, is in \<open>Storage_Open\<close>.
\<close>

definition schema_path :: path where
  "schema_path = [ascii ''schema'']"

definition open_schema :: "'d bolt \<Rightarrow> 'd \<Rightarrow> unit result \<times> 'd" where
  "open_schema B d =
     Update B (\<lambda>d.
       if bk_exists B d schema_path then
         if bk_get B d schema_path (ascii ''version'') \<noteq> Some [1] \<or> \<not> bk_exists B d tenants_path
         then Inl (New ''unsupported storage schema'')
         else Inr ((), d)
       else if bk_entries B d [] \<noteq> [] then Inl (New ''refusing to initialize foreign database'')
       else
         bindE (bk_create B d [] (ascii ''schema'')) (\<lambda>d.
         bindE (bk_put B d schema_path (ascii ''version'') [1]) (\<lambda>d.
         bindE (bk_create B d [] (ascii ''tenants'')) (\<lambda>d. Inr ((), d))))) d"

end
