(* ===== verification/Storage_View.thy ===== *)
theory Storage_View
  imports Storage
begin

text \<open>
  What the database means to the store: the view of a tenant collects its readable records, its
  indexes and its sequence counter. The lemmas say what every single write does to the view of its
  tenant, that it leaves the views of all other tenants alone, and what opening a tenant does.
\<close>

section \<open>Views\<close>

record tview =
  v_evidence :: "gostring \<Rightarrow> evidence result"
  v_batch :: "gostring \<Rightarrow> frozen_batch result"
  v_keys :: "bytes \<Rightarrow> bytes option"
  v_sources :: "bytes \<Rightarrow> bytes option"
  v_pending :: "bytes \<Rightarrow> bytes option"
  v_batch_keys :: "bytes \<Rightarrow> bytes option"
  v_outbox :: "bytes \<Rightarrow> bytes option"
  v_seq :: u64

definition view :: "'d bolt \<Rightarrow> 'd \<Rightarrow> gostring \<Rightarrow> tview" where
  "view B d name =
     \<lparr>v_evidence = stored_evidence B d (tenant_path name), v_batch = frozen B d (tenant_path name),
      v_keys = bk_get B d (bucket (tenant_path name) ''keys''),
      v_sources = bk_get B d (bucket (tenant_path name) ''sources''),
      v_pending = bk_get B d (bucket (tenant_path name) ''pending''),
      v_batch_keys = bk_get B d (bucket (tenant_path name) ''batch_keys''),
      v_outbox = bk_get B d (bucket (tenant_path name) ''outbox''),
      v_seq = bk_sequence B d (bucket (tenant_path name) ''evidence'')\<rparr>"

lemma view_sel [simp]:
  "v_evidence (view B d n) = stored_evidence B d (tenant_path n)"
  "v_batch (view B d n) = frozen B d (tenant_path n)"
  "v_keys (view B d n) = bk_get B d (bucket (tenant_path n) ''keys'')"
  "v_sources (view B d n) = bk_get B d (bucket (tenant_path n) ''sources'')"
  "v_pending (view B d n) = bk_get B d (bucket (tenant_path n) ''pending'')"
  "v_batch_keys (view B d n) = bk_get B d (bucket (tenant_path n) ''batch_keys'')"
  "v_outbox (view B d n) = bk_get B d (bucket (tenant_path n) ''outbox'')"
  "v_seq (view B d n) = bk_sequence B d (bucket (tenant_path n) ''evidence'')"
  by (simp_all add: view_def)

definition empty_view :: tview where
  "empty_view = \<lparr>v_evidence = (\<lambda>_. Inl (Sent ErrNotFound)), v_batch = (\<lambda>_. Inl (Sent ErrNotFound)),
     v_keys = (\<lambda>_. None), v_sources = (\<lambda>_. None), v_pending = (\<lambda>_. None),
     v_batch_keys = (\<lambda>_. None), v_outbox = (\<lambda>_. None), v_seq = 0\<rparr>"

lemma bucket_eq [simp]:
  "bucket (tenant_path a) x = bucket (tenant_path b) y \<longleftrightarrow> a = b \<and> ascii x = ascii y"
  by (auto simp: bucket_def tenant_path_def tenants_path_def)

lemma bucket_names [simp]:
  "bucket (tenant_path a) x \<noteq> tenants_path" "bucket (tenant_path a) x \<noteq> tenant_path b"
  "tenant_path b \<noteq> bucket (tenant_path a) x" "tenant_path a \<noteq> tenants_path"
  "tenants_path \<noteq> bucket (tenant_path a) x" "tenants_path \<noteq> tenant_path a"
  by (auto simp: bucket_def tenant_path_def tenants_path_def)

text \<open>A record is absent exactly when there is nothing under its name.\<close>

lemma stored_evidence_cong:
  "bk_get B d (bucket t ''evidence'') i = bk_get B d' (bucket t' ''evidence'') i \<Longrightarrow>
   stored_evidence B d t i = stored_evidence B d' t' i"
  by (simp add: stored_evidence_def)

lemma frozen_cong:
  "bk_get B d (bucket t ''batches'') i = bk_get B d' (bucket t' ''batches'') i \<Longrightarrow>
   frozen B d t i = frozen B d' t' i"
  by (simp add: frozen_def)

lemma stored_evidence_absent:
  "bk_get B d (bucket t ''evidence'') i = None \<longleftrightarrow> stored_evidence B d t i = Inl (Sent ErrNotFound)"
  by (auto simp: stored_evidence_def decode_def bindE_def split: option.splits sum.splits)

lemma frozen_absent:
  "bk_get B d (bucket t ''batches'') i = None \<longleftrightarrow> frozen B d t i = Inl (Sent ErrNotFound)"
  by (auto simp: frozen_def decode_def bindE_def Let_def split: option.splits sum.splits)

lemma stored_evidence_good:
  "stored_evidence B d t i = Inr e \<Longrightarrow> e_ID e = i \<and> validID i \<and> e_Sequence e \<noteq> 0 \<and>
     validSource (e_Source e) \<and> supported (e_Witness e)"
proof -
  assume "stored_evidence B d t i = Inr e"
  then obtain x where x: "(if e_ID x \<noteq> i \<or> \<not> validID i \<or> e_Sequence x = 0 \<or> \<not> validSource (e_Source x)
       then Inl (Sent ErrCorrupt)
       else case Compute (e_Witness x) of Inl _ \<Rightarrow> Inl (Sent ErrCorrupt) | Inr _ \<Rightarrow> Inr x) = Inr e"
    unfolding stored_evidence_def bindE_eq_Inr by blast
  then obtain c where c: "Compute (e_Witness x) = Inr c"
    by (cases "Compute (e_Witness x)") (auto split: if_splits)
  then have "supported (e_Witness x)" by (simp add: Compute_eq_Inr)
  with x c show ?thesis by (auto split: if_splits)
qed

lemma stored_evidence_put:
  "good_evidence e \<Longrightarrow> bk_get B d (bucket t ''evidence'') (e_ID e) = Some (marshal_evidence e) \<Longrightarrow>
   stored_evidence B d t (e_ID e) = Inr e"
  by (auto simp: stored_evidence_def decode_evidence good_evidence_def Compute_def Encode_supported)

lemma frozen_put:
  assumes "good_batch b" and "bk_get B d (bucket t ''batches'') (f_ID b) = Some (marshal_batch b)"
  shows "frozen B d t (f_ID b) = Inr b"
proof -
  have "f_SubmissionState b \<noteq> []"
    using assms(1) validSubmissionState_text by (auto simp: good_batch_def)
  then show ?thesis
    using assms by (auto simp: frozen_def decode_batch good_batch_def not_less not_le)
qed

lemma validSubmissionState_default [simp]: "validSubmissionState SubmissionNotSubmitted"
  by (simp add: validSubmissionState_def)

lemma frozen_good:
  assumes "frozen B d t i = Inr b"
  shows "f_ID b = i \<and> validID i \<and> 1 \<le> f_Limit b \<and> f_Limit b \<le> MaxBatchEntries \<and>
    int (length (f_EvidenceIDs b)) \<le> f_Limit b \<and>
    (\<exists>m. Parse_manifest (f_Manifest b) = Inr m \<and> of_nat (length (f_EvidenceIDs b)) = m_Size m) \<and>
    validSubmissionState (f_SubmissionState b) \<and>
    (f_SubmissionRef b = [] \<or> validText (f_SubmissionRef b))"
  using assms
  by (auto simp: frozen_def result_simps Let_def not_less not_le split: if_splits sum.splits)

section \<open>What a write does to the views\<close>

context bolt_laws
begin

lemma view_put_evidence:
  assumes "put_evidence B (tenant_path n) e d = Inr d'" and "good_evidence e"
  shows "view B d' m = (if m = n
    then (view B d n)\<lparr>v_evidence := (v_evidence (view B d n))(e_ID e := Inr e)\<rparr> else view B d m)"
proof -
  note put = assms(1) [unfolded put_evidence_def]
  have ev: "stored_evidence B d' (tenant_path k) i =
      (if k = n \<and> i = e_ID e then Inr e else stored_evidence B d (tenant_path k) i)" for k i
    using stored_evidence_put [OF assms(2), of B d' "tenant_path n"]
    by (auto simp: put_get [OF put] intro: stored_evidence_cong)
  have "frozen B d' (tenant_path k) i = frozen B d (tenant_path k) i" for k i
    by (rule frozen_cong) (simp add: put_get [OF put])
  with ev show ?thesis
    by (simp add: view_def fun_eq_iff put_get [OF put] put_sequence [OF put])
qed

lemma view_put_batch:
  assumes "put_batch B (tenant_path n) (f_ID b) b d = Inr d'" and "good_batch b"
  shows "view B d' m = (if m = n
    then (view B d n)\<lparr>v_batch := (v_batch (view B d n))(f_ID b := Inr b)\<rparr> else view B d m)"
proof -
  note put = assms(1) [unfolded put_batch_def]
  have fr: "frozen B d' (tenant_path k) i =
      (if k = n \<and> i = f_ID b then Inr b else frozen B d (tenant_path k) i)" for k i
    using frozen_put [OF assms(2), of B d' "tenant_path n"]
    by (auto simp: put_get [OF put] intro: frozen_cong)
  have "stored_evidence B d' (tenant_path k) i = stored_evidence B d (tenant_path k) i" for k i
    by (rule stored_evidence_cong) (simp add: put_get [OF put])
  with fr show ?thesis
    by (simp add: view_def fun_eq_iff put_get [OF put] put_sequence [OF put])
qed

text \<open>A write to an index leaves the records alone.\<close>

lemma put_index_records:
  assumes "bk_put B d (bucket (tenant_path n) x) k v = Inr d'"
    and "ascii x \<noteq> ascii ''evidence''" "ascii x \<noteq> ascii ''batches''"
  shows "stored_evidence B d' (tenant_path m) = stored_evidence B d (tenant_path m)"
    and "frozen B d' (tenant_path m) = frozen B d (tenant_path m)"
  using assms(2,3)
  by (auto simp: fun_eq_iff put_get [OF assms(1)] intro!: stored_evidence_cong frozen_cong)

lemma delete_index_records:
  assumes "bk_delete B d (bucket (tenant_path n) x) k = Inr d'"
    and "ascii x \<noteq> ascii ''evidence''" "ascii x \<noteq> ascii ''batches''"
  shows "stored_evidence B d' (tenant_path m) = stored_evidence B d (tenant_path m)"
    and "frozen B d' (tenant_path m) = frozen B d (tenant_path m)"
  using assms(2,3)
  by (auto simp: fun_eq_iff delete_get [OF assms(1)] intro!: stored_evidence_cong frozen_cong)

lemma view_put_keys:
  assumes "bk_put B d (bucket (tenant_path n) ''keys'') k v = Inr d'"
  shows "view B d' m =
    (if m = n then (view B d n)\<lparr>v_keys := (v_keys (view B d n))(k \<mapsto> v)\<rparr> else view B d m)"
  using put_index_records [OF assms]
  by (simp add: view_def fun_eq_iff put_get [OF assms] put_sequence [OF assms])

lemma view_put_sources:
  assumes "bk_put B d (bucket (tenant_path n) ''sources'') k v = Inr d'"
  shows "view B d' m =
    (if m = n then (view B d n)\<lparr>v_sources := (v_sources (view B d n))(k \<mapsto> v)\<rparr> else view B d m)"
  using put_index_records [OF assms]
  by (simp add: view_def fun_eq_iff put_get [OF assms] put_sequence [OF assms])

lemma view_put_pending:
  assumes "bk_put B d (bucket (tenant_path n) ''pending'') k v = Inr d'"
  shows "view B d' m =
    (if m = n then (view B d n)\<lparr>v_pending := (v_pending (view B d n))(k \<mapsto> v)\<rparr> else view B d m)"
  using put_index_records [OF assms]
  by (simp add: view_def fun_eq_iff put_get [OF assms] put_sequence [OF assms])

lemma view_put_batch_keys:
  assumes "bk_put B d (bucket (tenant_path n) ''batch_keys'') k v = Inr d'"
  shows "view B d' m = (if m = n
    then (view B d n)\<lparr>v_batch_keys := (v_batch_keys (view B d n))(k \<mapsto> v)\<rparr> else view B d m)"
  using put_index_records [OF assms]
  by (simp add: view_def fun_eq_iff put_get [OF assms] put_sequence [OF assms])

lemma view_put_outbox:
  assumes "bk_put B d (bucket (tenant_path n) ''outbox'') k v = Inr d'"
  shows "view B d' m =
    (if m = n then (view B d n)\<lparr>v_outbox := (v_outbox (view B d n))(k \<mapsto> v)\<rparr> else view B d m)"
  using put_index_records [OF assms]
  by (simp add: view_def fun_eq_iff put_get [OF assms] put_sequence [OF assms])

lemma view_delete_pending:
  assumes "bk_delete B d (bucket (tenant_path n) ''pending'') k = Inr d'"
  shows "view B d' m =
    (if m = n then (view B d n)\<lparr>v_pending := (v_pending (view B d n))(k := None)\<rparr> else view B d m)"
  using delete_index_records [OF assms]
  by (simp add: view_def fun_eq_iff delete_get [OF assms] delete_sequence [OF assms])

lemma view_delete_outbox:
  assumes "bk_delete B d (bucket (tenant_path n) ''outbox'') k = Inr d'"
  shows "view B d' m =
    (if m = n then (view B d n)\<lparr>v_outbox := (v_outbox (view B d n))(k := None)\<rparr> else view B d m)"
  using delete_index_records [OF assms]
  by (simp add: view_def fun_eq_iff delete_get [OF assms] delete_sequence [OF assms])

lemma view_next:
  assumes "bk_next B d (bucket (tenant_path n) ''evidence'') = Inr (s, d')"
  shows "s = v_seq (view B d n) + 1"
    and "view B d' m = (if m = n then (view B d n)\<lparr>v_seq := s\<rparr> else view B d m)"
proof -
  show "s = v_seq (view B d n) + 1"
    using next_sequence [OF assms] by simp
  have "stored_evidence B d' (tenant_path k) = stored_evidence B d (tenant_path k)"
    "frozen B d' (tenant_path k) = frozen B d (tenant_path k)" for k
    by (auto simp: fun_eq_iff next_get [OF assms] intro!: stored_evidence_cong frozen_cong)
  then show "view B d' m = (if m = n then (view B d n)\<lparr>v_seq := s\<rparr> else view B d m)"
    using next_sequence [OF assms] by (simp add: view_def fun_eq_iff next_get [OF assms])
qed

end

section \<open>Opening a tenant\<close>

definition ready :: "'d bolt \<Rightarrow> 'd \<Rightarrow> gostring \<Rightarrow> bool" where
  "ready B d n \<longleftrightarrow> bk_exists B d tenants_path \<and> bk_exists B d (tenant_path n)
     \<and> list_all (\<lambda>x. bk_exists B d (tenant_path n @ [x])) tenantBuckets"

definition flat :: "'d bolt \<Rightarrow> 'd \<Rightarrow> gostring \<Rightarrow> bool" where
  "flat B d n \<longleftrightarrow> (\<forall>x \<in> set tenantBuckets. \<forall>k. \<not> bk_exists B d ((tenant_path n @ [x]) @ [k]))"

lemma tenantBuckets_simps:
  "ascii ''evidence'' \<in> set tenantBuckets" "ascii ''keys'' \<in> set tenantBuckets"
  "ascii ''sources'' \<in> set tenantBuckets" "ascii ''pending'' \<in> set tenantBuckets"
  "ascii ''batches'' \<in> set tenantBuckets" "ascii ''batch_keys'' \<in> set tenantBuckets"
  "ascii ''outbox'' \<in> set tenantBuckets"
  by (simp_all add: tenantBuckets_def)

lemma ready_bucket: "ready B d n \<Longrightarrow> ascii x \<in> set tenantBuckets \<Longrightarrow> bk_exists B d (bucket (tenant_path n) x)"
  by (auto simp: ready_def bucket_def list_all_iff)

lemma flat_bucket:
  "flat B d n \<Longrightarrow> ascii x \<in> set tenantBuckets \<Longrightarrow> \<not> bk_exists B d (bucket (tenant_path n) x @ [k])"
  by (simp add: flat_def bucket_def)

lemma tenant_existing:
  assumes "bk_exists B d (tenant_path n)"
  shows "tenant B d n c = (if ready B d n then Inr (tenant_path n, d) else Inl (Sent ErrCorrupt))"
  using assms by (simp add: tenant_def ready_def Let_def)

lemma tenant_missing:
  assumes "\<not> bk_exists B d (tenant_path n)"
  shows "tenant B d n False =
    Inl (Sent (if bk_exists B d tenants_path then ErrNotFound else ErrCorrupt))"
  using assms by (simp add: tenant_def Let_def)

lemma tenant_readonly [result_simps]:
  "tenant B d n False = Inr r \<longleftrightarrow> ready B d n \<and> r = (tenant_path n, d)"
  by (cases "bk_exists B d (tenant_path n)")
    (auto simp: tenant_existing tenant_missing ready_def)

context bolt_laws
begin

lemma create_all_Inr:
  assumes "create_all B t ns d = Inr d'"
  shows "bk_exists B d' q \<longleftrightarrow> bk_exists B d q \<or> q \<in> (\<lambda>n. t @ [n]) ` set ns"
    and "bk_get B d' q l = (if q \<in> (\<lambda>n. t @ [n]) ` set ns then None else bk_get B d q l)"
    and "bk_sequence B d' q = (if q \<in> (\<lambda>n. t @ [n]) ` set ns then 0 else bk_sequence B d q)"
proof -
  have "bk_exists B d' q = (bk_exists B d q \<or> q \<in> (\<lambda>n. t @ [n]) ` set ns) \<and>
    bk_get B d' q l = (if q \<in> (\<lambda>n. t @ [n]) ` set ns then None else bk_get B d q l) \<and>
    bk_sequence B d' q = (if q \<in> (\<lambda>n. t @ [n]) ` set ns then 0 else bk_sequence B d q)"
    using assms
  proof (induction ns arbitrary: d)
    case (Cons n ns)
    then obtain x where x: "bk_create B d t n = Inr x" and "create_all B t ns x = Inr d'"
      by (auto simp: result_simps)
    from Cons.IH [OF this(2)] create_exists [OF x, of q] create_get [OF x, of q] create_sequence [OF x, of q]
    show ?case by auto
  qed simp
  then show "bk_exists B d' q \<longleftrightarrow> bk_exists B d q \<or> q \<in> (\<lambda>n. t @ [n]) ` set ns"
    "bk_get B d' q l = (if q \<in> (\<lambda>n. t @ [n]) ` set ns then None else bk_get B d q l)"
    "bk_sequence B d' q = (if q \<in> (\<lambda>n. t @ [n]) ` set ns then 0 else bk_sequence B d q)"
    by blast+
qed

lemma tenant_created:
  assumes new: "\<not> bk_exists B d (tenant_path n)" and t: "tenant B d n True = Inr (t, d')"
  shows "t = tenant_path n"
    and "bk_exists B d' q \<longleftrightarrow> bk_exists B d q \<or> q = tenant_path n \<or>
      q \<in> (\<lambda>x. tenant_path n @ [x]) ` set tenantBuckets" (is "?exists q")
    and "ready B d' n" and "flat B d' n"
    and "view B d' m = (if m = n then empty_view else view B d m)"
    and "bk_get B d' tenants_path k = bk_get B d tenants_path k"
proof -
  obtain d1 where c1: "bk_create B d tenants_path n = Inr d1"
    and c2: "create_all B (tenant_path n) tenantBuckets d1 = Inr d'"
    and r: "t = tenant_path n" "list_all (\<lambda>x. bk_exists B d' (tenant_path n @ [x])) tenantBuckets"
    and p: "bk_exists B d tenants_path"
    using assms by (auto simp: tenant_def Let_def result_simps split: if_splits)
  show "t = tenant_path n" by (rule r)
  note create = create_exists [OF c1, folded tenant_path_def] create_get [OF c1, folded tenant_path_def]
    create_sequence [OF c1, folded tenant_path_def]
  note all = create_all_Inr [OF c2]
  show ex: "?exists q" for q by (auto simp: all create)
  show "ready B d' n" using p r by (simp add: ready_def ex)
  have no: "\<not> bk_exists B d (tenant_path n @ q)" for q using new exists_prefix by blast
  show "flat B d' n"
    using no [of "[_, _]"] by (auto simp: flat_def ex)
  show "bk_get B d' tenants_path k = bk_get B d tenants_path k"
    by (auto simp: all create tenant_path_def tenants_path_def)
  have get: "bk_get B d' (bucket (tenant_path m) x) l =
      (if m = n then None else bk_get B d (bucket (tenant_path m) x) l)"
    "bk_sequence B d' (bucket (tenant_path m) x) =
      (if m = n then 0 else bk_sequence B d (bucket (tenant_path m) x))"
    if "ascii x \<in> set tenantBuckets" for m x l
    using that by (auto simp: all create bucket_def tenant_path_def tenants_path_def)
  note get = get [OF tenantBuckets_simps(1)] get [OF tenantBuckets_simps(2)]
    get [OF tenantBuckets_simps(3)] get [OF tenantBuckets_simps(4)] get [OF tenantBuckets_simps(5)]
    get [OF tenantBuckets_simps(6)] get [OF tenantBuckets_simps(7)]
  have "stored_evidence B d' (tenant_path n) i = Inl (Sent ErrNotFound)"
    "frozen B d' (tenant_path n) i = Inl (Sent ErrNotFound)" for i
    by (simp_all add: get flip: stored_evidence_absent frozen_absent)
  moreover have "stored_evidence B d' (tenant_path m) i = stored_evidence B d (tenant_path m) i"
    "frozen B d' (tenant_path m) i = frozen B d (tenant_path m) i" if "m \<noteq> n" for i
    using that by (auto simp: get intro!: stored_evidence_cong frozen_cong)
  ultimately show "view B d' m = (if m = n then empty_view else view B d m)"
    by (auto simp: view_def empty_view_def fun_eq_iff get)
qed

end

end
