(* ===== verification/Storage_Invariant.thy ===== *)
theory Storage_Invariant
  imports Storage_View
begin

text \<open>
  The invariant of the store. \<open>wf_view\<close> relates the records of a tenant to its indexes: every index
  entry points to a record and every record is reachable from the indexes that the operations use,
  pending evidence is exactly the evidence without a batch, the members of a batch point back to
  it and commit to its manifest, and the outbox holds exactly the batches not yet submitted. The
  lemmas show that the four changes the operations make to a view keep it.
\<close>

section \<open>The invariant of a view\<close>

definition commit_of :: "evidence \<Rightarrow> b32" where
  "commit_of e = sha256 (preimage (e_Witness e))"

abbreviation source_key_of :: "evidence \<Rightarrow> bytes" where
  "source_key_of e \<equiv> sourceKey (e_Source e) (w_Representation (e_Witness e))"

definition wf_evidence :: "tview \<Rightarrow> bool" where
  "wf_evidence v \<longleftrightarrow>
     (\<forall>i e. v_evidence v i = Inr e \<longrightarrow> good_evidence e \<and> e_ID e = i \<and> e_Sequence e \<le> v_seq v) \<and>
     (\<forall>i err. v_evidence v i = Inl err \<longrightarrow> err = Sent ErrNotFound) \<and>
     (\<forall>i j e f. v_evidence v i = Inr e \<longrightarrow> v_evidence v j = Inr f \<longrightarrow>
        e_Sequence e = e_Sequence f \<longrightarrow> i = j)"

definition wf_index :: "tview \<Rightarrow> bool" where
  "wf_index v \<longleftrightarrow>
     (\<forall>k i. v_keys v k = Some i \<longrightarrow> (\<exists>e. v_evidence v i = Inr e)) \<and>
     (\<forall>k i. v_sources v k = Some i \<longleftrightarrow> (\<exists>e. v_evidence v i = Inr e \<and> k = source_key_of e)) \<and>
     (\<forall>k i. v_pending v k = Some i \<longleftrightarrow>
        (\<exists>e. v_evidence v i = Inr e \<and> e_BatchID e = [] \<and> k = sequenceKey (e_Sequence e)))"

definition members_of :: "tview \<Rightarrow> frozen_batch \<Rightarrow> evidence list \<Rightarrow> bool" where
  "members_of v b es \<longleftrightarrow>
     list_all2 (\<lambda>i e. v_evidence v i = Inr e) (f_EvidenceIDs b) es \<and>
     (\<forall>j < length es. e_BatchID (es ! j) = f_ID b \<and> e_Index (es ! j) = of_nat j) \<and>
     f_Manifest b = manifest_bytes (manifest_of (map commit_of es))"

definition wf_batch :: "tview \<Rightarrow> bool" where
  "wf_batch v \<longleftrightarrow>
     (\<forall>i b. v_batch v i = Inr b \<longrightarrow> good_batch b \<and> f_ID b = i \<and> (\<exists>es. members_of v b es)) \<and>
     (\<forall>i err. v_batch v i = Inl err \<longrightarrow> err = Sent ErrNotFound) \<and>
     (\<forall>i e. v_evidence v i = Inr e \<longrightarrow> e_BatchID e \<noteq> [] \<longrightarrow>
        (\<exists>b. v_batch v (e_BatchID e) = Inr b \<and> unat (e_Index e) < length (f_EvidenceIDs b) \<and>
             f_EvidenceIDs b ! unat (e_Index e) = i)) \<and>
     (\<forall>k i. v_batch_keys v k = Some i \<longrightarrow> (\<exists>b. v_batch v i = Inr b)) \<and>
     (\<forall>i m. v_outbox v i = Some m \<longleftrightarrow>
        (\<exists>b. v_batch v i = Inr b \<and> f_SubmissionState b \<noteq> SubmissionSubmitted \<and> m = f_Manifest b))"

definition wf_view :: "tview \<Rightarrow> bool" where
  "wf_view v \<longleftrightarrow> wf_evidence v \<and> wf_index v \<and> wf_batch v"

text \<open>The parts of the invariant, as rules.\<close>

lemma wf_evidenceD:
  assumes "wf_view v" and "v_evidence v i = Inr e"
  shows "good_evidence e" "e_ID e = i" "e_Sequence e \<le> v_seq v"
  using assms unfolding wf_view_def wf_evidence_def by blast+

lemma wf_absent: "wf_view v \<Longrightarrow> v_evidence v i = Inl err \<Longrightarrow> err = Sent ErrNotFound"
  unfolding wf_view_def wf_evidence_def by blast

lemma wf_sequence:
  "wf_view v \<Longrightarrow> v_evidence v i = Inr e \<Longrightarrow> v_evidence v j = Inr f \<Longrightarrow> e_Sequence e = e_Sequence f \<Longrightarrow> i = j"
  unfolding wf_view_def wf_evidence_def by blast

lemma wf_keys: "wf_view v \<Longrightarrow> v_keys v k = Some i \<Longrightarrow> \<exists>e. v_evidence v i = Inr e"
  unfolding wf_view_def wf_index_def by blast

lemma wf_sources:
  "wf_view v \<Longrightarrow> v_sources v k = Some i \<longleftrightarrow> (\<exists>e. v_evidence v i = Inr e \<and> k = source_key_of e)"
  unfolding wf_view_def wf_index_def by blast

lemma wf_pending:
  "wf_view v \<Longrightarrow> v_pending v k = Some i \<longleftrightarrow>
    (\<exists>e. v_evidence v i = Inr e \<and> e_BatchID e = [] \<and> k = sequenceKey (e_Sequence e))"
  unfolding wf_view_def wf_index_def by blast

lemma wf_batchD:
  assumes "wf_view v" and "v_batch v i = Inr b"
  shows "good_batch b" "f_ID b = i" "\<exists>es. members_of v b es"
  using assms unfolding wf_view_def wf_batch_def by blast+

lemma wf_batch_absent: "wf_view v \<Longrightarrow> v_batch v i = Inl err \<Longrightarrow> err = Sent ErrNotFound"
  unfolding wf_view_def wf_batch_def by blast

lemma wf_batched:
  "wf_view v \<Longrightarrow> v_evidence v i = Inr e \<Longrightarrow> e_BatchID e \<noteq> [] \<Longrightarrow>
   \<exists>b. v_batch v (e_BatchID e) = Inr b \<and> unat (e_Index e) < length (f_EvidenceIDs b) \<and>
     f_EvidenceIDs b ! unat (e_Index e) = i"
  unfolding wf_view_def wf_batch_def by blast

lemma wf_batch_keys: "wf_view v \<Longrightarrow> v_batch_keys v k = Some i \<Longrightarrow> \<exists>b. v_batch v i = Inr b"
  unfolding wf_view_def wf_batch_def by blast

lemma wf_outbox:
  "wf_view v \<Longrightarrow> v_outbox v i = Some m \<longleftrightarrow>
    (\<exists>b. v_batch v i = Inr b \<and> f_SubmissionState b \<noteq> SubmissionSubmitted \<and> m = f_Manifest b)"
  unfolding wf_view_def wf_batch_def by blast

lemma wf_view_empty [simp]: "wf_view empty_view"
  by (simp add: wf_view_def wf_evidence_def wf_index_def wf_batch_def empty_view_def)

text \<open>Evidence is determined by its source and representation.\<close>

lemma wf_source_unique:
  assumes "wf_view v" "v_evidence v i = Inr e" "v_evidence v j = Inr f" "source_key_of e = source_key_of f"
  shows "i = j"
  using wf_sources [OF assms(1), of "source_key_of e"] assms(2-4) by (metis option.inject)

section \<open>The changes\<close>

text \<open>New evidence, with its entries in the three indexes.\<close>

definition add_evidence :: "evidence \<Rightarrow> gostring \<Rightarrow> tview \<Rightarrow> tview" where
  "add_evidence e key v = v\<lparr>
     v_seq := e_Sequence e,
     v_evidence := (v_evidence v)(e_ID e := Inr e),
     v_keys := (v_keys v)(key \<mapsto> e_ID e),
     v_sources := (v_sources v)(source_key_of e \<mapsto> e_ID e),
     v_pending := (v_pending v)(sequenceKey (e_Sequence e) \<mapsto> e_ID e)\<rparr>"

lemma sequenceKey_inject [simp]: "sequenceKey a = sequenceKey b \<longleftrightarrow> a = b"
  by (simp add: sequenceKey_def)

lemma less_succ: "(w :: u64) + 1 \<noteq> 0 \<Longrightarrow> w < w + 1"
  using unatSuc [of w] by (simp add: word_less_nat_alt add.commute)

lemma wf_add_evidence:
  assumes wf_view: "wf_view v" and new: "v_evidence v (e_ID e) = Inl (Sent ErrNotFound)"
    and e: "good_evidence e" "e_BatchID e = []" "e_Sequence e = v_seq v + 1"
    and src: "v_sources v (source_key_of e) = None"
  shows "wf_view (add_evidence e key v)"
proof -
  let ?v = "add_evidence e key v"
  have seq: "f \<in> {f. \<exists>i. v_evidence v i = Inr f} \<Longrightarrow> e_Sequence f < e_Sequence e" for f
    using wf_evidenceD(3) [OF wf_view] less_succ [of "v_seq v"] e(1,3)
    by (fastforce simp: good_evidence_def intro: le_less_trans)
  then have seq': "e_Sequence f < e_Sequence e" if "v_evidence v i = Inr f" for i f using that by blast
  have ev: "v_evidence ?v i = (if i = e_ID e then Inr e else v_evidence v i)" for i
    by (simp add: add_evidence_def)
  have "wf_evidence ?v" unfolding wf_evidence_def ev
  proof (intro conjI; intro allI impI)
    fix i f assume f: "(if i = e_ID e then Inr e else v_evidence v i) = Inr f"
    show "good_evidence f \<and> e_ID f = i \<and> e_Sequence f \<le> v_seq ?v"
    proof (cases "i = e_ID e")
      case False
      then show ?thesis using f wf_evidenceD [OF wf_view, of i f] seq' [of i f]
        by (simp add: add_evidence_def)
    qed (use f e in \<open>simp add: add_evidence_def\<close>)
  next
    fix i err assume "(if i = e_ID e then Inr e else v_evidence v i) = Inl err"
    then show "err = Sent ErrNotFound" using wf_absent [OF wf_view] by (auto split: if_splits)
  next
    fix i j f g
    assume "(if i = e_ID e then Inr e else v_evidence v i) = Inr f"
      "(if j = e_ID e then Inr e else v_evidence v j) = Inr g" "e_Sequence f = e_Sequence g"
    then show "i = j" using seq' wf_sequence [OF wf_view, of i f j g] by (fastforce split: if_splits)
  qed
  moreover have "wf_index ?v" unfolding wf_index_def ev
  proof (intro conjI; intro allI impI)
    fix k i assume "v_keys ?v k = Some i"
    then show "\<exists>f. (if i = e_ID e then Inr e else v_evidence v i) = Inr f"
      using wf_keys [OF wf_view, of k i] by (auto simp: add_evidence_def split: if_splits)
  next
    fix k i
    show "v_sources ?v k = Some i \<longleftrightarrow>
        (\<exists>f. (if i = e_ID e then Inr e else v_evidence v i) = Inr f \<and> k = source_key_of f)"
      using src new wf_sources [OF wf_view, of k i] wf_sources [OF wf_view, of k "e_ID e"]
      by (auto simp: add_evidence_def)
  next
    fix k i
    have "sequenceKey (e_Sequence e) \<noteq> sequenceKey (e_Sequence f)" if "v_evidence v i = Inr f" for f
      using seq' [OF that] by auto
    then show "v_pending ?v k = Some i \<longleftrightarrow>
        (\<exists>f. (if i = e_ID e then Inr e else v_evidence v i) = Inr f \<and> e_BatchID f = []
          \<and> k = sequenceKey (e_Sequence f))"
      using new e(2) wf_pending [OF wf_view, of k i] wf_pending [OF wf_view, of k "e_ID e"]
      by (auto simp: add_evidence_def)
  qed
  moreover have "wf_batch ?v"
  proof -
    have "v_evidence ?v i = Inr f" if "v_evidence v i = Inr f" for i f
      using that new by (auto simp: ev)
    then have "members_of ?v b es" if "members_of v b es" for b es
      using that by (auto simp: members_of_def intro: list_all2_mono)
    then have "good_batch b \<and> f_ID b = i \<and> (\<exists>es. members_of ?v b es)" if "v_batch v i = Inr b" for i b
      using wf_batchD [OF wf_view that] by blast
    moreover have "v_batch ?v = v_batch v" "v_batch_keys ?v = v_batch_keys v" "v_outbox ?v = v_outbox v"
      by (simp_all add: add_evidence_def)
    ultimately show ?thesis
      using wf_batch_absent [OF wf_view] wf_batched [OF wf_view] wf_batch_keys [OF wf_view] wf_outbox [OF wf_view] e(2)
      unfolding wf_batch_def ev by auto
  qed
  ultimately show ?thesis by (simp add: wf_view_def)
qed

text \<open>A further key for existing evidence.\<close>

lemma wf_set_key:
  assumes "wf_view v" and "v_evidence v i = Inr e"
  shows "wf_view (v\<lparr>v_keys := (v_keys v)(key \<mapsto> i)\<rparr>)"
  using assms by (auto simp: wf_view_def wf_evidence_def wf_index_def wf_batch_def members_of_def)

text \<open>
  Freezing: the members get the batch and their index, leave the pending index, and the batch
  enters the batch records, the batch keys and the outbox.
\<close>

definition bound_to :: "gostring \<Rightarrow> nat \<Rightarrow> evidence \<Rightarrow> evidence" where
  "bound_to ident i e = e\<lparr>e_BatchID := ident, e_Index := of_nat i\<rparr>"

lemma bound_to_sel [simp]:
  "e_ID (bound_to ident i e) = e_ID e" "e_Sequence (bound_to ident i e) = e_Sequence e"
  "e_Source (bound_to ident i e) = e_Source e" "e_Witness (bound_to ident i e) = e_Witness e"
  "e_BatchID (bound_to ident i e) = ident" "e_Index (bound_to ident i e) = of_nat i"
  "commit_of (bound_to ident i e) = commit_of e"
  by (simp_all add: bound_to_def commit_of_def)

fun bind_view :: "gostring \<Rightarrow> nat \<Rightarrow> evidence list \<Rightarrow> tview \<Rightarrow> tview" where
  "bind_view ident i [] v = v"
| "bind_view ident i (e # es) v =
     bind_view ident (i + 1) es
       (v\<lparr>v_evidence := (v_evidence v)(e_ID e := Inr (bound_to ident i e)),
          v_pending := (v_pending v)(sequenceKey (e_Sequence e) := None)\<rparr>)"

definition freeze_view :: "frozen_batch \<Rightarrow> gostring \<Rightarrow> evidence list \<Rightarrow> tview \<Rightarrow> tview" where
  "freeze_view b key es v =
     (let v = bind_view (f_ID b) 0 es v in
      v\<lparr>v_batch := (v_batch v)(f_ID b := Inr b), v_batch_keys := (v_batch_keys v)(key \<mapsto> f_ID b),
        v_outbox := (v_outbox v)(f_ID b \<mapsto> f_Manifest b)\<rparr>)"

lemma bind_view_other:
  "v_batch (bind_view ident i es v) = v_batch v" "v_keys (bind_view ident i es v) = v_keys v"
  "v_sources (bind_view ident i es v) = v_sources v"
  "v_batch_keys (bind_view ident i es v) = v_batch_keys v"
  "v_outbox (bind_view ident i es v) = v_outbox v" "v_seq (bind_view ident i es v) = v_seq v"
  by (induction es arbitrary: i v) simp_all

lemma bind_view_pending:
  "v_pending (bind_view ident i es v) k =
    (if k \<in> (\<lambda>e. sequenceKey (e_Sequence e)) ` set es then None else v_pending v k)"
  by (induction es arbitrary: i v) auto

lemma bind_view_evidence_other:
  "x \<notin> e_ID ` set es \<Longrightarrow> v_evidence (bind_view ident i es v) x = v_evidence v x"
  by (induction es arbitrary: i v) auto

lemma bind_view_evidence:
  "distinct (map e_ID es) \<Longrightarrow> j < length es \<Longrightarrow>
   v_evidence (bind_view ident i es v) (e_ID (es ! j)) = Inr (bound_to ident (i + j) (es ! j))"
proof (induction es arbitrary: i j v)
  case (Cons e es)
  show ?case
  proof (cases j)
    case 0
    then show ?thesis using Cons.prems by (simp add: bind_view_evidence_other)
  next
    case (Suc k)
    then show ?thesis using Cons.prems Cons.IH [of k "i + 1"] by simp
  qed
qed simp

text \<open>The evidence after the change: every record keeps all but its place.\<close>

lemma bind_view_cases:
  assumes "distinct (map e_ID es)" and "\<forall>e \<in> set es. v_evidence v (e_ID e) = Inr e"
  obtains (same) "x \<notin> e_ID ` set es" "v_evidence (bind_view ident 0 es v) x = v_evidence v x"
  | (bound) j where "j < length es" "x = e_ID (es ! j)" "v_evidence v x = Inr (es ! j)"
      "v_evidence (bind_view ident 0 es v) x = Inr (bound_to ident j (es ! j))"
proof (cases "x \<in> e_ID ` set es")
  case True
  then obtain j where "j < length es" "x = e_ID (es ! j)" by (auto simp: in_set_conv_nth)
  with bound [of j] bind_view_evidence [OF assms(1), of j ident 0 v] assms(2) show thesis by simp
next
  case False
  with same show thesis by (simp add: bind_view_evidence_other)
qed

lemma wf_freeze_view:
  assumes wf_view: "wf_view v" and dist: "distinct (map e_ID es)"
    and es: "\<forall>e \<in> set es. v_evidence v (e_ID e) = Inr e \<and> e_BatchID e = []"
    and b: "good_batch b" "f_EvidenceIDs b = map e_ID es"
      "f_Manifest b = manifest_bytes (manifest_of (map commit_of es))"
      "f_SubmissionState b = SubmissionNotSubmitted"
    and new: "v_batch v (f_ID b) = Inl (Sent ErrNotFound)"
  shows "wf_view (freeze_view b key es v)"
proof -
  let ?v = "freeze_view b key es v" and ?w = "bind_view (f_ID b) 0 es v"
  have ev: "\<forall>e \<in> set es. v_evidence v (e_ID e) = Inr e" using es by blast
  note place = bind_view_cases [OF dist ev, of _ "f_ID b", case_names same bound]
  have sel: "v_evidence ?v = v_evidence ?w" "v_keys ?v = v_keys v" "v_sources ?v = v_sources v"
    "v_pending ?v = v_pending ?w" "v_seq ?v = v_seq v" "v_batch ?v = (v_batch v)(f_ID b := Inr b)"
    "v_batch_keys ?v = (v_batch_keys v)(key \<mapsto> f_ID b)"
    "v_outbox ?v = (v_outbox v)(f_ID b \<mapsto> f_Manifest b)"
    by (simp_all add: freeze_view_def Let_def bind_view_other)
  have ID: "validID (f_ID b)" using b(1) by (simp add: good_batch_def)
  have orig: "\<exists>e. v_evidence v i = Inr e \<and> e_Sequence f = e_Sequence e \<and> e_Source f = e_Source e
      \<and> e_Witness f = e_Witness e \<and> e_ID f = e_ID e \<and> good_evidence f"
    if "v_evidence ?w i = Inr f" for i f
  proof (cases rule: place [of i, case_names same bound])
    case (bound j)
    then show ?thesis using that wf_evidenceD [OF wf_view bound(3)] ID
      by (auto simp: good_evidence_def)
  next
    case same
    then have "v_evidence v i = Inr f" using that by simp
    then show ?thesis using wf_evidenceD [OF wf_view, of i f] by auto
  qed
  have forth: "\<exists>f. v_evidence ?w i = Inr f \<and> e_Sequence f = e_Sequence e \<and> e_Source f = e_Source e
      \<and> e_Witness f = e_Witness e"
    if "v_evidence v i = Inr e" for i e
    by (cases rule: place [of i, case_names same bound]) (use that in auto)
  have "wf_evidence ?v" unfolding wf_evidence_def sel
  proof (intro conjI; intro allI impI)
    fix i f assume "v_evidence ?w i = Inr f"
    then show "good_evidence f \<and> e_ID f = i \<and> e_Sequence f \<le> v_seq v"
      using orig [of i f] wf_evidenceD [OF wf_view, of i] by fastforce
  next
    fix i err assume "v_evidence ?w i = Inl err"
    then show "err = Sent ErrNotFound"
      using wf_absent [OF wf_view] by (cases rule: place [of i, case_names same bound]) auto
  next
    fix i j e f assume "v_evidence ?w i = Inr e" "v_evidence ?w j = Inr f" "e_Sequence e = e_Sequence f"
    then show "i = j" using orig [of i e] orig [of j f] wf_sequence [OF wf_view] by metis
  qed
  moreover have "wf_index ?v" unfolding wf_index_def sel
  proof (intro conjI; intro allI impI)
    fix k i assume "v_keys v k = Some i"
    then show "\<exists>e. v_evidence ?w i = Inr e" using wf_keys [OF wf_view] forth by blast
  next
    fix k i
    show "v_sources v k = Some i \<longleftrightarrow> (\<exists>e. v_evidence ?w i = Inr e \<and> k = source_key_of e)"
      unfolding wf_sources [OF wf_view] by (rule iffI) (fastforce dest: forth, fastforce dest: orig)
  next
    fix k i
    define K where "K = (\<lambda>e. sequenceKey (e_Sequence e)) ` set es"
    have "k \<in> K \<longleftrightarrow> i \<in> e_ID ` set es"
      if e: "v_evidence v i = Inr e" "k = sequenceKey (e_Sequence e)" for e
    proof
      assume "k \<in> K"
      then obtain f where f: "f \<in> set es" "e_Sequence e = e_Sequence f" using e(2) by (auto simp: K_def)
      then have "i = e_ID f" using wf_sequence [OF wf_view e(1), of "e_ID f" f] ev by blast
      with f(1) show "i \<in> e_ID ` set es" by blast
    next
      assume "i \<in> e_ID ` set es"
      then have "e \<in> set es" using ev e(1) by force
      with e(2) show "k \<in> K" by (auto simp: K_def)
    qed
    moreover have "v_pending ?w k = (if k \<in> K then None else v_pending v k)"
      by (simp add: bind_view_pending K_def)
    ultimately show "v_pending ?w k = Some i \<longleftrightarrow>
        (\<exists>e. v_evidence ?w i = Inr e \<and> e_BatchID e = [] \<and> k = sequenceKey (e_Sequence e))"
      using validID_text(5) [OF ID] wf_pending [OF wf_view, of k i]
      by (cases rule: place [of i, case_names same bound]) auto
  qed
  moreover have "wf_batch ?v" unfolding wf_batch_def sel
  proof (intro conjI; intro allI impI)
    fix i c assume c: "((v_batch v)(f_ID b := Inr b)) i = Inr c"
    show "good_batch c \<and> f_ID c = i \<and> (\<exists>es. members_of ?v c es)"
    proof (cases "i = f_ID b")
      case True
      then have "c = b" using c by simp
      let ?es = "map (\<lambda>j. bound_to (f_ID b) j (es ! j)) [0..<length es]"
      have "list_all2 (\<lambda>i e. v_evidence ?v i = Inr e) (map e_ID es) ?es"
        using bind_view_evidence [OF dist] by (simp add: list_all2_conv_all_nth sel)
      moreover have "map commit_of ?es = map commit_of es"
        by (rule nth_equalityI) simp_all
      ultimately have "members_of ?v b ?es" using b(2,3) by (simp add: members_of_def)
      then show ?thesis using b(1) True \<open>c = b\<close> by blast
    next
      case False
      then have vc: "v_batch v i = Inr c" using c by simp
      obtain cs where cs: "members_of v c cs" using wf_batchD(3) [OF wf_view vc] by blast
      have "v_evidence ?w x = Inr e" if "v_evidence v x = Inr e" "e_BatchID e \<noteq> []" for x e
        by (cases rule: place [of x, case_names same bound]) (use that es in auto)
      moreover have "f_ID c \<noteq> []"
        using wf_batchD(1) [OF wf_view vc] validID_text(5) by (simp add: good_batch_def)
      ultimately have "members_of ?v c cs"
        using cs by (auto simp: members_of_def list_all2_conv_all_nth sel)
      then show ?thesis using wf_batchD [OF wf_view vc] by blast
    qed
  next
    fix i err assume "((v_batch v)(f_ID b := Inr b)) i = Inl err"
    then show "err = Sent ErrNotFound" using wf_batch_absent [OF wf_view, of i] by (auto split: if_splits)
  next
    fix i e assume e: "v_evidence ?w i = Inr e" "e_BatchID e \<noteq> []"
    show "\<exists>c. ((v_batch v)(f_ID b := Inr b)) (e_BatchID e) = Inr c \<and>
        unat (e_Index e) < length (f_EvidenceIDs c) \<and> f_EvidenceIDs c ! unat (e_Index e) = i"
    proof (cases rule: place [of i, case_names same bound])
      case same
      then obtain c where "v_batch v (e_BatchID e) = Inr c" "unat (e_Index e) < length (f_EvidenceIDs c)"
        "f_EvidenceIDs c ! unat (e_Index e) = i"
        using e wf_batched [OF wf_view, of i e] by auto
      then show ?thesis using new by auto
    next
      case (bound j)
      have "length es \<le> 1024" using good_batch_length [OF b(1)] b(2) by simp
      then have "unat (of_nat j :: u64) = j" using bound(1) by (simp add: unat_of_nat)
      then show ?thesis using bound e b(2) by auto
    qed
  next
    fix k i assume "((v_batch_keys v)(key \<mapsto> f_ID b)) k = Some i"
    then show "\<exists>c. ((v_batch v)(f_ID b := Inr b)) i = Inr c"
      using wf_batch_keys [OF wf_view, of k i] by (auto split: if_splits)
  next
    fix i m
    show "((v_outbox v)(f_ID b \<mapsto> f_Manifest b)) i = Some m \<longleftrightarrow>
        (\<exists>c. ((v_batch v)(f_ID b := Inr b)) i = Inr c \<and> f_SubmissionState c \<noteq> SubmissionSubmitted \<and>
          m = f_Manifest c)"
      using wf_outbox [OF wf_view, of i m] b(4)
      by (auto simp: SubmissionNotSubmitted_def SubmissionSubmitted_def)
  qed
  ultimately show ?thesis by (simp add: wf_view_def)
qed

text \<open>A change of the submission state of a batch.\<close>

definition submit_view :: "frozen_batch \<Rightarrow> tview \<Rightarrow> tview" where
  "submit_view b v = v\<lparr>v_batch := (v_batch v)(f_ID b := Inr b),
     v_outbox := (v_outbox v)(f_ID b :=
       (if f_SubmissionState b = SubmissionSubmitted then None else Some (f_Manifest b)))\<rparr>"

lemma wf_submit_view:
  assumes wf_view: "wf_view v" and c: "v_batch v (f_ID b) = Inr c" and b: "good_batch b"
    "f_EvidenceIDs b = f_EvidenceIDs c" "f_Manifest b = f_Manifest c"
  shows "wf_view (submit_view b v)"
proof -
  have ID: "f_ID c = f_ID b" using wf_batchD(2) [OF wf_view c] .
  have sel: "v_evidence (submit_view b v) = v_evidence v" "v_keys (submit_view b v) = v_keys v"
    "v_sources (submit_view b v) = v_sources v" "v_pending (submit_view b v) = v_pending v"
    "v_batch_keys (submit_view b v) = v_batch_keys v" "v_seq (submit_view b v) = v_seq v"
    by (simp_all add: submit_view_def)
  have mem: "members_of (submit_view b v) x es = members_of v x es" for x es
    by (simp add: members_of_def sel)
  have "members_of v b es = members_of v c es" for es
    using b(2,3) ID by (simp add: members_of_def)
  then have "good_batch x \<and> f_ID x = i \<and> (\<exists>es. members_of v x es)"
    if "v_batch (submit_view b v) i = Inr x" for i x
    using that wf_batchD [OF wf_view, of i x] wf_batchD(3) [OF wf_view c] b(1)
    by (auto simp: submit_view_def split: if_splits)
  moreover have "v_batch (submit_view b v) i = Inl err \<Longrightarrow> err = Sent ErrNotFound" for i err
    using wf_batch_absent [OF wf_view] by (auto simp: submit_view_def split: if_splits)
  moreover have "\<exists>y. v_batch (submit_view b v) i = Inr y \<and> f_EvidenceIDs y = f_EvidenceIDs x"
    if "v_batch v i = Inr x" for i x
    using that c b(2) by (auto simp: submit_view_def)
  then have "(\<exists>y. v_batch (submit_view b v) (e_BatchID e) = Inr y \<and>
      unat (e_Index e) < length (f_EvidenceIDs y) \<and> f_EvidenceIDs y ! unat (e_Index e) = i)"
    if "v_evidence v i = Inr e" "e_BatchID e \<noteq> []" for i e
    using wf_batched [OF wf_view that] by metis
  moreover have "\<exists>x. v_batch (submit_view b v) i = Inr x" if "v_batch_keys v k = Some i" for k i
    using wf_batch_keys [OF wf_view that] by (auto simp: submit_view_def)
  moreover have "v_outbox (submit_view b v) i = Some m \<longleftrightarrow>
      (\<exists>x. v_batch (submit_view b v) i = Inr x \<and> f_SubmissionState x \<noteq> SubmissionSubmitted
        \<and> m = f_Manifest x)" for i m
    using wf_outbox [OF wf_view, of i m] by (auto simp: submit_view_def)
  ultimately have "wf_batch (submit_view b v)"
    unfolding wf_batch_def mem sel by blast
  then show ?thesis using wf_view by (simp add: wf_view_def wf_evidence_def wf_index_def sel)
qed

end
