(* ===== verification/Storage_Refine.thy ===== *)
theory Storage_Refine
  imports Storage_Invariant
begin

text \<open>
  The operations of the store refine the changes of views of theory \<open>Storage_Invariant\<close>: a
  successful transaction changes the view of its own tenant as the abstract change says and
  leaves every other tenant alone. \<open>store_ok\<close> is the invariant of the whole store.
\<close>

section \<open>The invariant of the store\<close>

definition store_ok :: "'d bolt \<Rightarrow> 'd \<Rightarrow> bool" where
  "store_ok B d \<longleftrightarrow> bk_exists B d tenants_path \<and> (\<forall>k. bk_get B d tenants_path k = None) \<and>
     (\<forall>n. bk_exists B d (tenant_path n) \<longrightarrow> ready B d n \<and> flat B d n \<and> wf_view (view B d n))"

text \<open>What a tenant has, also when it has no bucket yet.\<close>

definition tenant_view :: "'d bolt \<Rightarrow> 'd \<Rightarrow> gostring \<Rightarrow> tview" where
  "tenant_view B d n = (if bk_exists B d (tenant_path n) then view B d n else empty_view)"

lemma tenant_view_wf: "store_ok B d \<Longrightarrow> wf_view (tenant_view B d n)"
  by (simp add: store_ok_def tenant_view_def)

text \<open>A transaction inside an existing tenant.\<close>

definition changes :: "'d bolt \<Rightarrow> gostring \<Rightarrow> 'd \<Rightarrow> 'd \<Rightarrow> (tview \<Rightarrow> tview) \<Rightarrow> bool" where
  "changes B n d d' f \<longleftrightarrow>
     (\<forall>q. bk_exists B d' q = bk_exists B d q) \<and>
     (\<forall>k. bk_get B d' tenants_path k = bk_get B d tenants_path k) \<and>
     (\<forall>m. view B d' m = (if m = n then f (view B d n) else view B d m))"

lemma changes_trans:
  "changes B n d d1 f \<Longrightarrow> changes B n d1 d2 g \<Longrightarrow> changes B n d d2 (\<lambda>v. g (f v))"
  by (simp add: changes_def)

lemma changes_refl: "changes B n d d (\<lambda>v. v)"
  by (simp add: changes_def)

lemma changes_view: "changes B n d d' f \<Longrightarrow> view B d' n = f (view B d n)"
  by (simp add: changes_def)

lemma changes_store_ok:
  assumes "changes B n d d' f" and "store_ok B d" and "wf_view (f (view B d n))"
  shows "store_ok B d'"
  using assms by (auto simp: changes_def store_ok_def ready_def flat_def list_all_iff)

lemma changes_tenant_view:
  assumes "changes B n d d' f" and "bk_exists B d (tenant_path n)"
  shows "tenant_view B d' m = (if m = n then f (tenant_view B d n) else tenant_view B d m)"
  using assms by (auto simp: changes_def tenant_view_def)

lemma changes_ready: "changes B n d d' f \<Longrightarrow> ready B d' m = ready B d m"
  by (simp add: changes_def ready_def)

context bolt_laws
begin

lemma changes_put_evidence:
  "put_evidence B (tenant_path n) e d = Inr d' \<Longrightarrow> good_evidence e \<Longrightarrow>
   changes B n d d' (\<lambda>v. v\<lparr>v_evidence := (v_evidence v)(e_ID e := Inr e)\<rparr>)"
  using view_put_evidence [of n e d d']
  by (simp add: changes_def put_evidence_def put_exists put_get)

lemma changes_put_batch:
  "put_batch B (tenant_path n) (f_ID b) b d = Inr d' \<Longrightarrow> good_batch b \<Longrightarrow>
   changes B n d d' (\<lambda>v. v\<lparr>v_batch := (v_batch v)(f_ID b := Inr b)\<rparr>)"
  using view_put_batch [of n b d d']
  by (simp add: changes_def put_batch_def put_exists put_get)

lemma changes_put_keys:
  "bk_put B d (bucket (tenant_path n) ''keys'') k v = Inr d' \<Longrightarrow>
   changes B n d d' (\<lambda>w. w\<lparr>v_keys := (v_keys w)(k \<mapsto> v)\<rparr>)"
  using view_put_keys [of d n k v d'] by (simp add: changes_def put_exists put_get)

lemma changes_put_sources:
  "bk_put B d (bucket (tenant_path n) ''sources'') k v = Inr d' \<Longrightarrow>
   changes B n d d' (\<lambda>w. w\<lparr>v_sources := (v_sources w)(k \<mapsto> v)\<rparr>)"
  using view_put_sources [of d n k v d'] by (simp add: changes_def put_exists put_get)

lemma changes_put_pending:
  "bk_put B d (bucket (tenant_path n) ''pending'') k v = Inr d' \<Longrightarrow>
   changes B n d d' (\<lambda>w. w\<lparr>v_pending := (v_pending w)(k \<mapsto> v)\<rparr>)"
  using view_put_pending [of d n k v d'] by (simp add: changes_def put_exists put_get)

lemma changes_delete_pending:
  "bk_delete B d (bucket (tenant_path n) ''pending'') k = Inr d' \<Longrightarrow>
   changes B n d d' (\<lambda>w. w\<lparr>v_pending := (v_pending w)(k := None)\<rparr>)"
  using view_delete_pending [of d n k d'] by (simp add: changes_def delete_exists delete_get)

lemma changes_put_batch_keys:
  "bk_put B d (bucket (tenant_path n) ''batch_keys'') k v = Inr d' \<Longrightarrow>
   changes B n d d' (\<lambda>w. w\<lparr>v_batch_keys := (v_batch_keys w)(k \<mapsto> v)\<rparr>)"
  using view_put_batch_keys [of d n k v d'] by (simp add: changes_def put_exists put_get)

lemma changes_put_outbox:
  "bk_put B d (bucket (tenant_path n) ''outbox'') k v = Inr d' \<Longrightarrow>
   changes B n d d' (\<lambda>w. w\<lparr>v_outbox := (v_outbox w)(k \<mapsto> v)\<rparr>)"
  using view_put_outbox [of d n k v d'] by (simp add: changes_def put_exists put_get)

lemma changes_delete_outbox:
  "bk_delete B d (bucket (tenant_path n) ''outbox'') k = Inr d' \<Longrightarrow>
   changes B n d d' (\<lambda>w. w\<lparr>v_outbox := (v_outbox w)(k := None)\<rparr>)"
  using view_delete_outbox [of d n k d'] by (simp add: changes_def delete_exists delete_get)

lemma changes_next:
  "bk_next B d (bucket (tenant_path n) ''evidence'') = Inr (s, d') \<Longrightarrow>
   s = v_seq (view B d n) + 1 \<and> changes B n d d' (\<lambda>w. w\<lparr>v_seq := s\<rparr>)"
  using view_next [of d n s d'] by (simp add: changes_def next_exists next_get)

section \<open>Opening\<close>

text \<open>Opening a tenant for writing keeps the invariant and all views.\<close>

lemma tenant_opened:
  assumes ok: "store_ok B d" and t: "tenant B d n True = Inr (t, d0)"
  shows "t = tenant_path n" and "store_ok B d0" and "bk_exists B d0 (tenant_path n)"
    and "tenant_view B d0 m = tenant_view B d m" and "view B d0 n = tenant_view B d n"
proof -
  have "t = tenant_path n \<and> store_ok B d0 \<and> bk_exists B d0 (tenant_path n) \<and>
    (\<forall>m. tenant_view B d0 m = tenant_view B d m) \<and> view B d0 n = tenant_view B d n"
  proof (cases "bk_exists B d (tenant_path n)")
    case True
    then show ?thesis using ok t tenant_existing [OF True, of True]
      by (auto simp: store_ok_def tenant_view_def)
  next
    case False
    note new = tenant_created [OF False t]
    have ex: "bk_exists B d0 (tenant_path m) \<longleftrightarrow> m = n \<or> bk_exists B d (tenant_path m)" for m
      by (auto simp: new(2) tenant_path_def tenants_path_def)
    have sub: "bk_exists B d0 (tenant_path m @ [x] @ q) = bk_exists B d (tenant_path m @ [x] @ q)"
      if "m \<noteq> n" for m x q
      using that by (auto simp: new(2) tenant_path_def tenants_path_def)
    have "ready B d0 m \<and> flat B d0 m \<and> wf_view (view B d0 m)" if "bk_exists B d0 (tenant_path m)" for m
    proof (cases "m = n")
      case True
      then show ?thesis using new(3,4,5) by simp
    next
      case False
      have "ready B d m \<and> flat B d m \<and> wf_view (view B d m)"
        using ok that ex [of m] False by (simp add: store_ok_def)
      then show ?thesis
        using False sub [OF False, of _ "[]"] sub [OF False, of _ "[_]"] new(2) [of tenants_path]
          new(5) [of m] ex [of m]
        by (simp add: ready_def flat_def)
    qed
    then have "store_ok B d0"
      using ok new(2,6) by (simp add: store_ok_def)
    then show ?thesis using new(1,5) ex False by (auto simp: tenant_view_def)
  qed
  then show "t = tenant_path n" "store_ok B d0" "bk_exists B d0 (tenant_path n)"
    "tenant_view B d0 m = tenant_view B d m" "view B d0 n = tenant_view B d n" by blast+
qed

end

section \<open>Identifiers\<close>

lemma newID_Inr: "newID get rnd = (Inr i, rnd') \<Longrightarrow> validID i \<and> get i = None"
  by (induction get rnd rule: newID.induct)
    (auto simp: Let_def validID_hex split: if_splits)

lemma Compute_Inr_supported: "Compute w = Inr c \<Longrightarrow> supported w"
  by (simp add: Compute_eq_Inr)

lemma Update_rnd_Inr:
  "Update_rnd B f d rnd = (Inr x, d', rnd') \<longleftrightarrow>
     bk_begin B d = None \<and> f d rnd = (Inr (x, d'), rnd') \<and> bk_commit B d' = None"
  by (auto simp: Update_rnd_def Update_def split: option.splits prod.splits sum.splits)

lemma Update_rnd_Inl: "Update_rnd B f d rnd = (Inl e, d', rnd') \<Longrightarrow> d' = d"
  by (auto simp: Update_rnd_def split: option.splits prod.splits dest: Update_Inl)

section \<open>Ingestion\<close>

text \<open>The evidence that a request finds: by its key, or else by its source version.\<close>

definition located :: "tview \<Rightarrow> ingest_request \<Rightarrow> gostring option" where
  "located v req = (case v_keys v (i_Key req) of
     Some i \<Rightarrow> Some i
   | None \<Rightarrow> v_sources v (sourceKey (i_Source req) (w_Representation (i_Witness req))))"

definition valid_request :: "ingest_request \<Rightarrow> bool" where
  "valid_request req \<longleftrightarrow> validText (i_Tenant req) \<and> validText (i_Key req) \<and>
     validSource (i_Source req) \<and> supported (i_Witness req)"

text \<open>The abstract operation: the outcome of an ingestion on the view of its tenant.\<close>

definition ingest_spec :: "ingest_request \<Rightarrow> tview \<Rightarrow> evidence \<Rightarrow> bool \<Rightarrow> tview \<Rightarrow> bool" where
  "ingest_spec req v e created v' \<longleftrightarrow>
     e_Source e = i_Source req \<and> e_Witness e = i_Witness req \<and>
     (if created then
        located v req = None \<and> v_evidence v (e_ID e) = Inl (Sent ErrNotFound) \<and>
        good_evidence e \<and> e_BatchID e = [] \<and> e_Index e = 0 \<and> e_Sequence e = v_seq v + 1 \<and>
        v' = add_evidence e (i_Key req) v
      else
        located v req = Some (e_ID e) \<and> v_evidence v (e_ID e) = Inr e \<and>
        v' = v\<lparr>v_keys := (v_keys v)(i_Key req \<mapsto> e_ID e)\<rparr>)"

context bolt_laws
begin

lemma ingest_refines:
  assumes ok: "store_ok B d" and req: "valid_request req"
    and run: "ingest B req d rnd = (Inr ((e, created), d'), rnd')"
  shows "store_ok B d' \<and>
    ingest_spec req (tenant_view B d (i_Tenant req)) e created (tenant_view B d' (i_Tenant req)) \<and>
    (\<forall>m. m \<noteq> i_Tenant req \<longrightarrow> tenant_view B d' m = tenant_view B d m)"
proof -
  let ?n = "i_Tenant req" and ?sk = "sourceKey (i_Source req) (w_Representation (i_Witness req))"
  obtain d0 where t: "tenant B d ?n True = Inr (tenant_path ?n, d0)"
    using run tenant_opened(1) [OF ok] by (auto simp: ingest_def split: sum.splits prod.splits)
  note op = tenant_opened [OF ok t]
  let ?v = "view B d0 ?n"
  have wf: "wf_view ?v" using op(2,3) by (simp add: store_ok_def)
  have loc: "located ?v req = (case bk_get B d0 (bucket (tenant_path ?n) ''keys'') (i_Key req) of
      Some i \<Rightarrow> Some i | None \<Rightarrow> bk_get B d0 (bucket (tenant_path ?n) ''sources'') ?sk)"
    by (simp add: located_def cong: option.case_cong)
  have "\<exists>f. changes B ?n d0 d' f \<and> ingest_spec req ?v e created (f ?v) \<and> wf_view (f ?v)"
  proof (cases "located ?v req")
    case (Some i)
    note look = Some [unfolded loc]
    have e: "stored_evidence B d0 (tenant_path ?n) i = Inr e" "e_Source e = i_Source req"
      "e_Witness e = i_Witness req" "\<not> created"
      and put: "bk_put B d0 (bucket (tenant_path ?n) ''keys'') (i_Key req) (e_ID e) = Inr d'"
      using run unfolding ingest_def t Let_def sum.case prod.case look option.case
      by (auto simp: result_simps split: if_splits)
    have i: "e_ID e = i" using stored_evidence_good [OF e(1)] by simp
    from changes_put_keys [OF put] wf_set_key [OF wf, of i e] e i Some show ?thesis
      by (intro exI [of _ "\<lambda>w. w\<lparr>v_keys := (v_keys w)(i_Key req \<mapsto> e_ID e)\<rparr>"])
        (simp add: ingest_spec_def)
  next
    case None
    note look = None [unfolded loc]
    note run' = run [unfolded ingest_def t Let_def sum.case prod.case look option.case]
    obtain i rnd1 where
      new: "newID (bk_get B d0 (bucket (tenant_path ?n) ''evidence'')) rnd = (Inr i, rnd1)"
      using run' by (auto split: sum.splits prod.splits)
    from run' new obtain d1 d2 d3 d4 where i: "i = e_ID e" and
      c: "created" "e = \<lparr>e_ID = e_ID e, e_Sequence = e_Sequence e, e_Source = i_Source req,
            e_Witness = i_Witness req, e_BatchID = [], e_Index = 0\<rparr>" "e_Sequence e \<noteq> 0"
      and nx: "bk_next B d0 (bucket (tenant_path ?n) ''evidence'') = Inr (e_Sequence e, d1)"
      and p1: "put_evidence B (tenant_path ?n) e d1 = Inr d2"
      and p2: "bk_put B d2 (bucket (tenant_path ?n) ''keys'') (i_Key req) (e_ID e) = Inr d3"
      and p3: "bk_put B d3 (bucket (tenant_path ?n) ''sources'') ?sk (e_ID e) = Inr d4"
      and p4: "bk_put B d4 (bucket (tenant_path ?n) ''pending'') (sequenceKey (e_Sequence e))
            (e_ID e) = Inr d'"
      by (auto simp: result_simps split: sum.splits if_splits)
    have e: "e_Source e = i_Source req" "e_Witness e = i_Witness req" "e_BatchID e = []" "e_Index e = 0"
      using c(2) by (metis evidence.select_convs)+
    note id = newID_Inr [OF new [unfolded i]]
    have good: "good_evidence e" using id req e c(3) by (simp add: good_evidence_def valid_request_def)
    have absent: "v_evidence ?v (e_ID e) = Inl (Sent ErrNotFound)"
      using id by (simp flip: stored_evidence_absent)
    have seq: "e_Sequence e = v_seq ?v + 1" using changes_next [OF nx] by simp
    have src: "v_sources ?v (source_key_of e) = None"
      using None e by (simp add: located_def split: option.splits)
    have "changes B ?n d0 d' (add_evidence e (i_Key req))"
      using changes_trans [OF changes_trans [OF changes_trans [OF changes_trans
        [OF conjunct2 [OF changes_next [OF nx]] changes_put_evidence [OF p1 good]]
        changes_put_keys [OF p2]] changes_put_sources [OF p3]] changes_put_pending [OF p4]]
      unfolding add_evidence_def [abs_def] by (simp add: e)
    moreover have "wf_view (add_evidence e (i_Key req) ?v)"
      by (rule wf_add_evidence [OF wf absent good e(3) seq src])
    ultimately show ?thesis
      using None c(1) e good seq absent by (intro exI) (auto simp: ingest_spec_def)
  qed
  then obtain f where f: "changes B ?n d0 d' f" "ingest_spec req ?v e created (f ?v)" "wf_view (f ?v)"
    by blast
  show ?thesis
    using changes_store_ok [OF f(1) op(2) f(3)] changes_tenant_view [OF f(1) op(3)] op(4,5) f(2)
    by simp
qed

end

section \<open>Freezing\<close>

definition pending_evidence :: "tview \<Rightarrow> evidence \<Rightarrow> bool" where
  "pending_evidence v e \<longleftrightarrow> v_evidence v (e_ID e) = Inr e \<and> e_BatchID e = []"

text \<open>The first \<open>n\<close> pieces of pending evidence in the order of their sequence numbers.\<close>

definition fifo :: "tview \<Rightarrow> nat \<Rightarrow> evidence list \<Rightarrow> bool" where
  "fifo v n es \<longleftrightarrow> length es \<le> n \<and> sorted_wrt (<) (map e_Sequence es) \<and>
     (\<forall>e \<in> set es. pending_evidence v e) \<and>
     (\<forall>e. pending_evidence v e \<longrightarrow> e \<notin> set es \<longrightarrow>
        length es = n \<and> (\<forall>f \<in> set es. e_Sequence f < e_Sequence e))"

definition freeze_spec :: "gostring \<Rightarrow> int \<Rightarrow> tview \<Rightarrow> frozen_batch \<Rightarrow> tview \<Rightarrow> bool" where
  "freeze_spec key limit v b v' \<longleftrightarrow>
     (case v_batch_keys v key of
        Some i \<Rightarrow> v_batch v i = Inr b \<and> f_Limit b = limit \<and> v' = v
      | None \<Rightarrow> \<exists>es. es \<noteq> [] \<and> fifo v (nat limit) es \<and>
          v_batch v (f_ID b) = Inl (Sent ErrNotFound) \<and> good_batch b \<and>
          b = \<lparr>f_ID = f_ID b, f_Limit = limit, f_EvidenceIDs = map e_ID es,
               f_Manifest = manifest_bytes (manifest_of (map commit_of es)),
               f_SubmissionState = SubmissionNotSubmitted, f_SubmissionRef = []\<rparr> \<and>
          v' = freeze_view b key es v)"

lemma pending_members_Inr:
  "pending_members B d t n entries = Inr ms \<Longrightarrow>
   list_all2 (\<lambda>(k, v) (e, c). stored_evidence B d t (case v of Some i \<Rightarrow> i | None \<Rightarrow> []) = Inr e \<and>
     k = sequenceKey (e_Sequence e) \<and> e_BatchID e = [] \<and> c = commit_of e) (take n entries) ms"
proof (induction B d t n entries arbitrary: ms rule: pending_members.induct)
  case (3 B d t n k ident entries)
  obtain e where e: "stored_evidence B d t (case ident of Some i \<Rightarrow> i | None \<Rightarrow> []) = Inr e"
    "k = sequenceKey (e_Sequence e)" "e_BatchID e = []"
    using "3.prems" by (auto simp: bindE_eq_Inr split: if_splits)
  have sup: "supported (e_Witness e)" using stored_evidence_good [OF e(1)] by simp
  then have c: "Compute (e_Witness e) = Inr (commit_of e)"
    by (simp add: Compute_def Encode_supported commit_of_def)
  then obtain rest where rest: "pending_members B d t n entries = Inr rest" "ms = (e, commit_of e) # rest"
    using "3.prems" e by (auto simp: bindE_eq_Inr)
  have "\<not> (k \<noteq> sequenceKey (e_Sequence e) \<or> e_BatchID e \<noteq> [])" using e by simp
  from "3.IH" [OF this c rest(1)] e rest(2) show ?case by simp
qed simp_all

lemma fifo_distinct:
  assumes "fifo v n es"
  shows "distinct (map e_ID es)"
proof -
  have "distinct (map e_Sequence es)"
    using assms by (simp add: fifo_def strict_sorted_iff)
  then have "distinct es" by (simp add: distinct_map)
  moreover have "inj_on e_ID (set es)"
  proof (rule inj_onI)
    fix e f assume "e \<in> set es" "f \<in> set es" "e_ID e = e_ID f"
    moreover from this have "v_evidence v (e_ID e) = Inr e" "v_evidence v (e_ID f) = Inr f"
      using assms unfolding fifo_def pending_evidence_def by blast+
    ultimately show "e = f" by (metis sum.inject(2))
  qed
  ultimately show ?thesis by (simp add: distinct_map)
qed

context bolt_laws
begin

lemma pending_members_fifo:
  assumes wf: "wf_view (view B d m)" and flat: "flat B d m"
    and run: "pending_members B d (tenant_path m) n
      (bk_entries B d (bucket (tenant_path m) ''pending'')) = Inr ms"
  shows "fifo (view B d m) n (map fst ms) \<and> map snd ms = map (commit_of \<circ> fst) ms"
proof -
  let ?p = "bucket (tenant_path m) ''pending''" and ?v = "view B d m"
  let ?E = "bk_entries B d ?p"
  have "\<forall>(k, v) \<in> set ?E. v \<noteq> None \<and> bk_get B d ?p k = v"
    by (rule entries_flat) (rule flat_bucket [OF flat tenantBuckets_simps(4)])
  then have some: "\<And>k v. (k, v) \<in> set ?E \<Longrightarrow> \<exists>i. v = Some i" by auto
  note l = pending_members_Inr [OF run]
  then have len: "length ms = min n (length ?E)" by (auto dest!: list_all2_lengthD)
  have nth: "\<exists>i. ?E ! j = (sequenceKey (e_Sequence (fst (ms ! j))), Some i) \<and>
      stored_evidence B d (tenant_path m) i = Inr (fst (ms ! j)) \<and> e_BatchID (fst (ms ! j)) = [] \<and>
      snd (ms ! j) = commit_of (fst (ms ! j))" if j: "j < length ms" for j
  proof -
    obtain k v where kv: "?E ! j = (k, v)" by (cases "?E ! j")
    have "(k, v) \<in> set ?E" using j len kv nth_mem [of j ?E] by simp
    then obtain i where "v = Some i" using some by blast
    then show ?thesis using list_all2_nthD2 [OF l j] j len kv by (auto split: prod.splits)
  qed
  have key: "fst (?E ! j) = sequenceKey (e_Sequence (fst (ms ! j)))" if "j < length ms" for j
    using nth [OF that] by auto
  have sorted: "sequenceKey a < sequenceKey b \<longleftrightarrow> a < b" for a b
    by (simp add: sequenceKey_def put_uint64_less)
  have less: "fst (?E ! i) < fst (?E ! j)" if "i < j" "j < length ?E" for i j
    using sorted_wrt_nth_less [OF entries_sorted [of d ?p], of i j] that by simp
  have "sorted_wrt (<) (map e_Sequence (map fst ms))"
    unfolding sorted_wrt_iff_nth_less
  proof (intro allI impI)
    fix i j assume ij: "i < j" "j < length (map e_Sequence (map fst ms))"
    then have "i < length ms" "j < length ms" "j < length ?E" using len by simp_all
    with less [of i j] key [of i] key [of j] ij
    show "map e_Sequence (map fst ms) ! i < map e_Sequence (map fst ms) ! j" by (simp add: sorted)
  qed
  moreover have pend: "pending_evidence ?v (fst (ms ! j))" if "j < length ms" for j
    using nth [OF that] by (auto simp: pending_evidence_def dest: stored_evidence_good)
  moreover have "length (map fst ms) = n \<and> (\<forall>f \<in> set (map fst ms). e_Sequence f < e_Sequence e)"
    if e: "pending_evidence ?v e" "e \<notin> set (map fst ms)" for e
  proof -
    have "bk_get B d ?p (sequenceKey (e_Sequence e)) = Some (e_ID e)"
      using wf_pending [OF wf, of "sequenceKey (e_Sequence e)" "e_ID e"] e(1)
      by (auto simp: pending_evidence_def)
    then obtain j where j: "j < length ?E" "?E ! j = (sequenceKey (e_Sequence e), Some (e_ID e))"
      using entries_get [of _ "e_ID e" d ?p] by (metis in_set_conv_nth)
    have "\<not> j < length ms"
    proof
      assume "j < length ms"
      moreover from nth [OF this] j(2) e(1) have "e = fst (ms ! j)"
        by (auto simp: pending_evidence_def)
      ultimately show False using e(2) by auto
    qed
    then have "length ms \<le> j" "length ms = n" using j(1) len by auto
    moreover have "e_Sequence (fst (ms ! i)) < e_Sequence e" if "i < length ms" for i
      using less [of i j] key [OF that] j that \<open>length ms \<le> j\<close> by (simp add: sorted)
    ultimately show ?thesis by (simp add: all_set_conv_all_nth)
  qed
  moreover have "map snd ms = map (commit_of \<circ> fst) ms"
    by (rule nth_equalityI) (use nth in auto)
  moreover from pend have "\<forall>e \<in> set (map fst ms). pending_evidence ?v e"
    by (simp add: all_set_conv_all_nth)
  moreover have "length (map fst ms) \<le> n" using len by simp
  ultimately show ?thesis unfolding fifo_def by blast
qed

lemma bind_members_changes:
  "bind_members B (tenant_path n) ident i es d = Inr (ids, d') \<Longrightarrow>
   \<forall>e \<in> set es. good_evidence e \<Longrightarrow> validID ident \<Longrightarrow>
   ids = map e_ID es \<and> changes B n d d' (bind_view ident i es)"
proof (induction es arbitrary: i d ids)
  case (Cons e es)
  then obtain d1 d2 ids' where
    p: "put_evidence B (tenant_path n) (bound_to ident i e) d = Inr d1"
    and del: "bk_delete B d1 (bucket (tenant_path n) ''pending'') (sequenceKey (e_Sequence e)) = Inr d2"
    and rest: "bind_members B (tenant_path n) ident (i + 1) es d2 = Inr (ids', d')"
    and ids: "ids = e_ID e # ids'"
    by (auto simp: result_simps bound_to_def)
  have "good_evidence (bound_to ident i e)"
    using Cons.prems(2,3) by (simp add: good_evidence_def)
  note c = changes_trans [OF changes_put_evidence [OF p this] changes_delete_pending [OF del]]
  have IH: "ids' = map e_ID es \<and> changes B n d2 d' (bind_view ident (i + 1) es)"
    using Cons.IH [OF rest] Cons.prems by simp
  show ?case using changes_trans [OF c conjunct2 [OF IH]] IH ids by simp
next
  case Nil
  have "bind_view ident i [] = (\<lambda>v. v)" by (simp add: fun_eq_iff)
  with Nil show ?case by (simp add: changes_refl)
qed


lemma freeze_refines:
  assumes ok: "store_ok B d" and lim: "1 \<le> limit" "limit \<le> MaxBatchEntries"
    and run: "freeze B n key limit d rnd = (Inr (b, d'), rnd')"
  shows "store_ok B d' \<and> freeze_spec key limit (tenant_view B d n) b (tenant_view B d' n) \<and>
    (\<forall>m. m \<noteq> n \<longrightarrow> tenant_view B d' m = tenant_view B d m)"
proof -
  let ?v = "view B d n"
  have ready: "ready B d n"
    using run by (cases "tenant B d n False") (auto simp: freeze_def result_simps)
  then have t: "tenant B d n False = Inr (tenant_path n, d)" by (simp add: tenant_readonly)
  have ex: "bk_exists B d (tenant_path n)" using ready by (simp add: ready_def)
  have wf: "wf_view ?v" and flat: "flat B d n" using ok ex by (simp_all add: store_ok_def)
  have "\<exists>f. changes B n d d' f \<and> freeze_spec key limit ?v b (f ?v) \<and> wf_view (f ?v)"
  proof (cases "v_batch_keys ?v key")
    case (Some i)
    then show ?thesis using run t wf changes_refl [of B n d]
      by (intro exI [of _ "\<lambda>v. v"])
        (auto simp: freeze_def freeze_spec_def Let_def result_simps split: if_splits)
  next
    case None
    from run t None obtain ms where
      ms: "pending_members B d (tenant_path n) (nat limit)
        (bk_entries B d (bucket (tenant_path n) ''pending'')) = Inr ms" "ms \<noteq> []"
      by (auto simp: freeze_def Let_def split: sum.splits if_splits)
    from run t None ms obtain man where
      man: "bindE (New_manifest (map snd ms)) MarshalBinary_manifest = Inr man"
      by (auto simp: freeze_def Let_def split: sum.splits)
    from run t None ms man obtain ident rnd1 where
      new: "newID (bk_get B d (bucket (tenant_path n) ''batches'')) rnd = (Inr ident, rnd1)"
      by (auto simp: freeze_def Let_def split: sum.splits prod.splits)
    have none: "bk_get B d (bucket (tenant_path n) ''batch_keys'') key = None" using None by simp
    note run' = run [unfolded freeze_def t Let_def sum.case prod.case none option.case ms(1)
      if_not_P [OF ms(2)] man new]
    then obtain ids d1 d2 d3 where
      bind: "bind_members B (tenant_path n) ident 0 (map fst ms) d = Inr (ids, d1)"
      and b: "b = \<lparr>f_ID = ident, f_Limit = limit, f_EvidenceIDs = ids, f_Manifest = man,
          f_SubmissionState = SubmissionNotSubmitted, f_SubmissionRef = []\<rparr>"
      and p1: "put_batch B (tenant_path n) ident b d1 = Inr d2"
      and p2: "bk_put B d2 (bucket (tenant_path n) ''batch_keys'') key ident = Inr d3"
      and p3: "bk_put B d3 (bucket (tenant_path n) ''outbox'') ident man = Inr d'"
      by (auto simp: bindE_eq_Inr)
    let ?es = "map fst ms"
    have fifo: "fifo ?v (nat limit) ?es" and cs: "map snd ms = map commit_of ?es"
      using pending_members_fifo [OF wf flat ms(1)] by simp_all
    note id = newID_Inr [OF new]
    have es: "\<forall>e \<in> set ?es. v_evidence ?v (e_ID e) = Inr e \<and> e_BatchID e = []"
      using fifo by (simp add: fifo_def pending_evidence_def)
    then have good: "\<forall>e \<in> set ?es. good_evidence e" using wf_evidenceD(1) [OF wf] by blast
    note bound = bind_members_changes [OF bind good conjunct1 [OF id]]
    have len: "1 \<le> length (map commit_of ?es)" "length (map commit_of ?es) \<le> 1024"
      "int (length ?es) \<le> limit"
      using fifo lim ms(2) by (auto simp: fifo_def MaxBatchEntries_def Suc_le_eq)
    have val: "validate (manifest_of (map commit_of ?es)) = None"
      by (rule validate_manifest_of) (use len in simp_all)
    have "New_manifest (map commit_of ?es) = Inr (manifest_of (map commit_of ?es))"
      by (rule New_manifest_of) (use len in simp_all)
    then have man': "man = manifest_bytes (manifest_of (map commit_of ?es))"
      using man unfolding cs by (auto simp: result_simps)
    have "good_batch b"
      using lim len id bound good Parse_manifest_bytes [OF val]
      by (auto simp: good_batch_def b man' good_evidence_def manifest_of_def)
    have absent: "v_batch ?v (f_ID b) = Inl (Sent ErrNotFound)"
      using id by (simp add: b flip: frozen_absent)
    have "changes B n d d' (freeze_view b key ?es)"
      using changes_trans [OF changes_trans [OF changes_trans [OF conjunct2 [OF bound]
        changes_put_batch [of n b d1 d2]] changes_put_batch_keys [OF p2]] changes_put_outbox [OF p3]]
        p1 \<open>good_batch b\<close>
      unfolding freeze_view_def [abs_def] Let_def by (simp add: b)
    moreover have "wf_view (freeze_view b key ?es ?v)"
      by (rule wf_freeze_view [OF wf fifo_distinct [OF fifo] es \<open>good_batch b\<close> _ _ _ absent])
        (use bound man' in \<open>simp_all add: b\<close>)
    moreover have "freeze_spec key limit ?v b (freeze_view b key ?es ?v)"
      using None fifo absent \<open>good_batch b\<close> ms(2) bound man'
      unfolding freeze_spec_def by (auto simp: b intro!: exI [of _ ?es])
    ultimately show ?thesis by blast
  qed
  then obtain f where f: "changes B n d d' f" "freeze_spec key limit ?v b (f ?v)" "wf_view (f ?v)"
    by blast
  have "view B d n = tenant_view B d n" using ex by (simp add: tenant_view_def)
  then show ?thesis
    using changes_store_ok [OF f(1) ok f(3)] changes_tenant_view [OF f(1) ex] f(2) by simp
qed

end

section \<open>Submission\<close>

definition submit_spec :: "gostring \<Rightarrow> gostring \<Rightarrow> gostring \<Rightarrow> tview \<Rightarrow> frozen_batch \<Rightarrow> tview \<Rightarrow> bool" where
  "submit_spec ident state reference v b v' \<longleftrightarrow>
     (\<exists>c. v_batch v ident = Inr c \<and>
        (f_SubmissionState c = SubmissionSubmitted \<longrightarrow> state = SubmissionSubmitted) \<and>
        b = c\<lparr>f_SubmissionState := state, f_SubmissionRef := reference\<rparr> \<and> v' = submit_view b v)"

context bolt_laws
begin

lemma RecordSubmission_refines:
  assumes ok: "store_ok B d" and run: "RecordSubmission B n ident state ref d = (Inr b, d')"
  shows "store_ok B d' \<and> submit_spec ident state ref (tenant_view B d n) b (tenant_view B d' n) \<and>
    (\<forall>m. m \<noteq> n \<longrightarrow> tenant_view B d' m = tenant_view B d m)"
proof -
  let ?v = "view B d n"
  have valid: "validSubmissionState state" "ref \<noteq> [] \<longrightarrow> validText ref"
    using run by (auto simp: RecordSubmission_def split: if_splits)
  from run obtain c d1 where ready: "ready B d n"
    and c: "frozen B d (tenant_path n) ident = Inr c"
    and st: "f_SubmissionState c = SubmissionSubmitted \<longrightarrow> state = SubmissionSubmitted"
    and b: "b = c\<lparr>f_SubmissionState := state, f_SubmissionRef := ref\<rparr>"
    and p1: "put_batch B (tenant_path n) ident b d = Inr d1"
    and p2: "(if state = SubmissionSubmitted then bk_delete B d1 (bucket (tenant_path n) ''outbox'') ident
      else bk_put B d1 (bucket (tenant_path n) ''outbox'') ident (f_Manifest b)) = Inr d'"
    by (fastforce simp: RecordSubmission_def Update_Inr bindE_eq_Inr tenant_readonly Let_def
        split: if_splits)
  have ex: "bk_exists B d (tenant_path n)" using ready by (simp add: ready_def)
  have wf: "wf_view ?v" using ok ex by (simp add: store_ok_def)
  have c': "v_batch ?v ident = Inr c" using c by simp
  note C = wf_batchD [OF wf c']
  have b': "f_ID b = ident" "f_EvidenceIDs b = f_EvidenceIDs c" "f_Manifest b = f_Manifest c"
    "f_SubmissionState b = state"
    using C(2) by (simp_all add: b)
  have good: "good_batch b" using C(1) valid by (auto simp: good_batch_def b)
  have p1': "put_batch B (tenant_path n) (f_ID b) b d = Inr d1" using p1 b'(1) by simp
  note c1 = changes_put_batch [OF p1' good]
  have f: "changes B n d d' (submit_view b)"
  proof (cases "state = SubmissionSubmitted")
    case True
    then show ?thesis
      using changes_trans [OF c1 changes_delete_outbox] p2 b'
      unfolding submit_view_def [abs_def] by simp
  next
    case False
    then show ?thesis
      using changes_trans [OF c1 changes_put_outbox] p2 b'
      unfolding submit_view_def [abs_def] by simp
  qed
  have "wf_view (submit_view b ?v)"
    using wf_submit_view [OF wf _ good b'(2,3)] c' b'(1) by simp
  moreover have "?v = tenant_view B d n" using ex by (simp add: tenant_view_def)
  moreover have "submit_spec ident state ref ?v b (submit_view b ?v)"
    using c' st b by (auto simp: submit_spec_def)
  ultimately show ?thesis
    using changes_store_ok [OF f ok] changes_tenant_view [OF f ex] by simp
qed

lemma Ingest_refines:
  assumes ok: "store_ok B d" and run: "Ingest B req d rnd = (Inr (e, created), d', rnd')"
  shows "valid_request req \<and> store_ok B d' \<and>
    ingest_spec req (tenant_view B d (i_Tenant req)) e created (tenant_view B d' (i_Tenant req)) \<and>
    (\<forall>m. m \<noteq> i_Tenant req \<longrightarrow> tenant_view B d' m = tenant_view B d m)"
proof -
  obtain c where "Compute (i_Witness req) = Inr c"
    using run by (cases "Compute (i_Witness req)") (auto simp: Ingest_def split: if_splits)
  then have "valid_request req" and "ingest B req d rnd = (Inr ((e, created), d'), rnd')"
    using run Compute_Inr_supported
    by (auto simp: Ingest_def valid_request_def Update_rnd_Inr split: if_splits)
  from this(1) ingest_refines [OF ok this] show ?thesis by blast
qed

lemma Freeze_refines:
  assumes ok: "store_ok B d" and run: "Freeze B n key limit d rnd = (Inr b, d', rnd')"
  shows "1 \<le> limit \<and> limit \<le> 1024 \<and> store_ok B d' \<and>
    freeze_spec key limit (tenant_view B d n) b (tenant_view B d' n) \<and>
    (\<forall>m. m \<noteq> n \<longrightarrow> tenant_view B d' m = tenant_view B d m)"
proof -
  have "1 \<le> limit" "limit \<le> MaxBatchEntries" "freeze B n key limit d rnd = (Inr (b, d'), rnd')"
    using run by (auto simp: Freeze_def Update_rnd_Inr split: if_splits)
  from this(1,2) freeze_refines [OF ok this] show ?thesis by (simp add: MaxBatchEntries_def)
qed

end

text \<open>An operation that returns an error has changed nothing.\<close>

lemma Ingest_error: "Ingest B req d rnd = (Inl err, d', rnd') \<Longrightarrow> d' = d"
  by (auto simp: Ingest_def split: if_splits sum.splits dest: Update_rnd_Inl)

lemma Freeze_error: "Freeze B n key limit d rnd = (Inl err, d', rnd') \<Longrightarrow> d' = d"
  by (auto simp: Freeze_def split: if_splits dest: Update_rnd_Inl)

lemma RecordSubmission_error: "RecordSubmission B n i st ref d = (Inl err, d') \<Longrightarrow> d' = d"
  by (auto simp: RecordSubmission_def split: if_splits dest: Update_Inl)

lemma open_schema_error: "open_schema B d = (Inl err, d') \<Longrightarrow> d' = d"
  by (auto simp: open_schema_def dest: Update_Inl)

section \<open>The first opening\<close>

context bolt_laws
begin

lemma no_entries:
  assumes "bk_entries B d [] = []"
  shows "\<not> bk_exists B d (k # p)" and "bk_get B d [] k = None"
proof -
  have "\<not> bk_exists B d ([] @ [k])" for k
    using entries_bucket [of k d "[]"] assms by simp
  then show "\<not> bk_exists B d (k # p)" using exists_prefix [of d "[k]" p] by auto
  show "bk_get B d [] k = None"
    using entries_get [of k _ d "[]"] assms by (cases "bk_get B d [] k") auto
qed

lemma open_schema_new:
  assumes new: "\<not> bk_exists B d schema_path" and run: "open_schema B d = (Inr u, d')"
  shows "store_ok B d'" and "tenant_view B d' n = empty_view"
proof -
  obtain d1 d2 where empty: "bk_entries B d [] = []"
    and c1: "bk_create B d [] (ascii ''schema'') = Inr d1"
    and p: "bk_put B d1 schema_path (ascii ''version'') [1] = Inr d2"
    and c2: "bk_create B d2 [] (ascii ''tenants'') = Inr d'"
    using run new
    by (auto simp: open_schema_def Update_Inr bindE_eq_Inr simp del: ascii_Cons split: if_splits)
  have ex: "bk_exists B d' q \<longleftrightarrow> q = tenants_path \<or> q = schema_path \<or> q = []" for q
    using no_entries(1) [OF empty] exists_root [of d]
    by (cases q) (auto simp: create_exists [OF c2] put_exists [OF p] create_exists [OF c1]
      tenants_path_def schema_path_def simp del: ascii_Cons)
  have "\<not> bk_exists B d' (tenant_path m)" for m
    by (simp add: ex) (simp add: tenant_path_def tenants_path_def schema_path_def)
  moreover have "bk_get B d' tenants_path k = None" for k
    by (simp add: create_get [OF c2] tenants_path_def)
  ultimately show "store_ok B d'" "tenant_view B d' n = empty_view"
    by (simp_all add: store_ok_def tenant_view_def ex)
qed

lemma open_schema_again:
  assumes "bk_exists B d schema_path" and "open_schema B d = (Inr u, d')"
  shows "d' = d"
  using assms by (auto simp: open_schema_def Update_Inr split: if_splits)

end

end
