(* ===== verification/Storage_Runs.thy ===== *)
theory Storage_Runs
  imports Storage_Refine
begin

text \<open>
  Runs of the store: \<open>store_step\<close> is one call of an operation that writes, with any arguments and
  any outcome, \<open>store_run\<close> a sequence of them, \<open>reachable\<close> what sequences reach from a newly
  initialised database. The lemmas transfer the invariant to runs and show that a run only ever
  extends the history of a tenant: records stay, batches and submitted states are final.
\<close>

section \<open>Steps and runs\<close>

inductive store_step :: "'d bolt \<Rightarrow> 'd \<Rightarrow> 'd \<Rightarrow> bool" for B where
  step_ingest: "Ingest B req d rnd = (r, d', rnd') \<Longrightarrow> store_step B d d'"
| step_freeze: "Freeze B n key limit d rnd = (f, d', rnd') \<Longrightarrow> store_step B d d'"
| step_submit: "RecordSubmission B n ident state ref d = (s, d') \<Longrightarrow> store_step B d d'"
| step_reopen: "bk_exists B d schema_path \<Longrightarrow> open_schema B d = (u, d') \<Longrightarrow> store_step B d d'"

inductive store_run :: "'d bolt \<Rightarrow> 'd \<Rightarrow> 'd \<Rightarrow> bool" for B where
  run_nil: "store_run B d d"
| run_step: "store_run B d d1 \<Longrightarrow> store_step B d1 d2 \<Longrightarrow> store_run B d d2"

inductive_cases store_step_cases: "store_step B d d'"

inductive reachable :: "'d bolt \<Rightarrow> 'd \<Rightarrow> bool" for B where
  reachable_new: "\<not> bk_exists B d0 schema_path \<Longrightarrow> open_schema B d0 = (Inr u, d) \<Longrightarrow> reachable B d"
| reachable_step: "reachable B d \<Longrightarrow> store_step B d d' \<Longrightarrow> reachable B d'"

lemma run_trans: "store_run B d1 d2 \<Longrightarrow> store_run B d d1 \<Longrightarrow> store_run B d d2"
  by (induction rule: store_run.induct) (auto intro: run_step)

lemma run_single: "store_step B d d' \<Longrightarrow> store_run B d d'"
  by (rule run_step [OF run_nil])

lemma reachable_run: "store_run B d d' \<Longrightarrow> reachable B d \<Longrightarrow> reachable B d'"
  by (induction rule: store_run.induct) (auto intro: reachable_step)

section \<open>What a step may do to a view\<close>

definition extends :: "tview \<Rightarrow> tview \<Rightarrow> bool" where
  "extends v v' \<longleftrightarrow>
     (\<forall>i e. v_evidence v i = Inr e \<longrightarrow> (\<exists>e'. v_evidence v' i = Inr e' \<and>
        e_Sequence e' = e_Sequence e \<and> e_Source e' = e_Source e \<and> e_Witness e' = e_Witness e \<and>
        (e_BatchID e \<noteq> [] \<longrightarrow> e' = e))) \<and>
     (\<forall>i b. v_batch v i = Inr b \<longrightarrow> (\<exists>b'. v_batch v' i = Inr b' \<and>
        f_Limit b' = f_Limit b \<and> f_EvidenceIDs b' = f_EvidenceIDs b \<and> f_Manifest b' = f_Manifest b \<and>
        (f_SubmissionState b = SubmissionSubmitted \<longrightarrow> f_SubmissionState b' = SubmissionSubmitted))) \<and>
     (\<forall>k i. v_keys v k = Some i \<longrightarrow> v_keys v' k = Some i) \<and>
     (\<forall>k i. v_sources v k = Some i \<longrightarrow> v_sources v' k = Some i) \<and>
     (\<forall>k i. v_batch_keys v k = Some i \<longrightarrow> v_batch_keys v' k = Some i)"

lemma extends_refl [simp]: "extends v v"
  by (simp add: extends_def)

lemma extendsD_evidence:
  assumes "extends v v'" and "v_evidence v i = Inr e"
  obtains e' where "v_evidence v' i = Inr e'" "e_Sequence e' = e_Sequence e"
    "e_Source e' = e_Source e" "e_Witness e' = e_Witness e" "e_BatchID e \<noteq> [] \<longrightarrow> e' = e"
  using assms unfolding extends_def by blast

lemma extendsD_batch:
  assumes "extends v v'" and "v_batch v i = Inr b"
  obtains b' where "v_batch v' i = Inr b'" "f_Limit b' = f_Limit b"
    "f_EvidenceIDs b' = f_EvidenceIDs b" "f_Manifest b' = f_Manifest b"
    "f_SubmissionState b = SubmissionSubmitted \<longrightarrow> f_SubmissionState b' = SubmissionSubmitted"
  using assms unfolding extends_def by blast

lemma extendsD_index:
  assumes "extends v v'"
  shows "v_keys v k = Some i \<Longrightarrow> v_keys v' k = Some i"
    and "v_sources v k = Some i \<Longrightarrow> v_sources v' k = Some i"
    and "v_batch_keys v k = Some i \<Longrightarrow> v_batch_keys v' k = Some i"
  using assms unfolding extends_def by blast+

lemma extends_trans:
  assumes "extends v v1" and "extends v1 v2"
  shows "extends v v2"
  unfolding extends_def
proof (intro conjI; intro allI impI)
  fix i e assume "v_evidence v i = Inr e"
  with assms(1) obtain e1 where e1: "v_evidence v1 i = Inr e1" "e_Sequence e1 = e_Sequence e"
    "e_Source e1 = e_Source e" "e_Witness e1 = e_Witness e" "e_BatchID e \<noteq> [] \<longrightarrow> e1 = e"
    by (rule extendsD_evidence)
  with extendsD_evidence [OF assms(2) e1(1)]
  show "\<exists>e'. v_evidence v2 i = Inr e' \<and> e_Sequence e' = e_Sequence e \<and> e_Source e' = e_Source e \<and>
      e_Witness e' = e_Witness e \<and> (e_BatchID e \<noteq> [] \<longrightarrow> e' = e)"
    by metis
next
  fix i b assume "v_batch v i = Inr b"
  with assms(1) obtain b1 where b1: "v_batch v1 i = Inr b1" "f_Limit b1 = f_Limit b"
    "f_EvidenceIDs b1 = f_EvidenceIDs b" "f_Manifest b1 = f_Manifest b"
    "f_SubmissionState b = SubmissionSubmitted \<longrightarrow> f_SubmissionState b1 = SubmissionSubmitted"
    by (rule extendsD_batch)
  with extendsD_batch [OF assms(2) b1(1)]
  show "\<exists>b'. v_batch v2 i = Inr b' \<and> f_Limit b' = f_Limit b \<and> f_EvidenceIDs b' = f_EvidenceIDs b \<and>
      f_Manifest b' = f_Manifest b \<and>
      (f_SubmissionState b = SubmissionSubmitted \<longrightarrow> f_SubmissionState b' = SubmissionSubmitted)"
    by metis
qed (simp_all add: extendsD_index [OF assms(1)] extendsD_index [OF assms(2)])

lemma ingest_spec_extends:
  assumes "ingest_spec req v e c v'"
  shows "extends v v'"
proof (cases c)
  case True
  then have v': "v' = add_evidence e (i_Key req) v" and new: "v_evidence v (e_ID e) = Inl (Sent ErrNotFound)"
    and loc: "located v req = None"
    and src: "e_Source e = i_Source req" "e_Witness e = i_Witness req"
    using assms by (simp_all add: ingest_spec_def)
  have "v_keys v (i_Key req) = None" "v_sources v (source_key_of e) = None"
    using loc src by (auto simp: located_def split: option.splits)
  then show ?thesis using new by (auto simp: extends_def v' add_evidence_def)
next
  case False
  then have v': "v' = v\<lparr>v_keys := (v_keys v)(i_Key req \<mapsto> e_ID e)\<rparr>" and "located v req = Some (e_ID e)"
    using assms by (simp_all add: ingest_spec_def)
  then have "v_keys v (i_Key req) = Some i \<Longrightarrow> i = e_ID e" for i by (simp add: located_def)
  then show ?thesis by (auto simp: extends_def v')
qed

lemma freeze_spec_extends:
  assumes "freeze_spec key limit v b v'"
  shows "extends v v'"
proof (cases "v_batch_keys v key")
  case None
  then obtain es where es: "fifo v (nat limit) es" and v': "v' = freeze_view b key es v"
    and new: "v_batch v (f_ID b) = Inl (Sent ErrNotFound)"
    using assms by (auto simp: freeze_spec_def)
  have ev: "\<forall>e \<in> set es. v_evidence v (e_ID e) = Inr e" "\<forall>e \<in> set es. e_BatchID e = []"
    using es by (auto simp: fifo_def pending_evidence_def)
  have "\<exists>e'. v_evidence v' i = Inr e' \<and> e_Sequence e' = e_Sequence e \<and> e_Source e' = e_Source e \<and>
      e_Witness e' = e_Witness e \<and> (e_BatchID e \<noteq> [] \<longrightarrow> e' = e)" if "v_evidence v i = Inr e" for i e
    by (cases rule: bind_view_cases [OF fifo_distinct [OF es] ev(1), of i "f_ID b", case_names same bound])
      (use that ev(2) in \<open>auto simp: v' freeze_view_def Let_def\<close>)
  then show ?thesis
    using None new by (auto simp: extends_def v' freeze_view_def Let_def bind_view_other)
qed (use assms in \<open>simp add: freeze_spec_def\<close>)

lemma submit_spec_extends:
  assumes "submit_spec ident state ref v b v'" and "wf_view v"
  shows "extends v v'"
proof -
  obtain c where c: "v_batch v ident = Inr c" "b = c\<lparr>f_SubmissionState := state, f_SubmissionRef := ref\<rparr>"
    "v' = submit_view b v" "f_SubmissionState c = SubmissionSubmitted \<longrightarrow> state = SubmissionSubmitted"
    using assms(1) by (auto simp: submit_spec_def)
  have "f_ID c = ident" using wf_batchD(2) [OF assms(2) c(1)] .
  then show ?thesis using c by (auto simp: extends_def submit_view_def)
qed

section \<open>Runs keep the invariant and the history\<close>

context bolt_laws
begin

lemma store_step_ok:
  assumes "store_step B d d'" and "store_ok B d"
  shows "store_ok B d' \<and> (\<forall>n. extends (tenant_view B d n) (tenant_view B d' n))"
  using assms(1)
proof cases
  case (step_ingest req rnd r rnd')
  show ?thesis
  proof (cases r)
    case (Inl err)
    then show ?thesis using step_ingest Ingest_error assms(2) by force
  next
    case (Inr ec)
    then obtain e c where "Ingest B req d rnd = (Inr (e, c), d', rnd')" using step_ingest by (cases ec) auto
    from Ingest_refines [OF assms(2) this] ingest_spec_extends show ?thesis by (metis extends_refl)
  qed
next
  case (step_freeze n key limit rnd f rnd')
  show ?thesis
  proof (cases f)
    case (Inl err)
    then show ?thesis using step_freeze Freeze_error assms(2) by force
  next
    case (Inr b)
    from Freeze_refines [OF assms(2) step_freeze [unfolded Inr]] freeze_spec_extends show ?thesis
      by (metis extends_refl)
  qed
next
  case (step_submit n ident state ref s)
  show ?thesis
  proof (cases s)
    case (Inl err)
    then show ?thesis using step_submit RecordSubmission_error assms(2) by force
  next
    case (Inr b)
    from RecordSubmission_refines [OF assms(2) step_submit [unfolded Inr]]
      submit_spec_extends tenant_view_wf [OF assms(2)] show ?thesis
      by (metis extends_refl)
  qed
next
  case (step_reopen u)
  then have "d' = d" by (cases u) (auto dest: open_schema_error open_schema_again)
  then show ?thesis using assms(2) by simp
qed

lemma store_run_ok:
  "store_run B d d' \<Longrightarrow> store_ok B d \<Longrightarrow>
   store_ok B d' \<and> (\<forall>n. extends (tenant_view B d n) (tenant_view B d' n))"
  by (induction rule: store_run.induct) (use store_step_ok extends_trans in \<open>fastforce+\<close>)

lemma reachable_ok: "reachable B d \<Longrightarrow> store_ok B d"
  by (induction rule: reachable.induct) (auto dest: open_schema_new store_step_ok)

end

end
