(* ===== verification/Storage_Progress.thy ===== *)
theory Storage_Progress
  imports Storage_Runs
begin

text \<open>
  When the operations of the store succeed: in a store that satisfies its invariant, with a
  database that accepts its transactions and random bytes that give a new identifier, an
  ingestion of a new source, a freeze of pending evidence, a submission of a frozen batch and an
  export return a value.
\<close>

section \<open>A working database\<close>

text \<open>The database starts and commits every transaction.\<close>

definition accepting :: "'d bolt \<Rightarrow> bool" where
  "accepting B \<longleftrightarrow> (\<forall>d. bk_begin B d = None \<and> bk_commit B d = None)"

lemma accepting_simps [simp]:
  "accepting B \<Longrightarrow> bk_begin B d = None" "accepting B \<Longrightarrow> bk_commit B d = None"
  by (simp_all add: accepting_def)

lemma max_value_ge: "k \<le> 200000 \<Longrightarrow> k \<le> max_value"
  by (simp add: max_value_def)

lemma max_key_ge: "k \<le> 7000 \<Longrightarrow> k \<le> max_key"
  by (simp add: max_key_def)

lemma distinct_tenantBuckets: "distinct tenantBuckets"
  by (simp add: tenantBuckets_def)

lemma tenantBuckets_nonempty: "x \<in> set tenantBuckets \<Longrightarrow> x \<noteq> [] \<and> length x \<le> max_key"
  by (auto simp: tenantBuckets_def max_key_def)

text \<open>Random bytes whose identifier is not in use.\<close>

definition fresh_id :: "(gostring \<Rightarrow> 'a result) \<Rightarrow> bytes \<Rightarrow> bool" where
  "fresh_id get raw \<longleftrightarrow> length raw = 16 \<and> get (hex_encode raw) = Inl (Sent ErrNotFound)"

lemma newID_fresh: "length raw = 16 \<Longrightarrow> get (hex_encode raw) = None \<Longrightarrow>
   newID get (Inr raw # rnd) = (Inr (hex_encode raw), rnd)"
  by (simp add: Let_def)

context bolt_laws
begin

lemma put_succeeds_in:
  assumes "ready B d n" "flat B d n" "ascii x \<in> set tenantBuckets" "k \<noteq> []" "length k \<le> max_key"
    "length v \<le> max_value"
  shows "\<exists>d'. bk_put B d (bucket (tenant_path n) x) k v = Inr d'"
  by (rule put_succeeds [OF ready_bucket [OF assms(1,3)] flat_bucket [OF assms(2,3)] assms(4-6)])

lemma delete_succeeds_in:
  assumes "ready B d n" "flat B d n" "ascii x \<in> set tenantBuckets"
  shows "\<exists>d'. bk_delete B d (bucket (tenant_path n) x) k = Inr d'"
  by (rule delete_succeeds [OF ready_bucket [OF assms(1,3)] flat_bucket [OF assms(2,3)]])

lemma create_all_succeeds:
  assumes "bk_exists B d t" "distinct ns"
    and "\<forall>n \<in> set ns. \<not> bk_exists B d (t @ [n]) \<and> bk_get B d t n = None \<and> n \<noteq> [] \<and> length n \<le> max_key"
  shows "\<exists>d'. create_all B t ns d = Inr d'"
  using assms
proof (induction ns arbitrary: d)
  case (Cons n ns)
  then obtain d1 where c: "bk_create B d t n = Inr d1"
    using create_succeeds [of d t n] by auto
  have "bk_exists B d1 t" "distinct ns"
    "\<forall>m \<in> set ns. \<not> bk_exists B d1 (t @ [m]) \<and> bk_get B d1 t m = None \<and> m \<noteq> [] \<and> length m \<le> max_key"
    using Cons.prems by (auto simp: create_exists [OF c] create_get [OF c])
  from Cons.IH [OF this] c show ?case by simp
qed simp

lemma tenant_succeeds:
  assumes ok: "store_ok B d" and n: "validText n"
  shows "\<exists>d0. tenant B d n True = Inr (tenant_path n, d0)"
proof (cases "bk_exists B d (tenant_path n)")
  case True
  then show ?thesis using ok tenant_existing [OF True, of True] by (simp add: store_ok_def)
next
  case False
  have root: "bk_exists B d tenants_path" using ok by (simp add: store_ok_def)
  have "n \<noteq> []" "length n \<le> max_key" using n by (auto simp: validText_def max_key_def)
  then obtain d1 where c: "bk_create B d tenants_path n = Inr d1"
    using create_succeeds [of d tenants_path n] root False ok
    by (auto simp: store_ok_def tenant_path_def)
  have ex: "bk_exists B d1 q \<longleftrightarrow> q = tenant_path n \<or> bk_exists B d q" for q
    using create_exists [OF c] by (simp add: tenant_path_def)
  have "\<not> bk_exists B d1 (tenant_path n @ [x])" "bk_get B d1 (tenant_path n) x = None" for x
    using False exists_parent [of d "tenant_path n" x] create_get [OF c, of "tenant_path n"]
    by (auto simp: ex tenant_path_def)
  then obtain d2 where a: "create_all B (tenant_path n) tenantBuckets d1 = Inr d2"
    using create_all_succeeds [of d1 "tenant_path n" tenantBuckets] distinct_tenantBuckets
      tenantBuckets_nonempty ex by blast
  have "list_all (\<lambda>x. bk_exists B d2 (tenant_path n @ [x])) tenantBuckets"
    by (auto simp: list_all_iff create_all_Inr(1) [OF a])
  then show ?thesis using root False c a by (simp add: tenant_def Let_def)
qed

lemma changes_flat: "changes B n d d' f \<Longrightarrow> flat B d' m = flat B d m"
  by (simp add: changes_def flat_def)

lemma changes_rf:
  "changes B n d d' f \<Longrightarrow> ready B d m \<Longrightarrow> flat B d m \<Longrightarrow> ready B d' m \<and> flat B d' m"
  by (simp add: changes_ready changes_flat)

section \<open>Ingestion\<close>

lemma Ingest_succeeds:
  assumes ok: "store_ok B d" and acc: "accepting B" and req: "valid_request req"
    and new: "located (tenant_view B d (i_Tenant req)) req = None"
    and id: "fresh_id (v_evidence (tenant_view B d (i_Tenant req))) raw"
    and seq: "v_seq (tenant_view B d (i_Tenant req)) + 1 \<noteq> 0"
  shows "\<exists>e d'. Ingest B req d (Inr raw # rnd) = (Inr (e, True), d', rnd) \<and> e_ID e = hex_encode raw"
proof -
  let ?n = "i_Tenant req" and ?sk = "sourceKey (i_Source req) (w_Representation (i_Witness req))"
  have r: "validText ?n" "validText (i_Key req)" "validSource (i_Source req)" "supported (i_Witness req)"
    using req by (simp_all add: valid_request_def)
  obtain d0 where t: "tenant B d ?n True = Inr (tenant_path ?n, d0)"
    using tenant_succeeds [OF ok r(1)] by blast
  note op = tenant_opened [OF ok t]
  have rd: "ready B d0 ?n" "flat B d0 ?n" using op(2,3) by (simp_all add: store_ok_def)
  have look: "(case bk_get B d0 (bucket (tenant_path ?n) ''keys'') (i_Key req) of
      Some i \<Rightarrow> Some i | None \<Rightarrow> bk_get B d0 (bucket (tenant_path ?n) ''sources'') ?sk) = None"
    using new unfolding op(5) [symmetric] by (simp add: located_def cong: option.case_cong)
  have "bk_get B d0 (bucket (tenant_path ?n) ''evidence'') (hex_encode raw) = None"
    using id unfolding op(5) [symmetric] by (simp add: fresh_id_def stored_evidence_absent)
  then have nid: "newID (bk_get B d0 (bucket (tenant_path ?n) ''evidence'')) (Inr raw # rnd) =
      (Inr (hex_encode raw), rnd)"
    using id by (intro newID_fresh) (simp_all add: fresh_id_def)
  obtain s d1 where nx: "bk_next B d0 (bucket (tenant_path ?n) ''evidence'') = Inr (s, d1)"
    using next_succeeds [OF ready_bucket [OF rd(1) tenantBuckets_simps(1)]] by blast
  note c1 = changes_next [OF nx]
  have s: "s \<noteq> 0" using c1 seq unfolding op(5) [symmetric] by simp
  define e where "e = \<lparr>e_ID = hex_encode raw, e_Sequence = s, e_Source = i_Source req,
    e_Witness = i_Witness req, e_BatchID = [], e_Index = 0\<rparr>"
  have vid: "validID (hex_encode raw)" using id by (simp add: fresh_id_def validID_hex)
  then have good: "good_evidence e" using r s by (simp add: good_evidence_def e_def)
  have idlen: "hex_encode raw \<noteq> []" "length (hex_encode raw) \<le> 7000"
    using validID_text [OF vid] by simp_all
  have rd1: "ready B d1 ?n" "flat B d1 ?n" using changes_rf [OF conjunct2 [OF c1] rd] by simp_all
  have "length (marshal_evidence e) \<le> 200000"
    using length_marshal_evidence [OF good] by (simp add: maxRecordBytes_def)
  then obtain d2 where p1: "put_evidence B (tenant_path ?n) e d1 = Inr d2"
    using put_succeeds_in [OF rd1 tenantBuckets_simps(1) idlen(1) max_key_ge [OF idlen(2)] max_value_ge]
    by (auto simp: put_evidence_def e_def)
  note c2 = changes_put_evidence [OF p1 good]
  have rd2: "ready B d2 ?n" "flat B d2 ?n" using changes_rf [OF c2 rd1] by simp_all
  have vlen: "length (hex_encode raw) \<le> max_value" using idlen(2) by (intro max_value_ge) simp
  have "i_Key req \<noteq> []" "length (i_Key req) \<le> 7000"
    using r(2) by (auto simp: validText_def)
  then obtain d3 where p2: "bk_put B d2 (bucket (tenant_path ?n) ''keys'') (i_Key req) (e_ID e) = Inr d3"
    using put_succeeds_in [OF rd2 tenantBuckets_simps(2) _ max_key_ge vlen] by (auto simp: e_def)
  note c3 = changes_put_keys [OF p2]
  have rd3: "ready B d3 ?n" "flat B d3 ?n" using changes_rf [OF c3 rd2] by simp_all
  obtain d4 where p3: "bk_put B d3 (bucket (tenant_path ?n) ''sources'') ?sk (e_ID e) = Inr d4"
    using put_succeeds_in [OF rd3 tenantBuckets_simps(3) sourceKey_neq_Nil
        max_key_ge [OF length_sourceKey_le [OF length_source_json [OF r(3)]]] vlen]
    by (auto simp: e_def)
  note c4 = changes_put_sources [OF p3]
  have rd4: "ready B d4 ?n" "flat B d4 ?n" using changes_rf [OF c4 rd3] by simp_all
  have "sequenceKey s \<noteq> []" "length (sequenceKey s) \<le> 7000"
    using length_put_uint64 [of s] by (auto simp: sequenceKey_def simp del: length_put_uint64)
  then obtain d5 where p4: "bk_put B d4 (bucket (tenant_path ?n) ''pending'') (sequenceKey s) (e_ID e) = Inr d5"
    using put_succeeds_in [OF rd4 tenantBuckets_simps(4) _ max_key_ge vlen] by (auto simp: e_def)
  have "ingest B req d (Inr raw # rnd) = (Inr ((e, True), d5), rnd)"
    unfolding ingest_def t Let_def sum.case prod.case look option.case nid nx
    using s p1 p2 p3 p4 by (simp add: e_def)
  then have "Ingest B req d (Inr raw # rnd) = (Inr (e, True), d5, rnd)"
    using r acc by (simp add: Ingest_def Update_rnd_Inr Compute_def Encode_supported)
  then show ?thesis by (auto simp: e_def)
qed

end

section \<open>Freezing\<close>

context bolt_laws
begin

lemma pending_members_succeeds:
  assumes "\<forall>(k, v) \<in> set entries. \<exists>i e. v = Some i \<and> stored_evidence B d t i = Inr e \<and>
      k = sequenceKey (e_Sequence e) \<and> e_BatchID e = []"
  shows "\<exists>ms. pending_members B d t n entries = Inr ms \<and> length ms = min n (length entries)"
  using assms
proof (induction B d t n entries rule: pending_members.induct)
  case (3 B d t n k ident entries)
  then obtain i e where e: "ident = Some i" "stored_evidence B d t i = Inr e"
    "k = sequenceKey (e_Sequence e)" "e_BatchID e = []" by auto
  have "supported (e_Witness e)" using stored_evidence_good [OF e(2)] by simp
  then have c: "Compute (e_Witness e) = Inr (commit_of e)"
    by (simp add: Compute_def Encode_supported commit_of_def)
  have "\<not> (k \<noteq> sequenceKey (e_Sequence e) \<or> e_BatchID e \<noteq> [])" using e by simp
  from "3.IH" [OF this c] "3.prems" obtain ms where
    "pending_members B d t n entries = Inr ms" "length ms = min n (length entries)" by auto
  then show ?case using e c by simp
qed simp_all

lemma bind_members_succeeds:
  "\<forall>e \<in> set es. good_evidence e \<Longrightarrow> validID ident \<Longrightarrow> ready B d n \<Longrightarrow> flat B d n \<Longrightarrow>
   \<exists>ids d'. bind_members B (tenant_path n) ident i es d = Inr (ids, d')"
proof (induction es arbitrary: i d)
  case (Cons e es)
  have good: "good_evidence (bound_to ident i e)" and ID: "validID (e_ID e)"
    using Cons.prems(1,2) by (simp_all add: good_evidence_def)
  have len: "length (e_ID e) \<le> 7000" "e_ID e \<noteq> []"
    using validID_text [OF ID] by simp_all
  have "length (marshal_evidence (bound_to ident i e)) \<le> 200000"
    using length_marshal_evidence [OF good] by (simp add: maxRecordBytes_def)
  then obtain d1 where p: "put_evidence B (tenant_path n) (bound_to ident i e) d = Inr d1"
    using put_succeeds_in [OF Cons.prems(3,4) tenantBuckets_simps(1) len(2) max_key_ge [OF len(1)] max_value_ge]
    by (auto simp: put_evidence_def)
  note c1 = changes_put_evidence [OF p good]
  have rd1: "ready B d1 n" "flat B d1 n" using changes_rf [OF c1 Cons.prems(3,4)] by simp_all
  obtain d2 where del: "bk_delete B d1 (bucket (tenant_path n) ''pending'') (sequenceKey (e_Sequence e)) = Inr d2"
    using delete_succeeds_in [OF rd1 tenantBuckets_simps(4)] by blast
  note c2 = changes_delete_pending [OF del]
  have "\<exists>ids d'. bind_members B (tenant_path n) ident (i + 1) es d2 = Inr (ids, d')"
    using Cons.prems(1,2) changes_rf [OF c2 rd1] by (intro Cons.IH) simp_all
  then show ?case using p del by (auto simp: bound_to_def)
qed simp

lemma pending_entry:
  assumes wf: "wf_view (view B d n)" and flat: "flat B d n"
    and kv: "(k, v) \<in> set (bk_entries B d (bucket (tenant_path n) ''pending''))"
  shows "\<exists>i e. v = Some i \<and> stored_evidence B d (tenant_path n) i = Inr e \<and>
      k = sequenceKey (e_Sequence e) \<and> e_BatchID e = []"
proof -
  have "\<forall>(k, v) \<in> set (bk_entries B d (bucket (tenant_path n) ''pending'')).
      v \<noteq> None \<and> bk_get B d (bucket (tenant_path n) ''pending'') k = v"
    by (rule entries_flat) (rule flat_bucket [OF flat tenantBuckets_simps(4)])
  with kv obtain i where i: "v = Some i" "bk_get B d (bucket (tenant_path n) ''pending'') k = Some i" by auto
  then show ?thesis using wf_pending [OF wf, of k i] by auto
qed

lemma Freeze_succeeds:
  assumes ok: "store_ok B d" and acc: "accepting B" and arg: "validText n" "validText key"
      "1 \<le> limit" "limit \<le> 1024"
    and pend: "pending_evidence (tenant_view B d n) e"
    and new: "v_batch_keys (tenant_view B d n) key = None"
    and id: "fresh_id (v_batch (tenant_view B d n)) raw"
  shows "\<exists>b d'. Freeze B n key limit d (Inr raw # rnd) = (Inr b, d', rnd) \<and> f_ID b = hex_encode raw"
proof -
  let ?t = "tenant_path n" and ?ident = "hex_encode raw"
  have ex: "bk_exists B d ?t"
    using pend by (auto simp: pending_evidence_def tenant_view_def empty_view_def split: if_splits)
  then have v: "tenant_view B d n = view B d n" and rd: "ready B d n" "flat B d n" "wf_view (view B d n)"
    using ok by (simp_all add: tenant_view_def store_ok_def)
  have t: "tenant B d n False = Inr (?t, d)" using rd(1) by (simp add: tenant_readonly)
  let ?E = "bk_entries B d (bucket ?t ''pending'')"
  obtain ms where ms: "pending_members B d ?t (nat limit) ?E = Inr ms" "length ms = min (nat limit) (length ?E)"
    using pending_members_succeeds [of ?E d ?t "nat limit"] pending_entry [OF rd(3,2)] by blast
  have "bk_get B d (bucket ?t ''pending'') (sequenceKey (e_Sequence e)) = Some (e_ID e)"
    using wf_pending [OF rd(3), of "sequenceKey (e_Sequence e)" "e_ID e"] pend
    by (auto simp: v pending_evidence_def)
  then have "?E \<noteq> []" using entries_get [of _ "e_ID e" d "bucket ?t ''pending''"] by auto
  then have "0 < min (nat limit) (length ?E)" using arg(3) by simp
  then have "0 < length ms" by (simp only: ms(2))
  then have ne: "ms \<noteq> []" by simp
  have fifo: "fifo (view B d n) (nat limit) (map fst ms)" "map snd ms = map commit_of (map fst ms)"
    using pending_members_fifo [OF rd(3,2) ms(1)] by simp_all
  have len: "1 \<le> length (map snd ms)" "length (map snd ms) \<le> 1024"
    using fifo(1) arg(4) ne by (auto simp: fifo_def Suc_le_eq)
  let ?m = "manifest_of (map snd ms)"
  have "validate ?m = None" by (rule validate_manifest_of) (use len in simp_all)
  then have man: "bindE (New_manifest (map snd ms)) MarshalBinary_manifest = Inr (manifest_bytes ?m)"
    using New_manifest_of [of "map snd ms"] len by (simp add: MarshalBinary_manifest_eq_Inr)
  have none: "bk_get B d (bucket ?t ''batch_keys'') key = None" using new by (simp add: v)
  have nid: "newID (bk_get B d (bucket ?t ''batches'')) (Inr raw # rnd) = (Inr ?ident, rnd)"
    using id by (intro newID_fresh) (simp_all add: v fresh_id_def frozen_absent)
  have vid: "validID ?ident" using id by (simp add: fresh_id_def validID_hex)
  have idlen: "?ident \<noteq> []" "length ?ident \<le> 7000" using validID_text [OF vid] by simp_all
  have es: "\<forall>e \<in> set (map fst ms). good_evidence e"
    using fifo(1) wf_evidenceD(1) [OF rd(3)] unfolding fifo_def pending_evidence_def by blast
  obtain ids d1 where bind: "bind_members B ?t ?ident 0 (map fst ms) d = Inr (ids, d1)"
    using bind_members_succeeds [OF es vid rd(1,2)] by blast
  note bound = bind_members_changes [OF bind es vid]
  have rd1: "ready B d1 n" "flat B d1 n" using changes_rf [OF conjunct2 [OF bound] rd(1,2)] by simp_all
  define b where "b = \<lparr>f_ID = ?ident, f_Limit = limit, f_EvidenceIDs = ids,
    f_Manifest = manifest_bytes ?m, f_SubmissionState = SubmissionNotSubmitted, f_SubmissionRef = []\<rparr>"
  have "int (length ms) \<le> limit" using fifo(1) arg(3) by (auto simp: fifo_def)
  then have good: "good_batch b"
    using arg(3,4) len vid bound es Parse_manifest_bytes [OF \<open>validate ?m = None\<close>]
    by (auto simp: good_batch_def b_def good_evidence_def manifest_of_def MaxBatchEntries_def)
  have "length (marshal_batch b) \<le> 200000"
    using length_marshal_batch [OF good] by (simp add: maxRecordBytes_def)
  then obtain d2 where p1: "put_batch B ?t ?ident b d1 = Inr d2"
    using put_succeeds_in [OF rd1 tenantBuckets_simps(5) idlen(1) max_key_ge [OF idlen(2)] max_value_ge]
    by (auto simp: put_batch_def)
  have p1': "put_batch B ?t (f_ID b) b d1 = Inr d2" using p1 by (simp add: b_def)
  have rd2: "ready B d2 n" "flat B d2 n" using changes_rf [OF changes_put_batch [OF p1' good] rd1] by simp_all
  have vlen: "length ?ident \<le> max_value" using idlen(2) by (intro max_value_ge) simp
  have "key \<noteq> []" "length key \<le> 7000" using arg(2) by (auto simp: validText_def)
  then obtain d3 where p2: "bk_put B d2 (bucket ?t ''batch_keys'') key ?ident = Inr d3"
    using put_succeeds_in [OF rd2 tenantBuckets_simps(6) _ max_key_ge vlen] by auto
  have rd3: "ready B d3 n" "flat B d3 n" using changes_rf [OF changes_put_batch_keys [OF p2] rd2] by simp_all
  have mlen: "length (manifest_bytes ?m) \<le> 200000" by simp
  obtain d4 where p3: "bk_put B d3 (bucket ?t ''outbox'') ?ident (manifest_bytes ?m) = Inr d4"
    using put_succeeds_in [OF rd3 tenantBuckets_simps(7) idlen(1) max_key_ge [OF idlen(2)]
        max_value_ge [OF mlen]] by blast
  have "freeze B n key limit d (Inr raw # rnd) = (Inr (b, d4), rnd)"
    unfolding freeze_def t Let_def sum.case prod.case none option.case ms(1) if_not_P [OF ne] man nid
    using bind p1 p2 p3 by (simp add: b_def)
  then have "Freeze B n key limit d (Inr raw # rnd) = (Inr b, d4, rnd)"
    using arg acc by (simp add: Freeze_def Update_rnd_Inr MaxBatchEntries_def)
  then show ?thesis by (auto simp: b_def)
qed

section \<open>Submission\<close>

lemma RecordSubmission_succeeds:
  assumes ok: "store_ok B d" and acc: "accepting B" and arg: "validText n"
      "validSubmissionState state" "ref = [] \<or> validText ref"
    and c: "v_batch (tenant_view B d n) ident = Inr c"
    and st: "f_SubmissionState c = SubmissionSubmitted \<longrightarrow> state = SubmissionSubmitted"
  shows "\<exists>d'. RecordSubmission B n ident state ref d =
    (Inr (c\<lparr>f_SubmissionState := state, f_SubmissionRef := ref\<rparr>), d')"
proof -
  let ?b = "c\<lparr>f_SubmissionState := state, f_SubmissionRef := ref\<rparr>"
  have ex: "bk_exists B d (tenant_path n)"
    using c by (auto simp: tenant_view_def empty_view_def split: if_splits)
  then have v: "tenant_view B d n = view B d n" and rd: "ready B d n" "flat B d n" "wf_view (view B d n)"
    using ok by (simp_all add: tenant_view_def store_ok_def)
  have fc: "frozen B d (tenant_path n) ident = Inr c" using c by (simp add: v)
  note C = wf_batchD [OF rd(3), of ident c]
  have good: "good_batch ?b" and ID: "f_ID c = ident" using C(1,2) fc arg by (auto simp: good_batch_def)
  then have vid: "validID ident" by (simp add: good_batch_def)
  have idlen: "ident \<noteq> []" "length ident \<le> 7000" using validID_text [OF vid] by simp_all
  have "length (marshal_batch ?b) \<le> 200000"
    using length_marshal_batch [OF good] by (simp add: maxRecordBytes_def)
  then obtain d1 where p1: "put_batch B (tenant_path n) ident ?b d = Inr d1"
    using put_succeeds_in [OF rd(1,2) tenantBuckets_simps(5) idlen(1) max_key_ge [OF idlen(2)] max_value_ge]
    by (auto simp: put_batch_def)
  have p1': "put_batch B (tenant_path n) (f_ID ?b) ?b d = Inr d1" using p1 ID by simp
  have rd1: "ready B d1 n" "flat B d1 n" using changes_rf [OF changes_put_batch [OF p1' good] rd(1,2)] by simp_all
  have "length (f_Manifest c) = 61"
    using C(1) fc manifest.dec_bounds by (fastforce simp: good_batch_def)
  then have "length (f_Manifest c) \<le> max_value" by (intro max_value_ge) simp
  then obtain d2 where p2: "(if state = SubmissionSubmitted
      then bk_delete B d1 (bucket (tenant_path n) ''outbox'') ident
      else bk_put B d1 (bucket (tenant_path n) ''outbox'') ident (f_Manifest ?b)) = Inr d2"
    using put_succeeds_in [OF rd1 tenantBuckets_simps(7) idlen(1) max_key_ge [OF idlen(2)]]
      delete_succeeds_in [OF rd1 tenantBuckets_simps(7)] by (cases "state = SubmissionSubmitted") auto
  have t: "tenant B d n False = Inr (tenant_path n, d)" using rd(1) by (simp add: tenant_readonly)
  have cond: "\<not> (f_SubmissionState c = SubmissionSubmitted \<and> state \<noteq> SubmissionSubmitted)"
    using st by blast
  have "RecordSubmission B n ident state ref d = (Inr ?b, d2)"
    using arg vid acc p1 p2
    by (auto simp: RecordSubmission_def Update_def t fc cond Let_def)
  then show ?thesis by blast
qed

end

end
