(* ===== verification/Proof_Verify.thy ===== *)
theory Proof_Verify
  imports Proof_Package
begin

text \<open>
  Local verification in package \<^verbatim>\<open>proof\<close> (\<^verbatim>\<open>pkg/proof/verify.go\<close>): the per-check report
  and \<open>Verify_package\<close>, which reads a bounded package, recomputes the commitment, checks
  membership in the carried manifest and hashes the supplied document. The lemmas say exactly
  when the report claims integrity; the properties say what that claim is worth, up to SHA-256
  collisions, and that the report never claims an authenticated anchor.
\<close>

section \<open>Reports\<close>

datatype status = Verified | Failed | Unavailable | Unsupported

record check =
  c_Status :: status
  c_Reason :: string

record report =
  r_Format :: check
  r_Document :: check
  r_Inclusion :: check
  r_Anchor :: check

definition Check :: "status \<Rightarrow> string \<Rightarrow> check" where
  "Check s r = \<lparr>c_Status = s, c_Reason = r\<rparr>"

lemma Check_sel [simp]: "c_Status (Check s r) = s" "c_Reason (Check s r) = r"
  by (simp_all add: Check_def)

definition initialReport :: report where
  "initialReport = \<lparr>
     r_Format = Check Unavailable ''package has not been decoded'',
     r_Document = Check Unavailable ''document digest has not been checked'',
     r_Inclusion = Check Unavailable ''batch membership has not been checked'',
     r_Anchor = Check Unavailable
       ''anchor authentication was not performed; no anchor verifier is implemented''\<rparr>"

definition IntegrityVerified :: "report \<Rightarrow> bool" where
  "IntegrityVerified r \<longleftrightarrow> c_Status (r_Format r) = Verified \<and> c_Status (r_Document r) = Verified
     \<and> c_Status (r_Inclusion r) = Verified"

definition Verify_package :: "reader option \<Rightarrow> reader option \<Rightarrow> i64 \<Rightarrow> report" where
  "Verify_package document encodedPackage maxDocumentBytes =
     (let result = initialReport in
      case Read_package encodedPackage of
        Inl err \<Rightarrow>
          let status = (if errors_is err ErrUnsupported then Unsupported else Failed)
          in result\<lparr>r_Format := Check status (error_text err)\<rparr>
      | Inr p \<Rightarrow>
          let result = result\<lparr>
                r_Format := Check Verified ''experimental unanchored package structure is valid'',
                r_Anchor := Check Unavailable
                  ''unanchored package contains no independently authenticated publication evidence''\<rparr>
          in case Compute (p_Witness p) of
              Inl err \<Rightarrow> result\<lparr>r_Inclusion := Check Failed (error_text err)\<rparr>
            | Inr c \<Rightarrow>
                let result = (case Verify_manifest (p_Manifest p) c (p_Index p) (p_Path p) of
                      Some err \<Rightarrow> result\<lparr>r_Inclusion := Check Failed
                        ''document commitment does not match the carried batch proof''\<rparr>
                    | None \<Rightarrow> result\<lparr>r_Inclusion := Check Verified
                        ''commitment belongs to the carried manifest; manifest is not externally authenticated''\<rparr>)
                in (case Verify_commitment document (p_Witness p) c maxDocumentBytes of
                      Some err \<Rightarrow> result\<lparr>r_Document := Check Failed (error_text err)\<rparr>
                    | None \<Rightarrow> result\<lparr>r_Document := Check Verified
                        ''exact document bytes match the private witness''\<rparr>))"

section \<open>When integrity is claimed\<close>

lemma IntegrityVerified_iff:
  "IntegrityVerified (Verify_package d pkg k) \<longleftrightarrow>
    (\<exists>p c. Read_package pkg = Inr p \<and> Compute (p_Witness p) = Inr c
      \<and> Verify_manifest (p_Manifest p) c (p_Index p) (p_Path p) = None
      \<and> hashDocument d k = Inr (w_DocumentDigest (p_Witness p)))"
  by (cases "Read_package pkg"; cases "Compute (p_Witness (projr (Read_package pkg)))")
    (auto simp: Verify_package_def IntegrityVerified_def initialReport_def Let_def
      Verify_commitment_None dest: Verify_commitment_Some split: option.splits)

lemma report_anchor: "c_Status (r_Anchor (Verify_package d pkg k)) = Unavailable"
  by (auto simp: Verify_package_def initialReport_def Let_def split: sum.splits option.splits)

lemma report_unread:
  "Read_package pkg = Inl err \<Longrightarrow>
   Verify_package d pkg k = initialReport\<lparr>r_Format :=
     Check (if errors_is err ErrUnsupported then Unsupported else Failed) (error_text err)\<rparr>"
  by (simp add: Verify_package_def Let_def)

lemma report_read:
  "Read_package pkg = Inr p \<Longrightarrow> c_Status (r_Format (Verify_package d pkg k)) = Verified"
  by (auto simp: Verify_package_def initialReport_def Let_def split: sum.splits option.splits)

section \<open>Errors of the parser\<close>

lemma Parse_commitment_New: "Parse_commitment bs = Inl e \<Longrightarrow> \<exists>s. e = New s"
  by (auto simp: Parse_commitment_def Encode_def Let_def split: if_splits)

lemma validate_New: "validate m = Some e \<Longrightarrow> \<exists>s. e = New s"
  by (auto simp: validate_def split: if_splits)

lemma Parse_manifest_New: "Parse_manifest bs = Inl e \<Longrightarrow> \<exists>s. e = New s"
  by (auto simp: Parse_manifest_def Let_def result_simps split: if_splits dest: validate_New)

text \<open>The inputs that carry a well-framed package of a profile or feature that is not supported.\<close>

definition unsupported_input :: "bytes \<Rightarrow> bool" where
  "unsupported_input bs \<longleftrightarrow> 170 \<le> length bs \<and> length bs \<le> 682 \<and> slice 0 8 bs = magic \<and>
     (bs ! 8 \<noteq> 1 \<or>
      unat (bs ! 168) \<le> 16 \<and> length bs = 170 + 32 * unat (bs ! 168) \<and>
      (last bs \<noteq> 0 \<or>
       \<not> (bs ! 31 = 1 \<and> bs ! 32 = 1 \<and> (bs ! 33 = 1 \<or> bs ! 33 = 2) \<and> bs ! 34 = 0 \<and>
          bs ! 116 = 1 \<and> bs ! 117 = 1 \<and> bs ! 118 = 1 \<and> bs ! 119 = 1)))"

lemma Parse_package_unsupported:
  "Parse_package bs = Inl e \<Longrightarrow> errors_is e ErrUnsupported \<longleftrightarrow> unsupported_input bs"
proof -
  assume err: "Parse_package bs = Inl e"
  have "bs \<noteq> []" if "170 \<le> length bs" using that by auto
  then have last: "last bs = bs ! (length bs - 1)" if "170 \<le> length bs"
    using that by (simp add: last_conv_nth)
  show ?thesis
    using err last
    by (auto simp: Parse_package_def unsupported_input_def MaxPackageBytes_def PackageVersion_def
        Let_def result_simps not_less not_le split: if_splits
        dest!: Parse_commitment_New Parse_manifest_New)
qed

section \<open>Batches of evidence\<close>

text \<open>
  Evidence is a witness with the document it was made for; \<open>honest\<close> evidence has a supported
  witness that carries the digest of its document. \<open>batch_inputs\<close> are the strings hashed when
  a batch is made of the evidence, \<open>verifier_inputs\<close> those hashed when a package is verified.
\<close>

definition honest :: "(witness \<times> bytes) list \<Rightarrow> bool" where
  "honest ev \<longleftrightarrow> (\<forall>(w, doc) \<in> set ev. supported w \<and> w_DocumentDigest w = sha256 doc)"

definition commitments_of :: "(witness \<times> bytes) list \<Rightarrow> b32 list" where
  "commitments_of ev = map (\<lambda>(w, doc). sha256 (preimage w)) ev"

definition batch_inputs :: "(witness \<times> bytes) list \<Rightarrow> bytes set" where
  "batch_inputs ev = preimage ` fst ` set ev \<union> snd ` set ev
     \<union> set (root_inputs (map b32_bytes (commitments_of ev)))"

definition verifier_inputs :: "package \<Rightarrow> bytes \<Rightarrow> bytes set" where
  "verifier_inputs p doc = {preimage (p_Witness p), doc}
     \<union> set (path_inputs (b32_bytes (sha256 (preimage (p_Witness p)))) (p_Index p)
         (m_Size (p_Manifest p)) (p_Path p))"

lemma member_or_collision:
  assumes "honest ev" and "supported w" and "sha256 (preimage w) \<in> set (commitments_of ev)"
    and "w_DocumentDigest w = sha256 doc"
  shows "(w, doc) \<in> set ev \<or>
    collision_between {preimage w, doc} (preimage ` fst ` set ev \<union> snd ` set ev)"
proof -
  let ?coll = "collision_between {preimage w, doc} (preimage ` fst ` set ev \<union> snd ` set ev)"
  obtain v d where v: "(v, d) \<in> set ev" "sha256 (preimage w) = sha256 (preimage v)"
    using assms(3) by (auto simp: commitments_of_def)
  then have hv: "supported v" "w_DocumentDigest v = sha256 d"
    using assms(1) by (auto simp: honest_def)
  have in_ev: "preimage v \<in> preimage ` fst ` set ev" "d \<in> snd ` set ev"
    using v(1) by force+
  have "preimage w = preimage v \<or> ?coll"
    by (rule sha256_eq_cases [OF v(2)]) (use in_ev in auto)
  moreover have "doc = d \<or> ?coll" if "preimage w = preimage v"
  proof -
    have "w = v" using that preimage_inject assms(2) hv(1) by blast
    then have "sha256 doc = sha256 d" using assms(4) hv(2) by simp
    then show ?thesis by (rule sha256_eq_cases) (use in_ev in auto)
  qed
  ultimately show ?thesis
    using v(1) preimage_inject [OF assms(2) hv(1)] by auto
qed

lemma Integrity_binds_root:
  assumes "honest ev" and "Read_package pkg = Inr p"
    and "m_Root (p_Manifest p) = Root (map b32_bytes (commitments_of ev))"
    and "IntegrityVerified (Verify_package (Some d) pkg k)"
  shows "(p_Witness p, content d) \<in> set ev \<or>
    collision_between (verifier_inputs p (content d)) (batch_inputs ev)"
proof -
  let ?w = "p_Witness p" and ?cs = "commitments_of ev"
  let ?path_in = "set (path_inputs (b32_bytes (sha256 (preimage ?w))) (p_Index p)
         (m_Size (p_Manifest p)) (p_Path p))"
  have w: "supported ?w" "w_DocumentDigest ?w = sha256 (content d)"
    and ok: "Verify (b32_bytes (sha256 (preimage ?w))) (p_Index p) (m_Size (p_Manifest p))
      (p_Path p) (Root (map b32_bytes ?cs)) = None"
    using assms(2-4)
    by (auto simp: IntegrityVerified_iff Compute_eq_Inr hashDocument_eq_Inr Verify_manifest_None)
  from merkle.check_member [OF ok]
  have "sha256 (preimage ?w) \<in> set ?cs \<or>
      collision_between ?path_in (set (root_inputs (map b32_bytes ?cs)))"
    by (auto simp: b32_bytes_inject)
  then show ?thesis
  proof
    assume "sha256 (preimage ?w) \<in> set ?cs"
    from member_or_collision [OF assms(1) w(1) this w(2)] show ?thesis
      by (rule collision_or_mono) (auto simp: verifier_inputs_def batch_inputs_def)
  next
    assume "collision_between ?path_in (set (root_inputs (map b32_bytes ?cs)))"
    then have "collision_between (verifier_inputs p (content d)) (batch_inputs ev)"
      by (rule collision_between_mono) (auto simp: verifier_inputs_def batch_inputs_def)
    then show ?thesis ..
  qed
qed

text \<open>The package of one member of a batch, as the service exports it.\<close>

definition export_package :: "(witness \<times> bytes) list \<Rightarrow> u64 \<Rightarrow> package result" where
  "export_package ev i =
     bindE (New_manifest (commitments_of ev)) (\<lambda>m.
     bindE (Path (map b32_bytes (commitments_of ev)) i) (\<lambda>path.
       Inr \<lparr>p_Witness = fst (ev ! unat i), p_Manifest = m, p_Index = i, p_Path = path\<rparr>))"

lemma export_package_ok:
  assumes "honest ev" and "length ev \<le> 65536" and "unat i < length ev"
  shows "\<exists>p. export_package ev i = Inr p \<and> package_ok p \<and> p_Witness p = fst (ev ! unat i)
    \<and> Verify_manifest (p_Manifest p) (sha256 (preimage (p_Witness p))) (p_Index p) (p_Path p) = None"
proof -
  let ?cs = "commitments_of ev"
  have len: "length ?cs = length ev" by (simp add: commitments_of_def)
  have m: "New_manifest ?cs = Inr (manifest_of ?cs)"
    by (rule New_manifest_of) (use assms len in simp_all)
  have lt: "length ?cs < 2 ^ 63" "length (map b32_bytes ?cs) < 2 ^ 64" using assms(2) len by simp_all
  obtain q where q: "Path (map b32_bytes ?cs) i = Inr q"
    and ver: "Verify (map b32_bytes ?cs ! unat i) i (of_nat (length (map b32_bytes ?cs))) q
      (Root (map b32_bytes ?cs)) = None"
    using merkle.open_checks [OF lt(2), of i] assms(3) len by auto
  have c: "?cs ! unat i = sha256 (preimage (fst (ev ! unat i)))"
    using assms(3) by (simp add: commitments_of_def split: prod.splits)
  let ?p = "\<lparr>p_Witness = fst (ev ! unat i), p_Manifest = manifest_of ?cs, p_Index = i, p_Path = q\<rparr>"
  have sup: "supported (fst (ev ! unat i))"
    using assms(1,3) nth_mem [of "unat i" ev]
    by (cases "ev ! unat i") (auto simp: honest_def)
  have val: "validate (manifest_of ?cs) = None"
    by (rule validate_manifest_of) (use assms len in simp_all)
  have "package_ok ?p"
    using sup val ver by (simp add: package_ok_def Verify_None_iff) (simp add: manifest_of_def)
  moreover have "Verify_manifest (manifest_of ?cs) (?cs ! unat i) i q = None"
    using New_manifest_check [OF lt(1) m] ver assms(3) len by simp
  ultimately show ?thesis by (simp add: export_package_def m q c)
qed

lemma Read_bytes_reader:
  "MarshalBinary_package p = Inr bs \<Longrightarrow> Read_package (Some (bytes_reader bs)) = Inr p"
  by (simp add: Read_package_eq_Inr package.dec_enc)

section \<open>Properties\<close>

text \<open>
  C17. The package format is strict in both directions, its encodings have
  \<open>170 + 32 n\<close> bytes for \<open>n\<close> siblings, between 170 and 682 bytes: a package encodes to some
  bytes exactly when those bytes parse to this package.
\<close>

theorem package_format_strict:
  "(MarshalBinary_package p = Inr bs \<longleftrightarrow> Parse_package bs = Inr p) \<and>
   (Parse_package bs = Inr p \<longrightarrow>
      length bs = 170 + 32 * length (p_Path p) \<and> 170 \<le> length bs \<and> length bs \<le> 682)"
  using package.dec_iff_enc [of bs p] package.dec_bounds [of bs p] package_bytes_Parse [of bs p]
  by auto

definition sample_evidence :: "(witness \<times> bytes) list" where
  "sample_evidence =
     [(\<lparr>w_Version = 1, w_Algorithm = 1, w_Representation = 1, w_Metadata = 0,
        w_DocumentDigest = sha256 [1], w_Nonce = b32_copy [7]\<rparr>, [1]),
      (\<lparr>w_Version = 1, w_Algorithm = 1, w_Representation = 2, w_Metadata = 0,
        w_DocumentDigest = sha256 [2, 3], w_Nonce = b32_copy [8]\<rparr>, [2, 3])]"

lemma sample_honest: "honest sample_evidence"
  by (simp add: honest_def sample_evidence_def supported_def)

lemma sample_export:
  obtains p bs where "export_package sample_evidence 1 = Inr p" "package_ok p"
    "MarshalBinary_package p = Inr bs" "p_Witness p = fst (sample_evidence ! 1)"
    "IntegrityVerified (Verify_package (Some (bytes_reader [2, 3])) (Some (bytes_reader bs)) 9)"
proof -
  obtain p where p: "export_package sample_evidence 1 = Inr p" "package_ok p"
    "p_Witness p = fst (sample_evidence ! 1)"
    "Verify_manifest (p_Manifest p) (sha256 (preimage (p_Witness p))) (p_Index p) (p_Path p) = None"
    using export_package_ok [OF sample_honest, of 1] by (auto simp: sample_evidence_def)
  have bs: "MarshalBinary_package p = Inr (package_bytes p)"
    using p(2) by (simp add: MarshalBinary_package_eq_Inr)
  have "IntegrityVerified
      (Verify_package (Some (bytes_reader [2, 3])) (Some (bytes_reader (package_bytes p))) 9)"
    unfolding IntegrityVerified_iff Read_bytes_reader [OF bs]
    using p(2,4) p(3) by (auto simp: Compute_eq_Inr package_ok_def hashDocument_eq_Inr max_int64_def
        sample_evidence_def)
  with p bs show thesis by (intro that)
qed

theorem package_format_strict_witness:
  "\<exists>p bs. Parse_package bs = Inr p \<and> length bs = 170 + 32 * length (p_Path p) \<and> length bs \<le> 682"
proof -
  obtain p bs where "MarshalBinary_package p = Inr bs" using sample_export by metis
  then show ?thesis using package_format_strict [of p bs] by blast
qed

text \<open>
  The parser reports an input as unsupported exactly when it is a well-framed package of
  another version, with an anchor count, or with an unsupported commitment or manifest profile;
  every other refused input is reported as malformed.
\<close>

theorem package_unsupported_iff:
  assumes "Parse_package bs = Inl e"
  shows "errors_is e ErrUnsupported \<longleftrightarrow> unsupported_input bs"
  using assms by (rule Parse_package_unsupported)

theorem package_unsupported_iff_witness:
  "\<exists>e. Parse_package (magic @ replicate 162 9) = Inl e \<and> errors_is e ErrUnsupported"
proof -
  have err: "Parse_package (magic @ replicate 162 9) = Inl (Sent ErrUnsupported)"
    by (simp add: Parse_package_def MaxPackageBytes_def PackageVersion_def nth_append)
  have "unsupported_input (magic @ replicate 162 9)"
    by (simp add: unsupported_input_def nth_append)
  with package_unsupported_iff [OF err] err show ?thesis by auto
qed

text \<open>
  The bounded read of a package loses nothing: it accepts exactly the readers that end
  without an error and whose whole content parses, and every longer input is refused by its
  length, whatever follows the first 683 bytes and however the reader would end.
\<close>

theorem package_read_bounded:
  "(Read_package (Some r) = Inr p \<longleftrightarrow> ending r = Eof \<and> Parse_package (content r) = Inr p) \<and>
   (683 < length (content r) \<longrightarrow>
      Read_package (Some r) = Inl (New ''invalid package length''))"
proof (intro conjI impI)
  show "Read_package (Some r) = Inr p \<longleftrightarrow> ending r = Eof \<and> Parse_package (content r) = Inr p"
    by (simp add: Read_package_eq_Inr)
  assume "683 < length (content r)"
  then show "Read_package (Some r) = Inl (New ''invalid package length'')"
    by (simp add: Read_package_def read_limited_def Parse_package_def MaxPackageBytes_def Let_def)
qed

theorem package_read_bounded_witness:
  "Read_package (Some \<lparr>content = replicate 700 0, ending = Fail_after (New ''broken'')\<rparr>) =
     Inl (New ''invalid package length'')"
  using package_read_bounded
    [of "\<lparr>content = replicate 700 0, ending = Fail_after (New ''broken'')\<rparr>"] by simp

text \<open>
  C14. A report claims integrity exactly when the package could be read, its witness is
  supported, the recomputed commitment belongs to the carried manifest at the carried index, and
  the document, read within the limit, has the digest of the witness.
\<close>

theorem integrity_claim_iff:
  "IntegrityVerified (Verify_package d pkg k) \<longleftrightarrow>
    (\<exists>p c. Read_package pkg = Inr p \<and> Compute (p_Witness p) = Inr c
      \<and> Verify_manifest (p_Manifest p) c (p_Index p) (p_Path p) = None
      \<and> hashDocument d k = Inr (w_DocumentDigest (p_Witness p)))"
  by (rule IntegrityVerified_iff)

text \<open>
  The report never claims more than was checked: the anchor is always unavailable, and when
  the package cannot be read the document and the inclusion stay unavailable and the format is
  unsupported or failed according to the error.
\<close>

theorem report_claims_limited:
  "c_Status (r_Anchor (Verify_package d pkg k)) = Unavailable \<and>
   (\<forall>e. Read_package pkg = Inl e \<longrightarrow>
      c_Status (r_Format (Verify_package d pkg k)) =
        (if errors_is e ErrUnsupported then Unsupported else Failed) \<and>
      c_Status (r_Document (Verify_package d pkg k)) = Unavailable \<and>
      c_Status (r_Inclusion (Verify_package d pkg k)) = Unavailable)"
  by (simp add: report_anchor report_unread initialReport_def)

theorem report_claims_limited_witness:
  "c_Status (r_Format (Verify_package None None 0)) = Failed \<and>
   c_Status (r_Document (Verify_package None None 0)) = Unavailable"
proof -
  have "Read_package None = Inl (New ''package reader is required'')"
    by (simp add: Read_package_def)
  then show ?thesis using report_claims_limited [of None None 0] by simp
qed

text \<open>
  Tamper evidence: if one encoded package verifies two documents, the documents are the same
  bytes, or they collide.
\<close>

theorem package_tamper_evident:
  assumes "IntegrityVerified (Verify_package (Some d) pkg k)"
    and "IntegrityVerified (Verify_package (Some e) pkg l)"
  shows "content d = content e \<or> collision_between {content d} {content e}"
proof -
  have "sha256 (content d) = sha256 (content e)"
    using assms by (auto simp: IntegrityVerified_iff hashDocument_eq_Inr)
  then show ?thesis by (rule sha256_eq_cases) simp_all
qed

theorem package_tamper_evident_witness:
  "\<exists>pkg. IntegrityVerified (Verify_package (Some (bytes_reader [2, 3])) pkg 9) \<and>
    (content (bytes_reader [2, 3]) = content (bytes_reader [2, 3]) \<or>
     collision_between {content (bytes_reader [2, 3])} {content (bytes_reader [2, 3])})"
proof -
  obtain pkg where "IntegrityVerified (Verify_package (Some (bytes_reader [2, 3])) pkg 9)"
    using sample_export by metis
  from this package_tamper_evident [OF this this] show ?thesis by blast
qed

text \<open>
  C1. Who authenticates the root of a batch authenticates its documents: if a package that
  carries the root of a batch of honest evidence verifies a document, then the package's witness
  and this very document are one of the batch's, or an input hashed by the verifier collides with
  one hashed when the batch was made. The package's own size, index and path are not trusted.
\<close>

theorem root_authenticates_documents:
  assumes "honest ev" and "Read_package pkg = Inr p"
    and "m_Root (p_Manifest p) = Root (map b32_bytes (commitments_of ev))"
    and "IntegrityVerified (Verify_package (Some d) pkg k)"
  shows "(p_Witness p, content d) \<in> set ev \<or>
    collision_between (verifier_inputs p (content d)) (batch_inputs ev)"
  using assms by (rule Integrity_binds_root)

theorem root_authenticates_documents_witness:
  "\<exists>p. (p_Witness p, [2, 3]) \<in> set sample_evidence \<or>
    collision_between (verifier_inputs p [2, 3]) (batch_inputs sample_evidence)"
proof -
  obtain p bs where p: "export_package sample_evidence 1 = Inr p" "MarshalBinary_package p = Inr bs"
    and ok: "IntegrityVerified (Verify_package (Some (bytes_reader [2, 3])) (Some (bytes_reader bs)) 9)"
    using sample_export by metis
  have "New_manifest (commitments_of sample_evidence) =
      Inr (manifest_of (commitments_of sample_evidence))"
    by (rule New_manifest_of) (simp_all add: commitments_of_def sample_evidence_def)
  then have "p_Manifest p = manifest_of (commitments_of sample_evidence)"
    using p(1) by (auto simp: export_package_def result_simps)
  then have root: "m_Root (p_Manifest p) = Root (map b32_bytes (commitments_of sample_evidence))"
    by (simp add: manifest_of_def)
  from root_authenticates_documents [OF sample_honest Read_bytes_reader [OF p(2)] root ok]
  show ?thesis by auto
qed

text \<open>
  Every member of a batch of up to 65536 pieces of honest evidence can be exported: the
  package built from the batch's manifest and the generated path encodes, and the encoded bytes
  verify the member's document under every limit that admits it.
\<close>

theorem batch_member_exports:
  assumes "honest ev" and "length ev \<le> 65536" and "unat i < length ev"
    and "int (length (snd (ev ! unat i))) \<le> sint k" and "k \<noteq> max_int64"
  shows "\<exists>p bs. export_package ev i = Inr p \<and> MarshalBinary_package p = Inr bs \<and>
    IntegrityVerified
      (Verify_package (Some (bytes_reader (snd (ev ! unat i)))) (Some (bytes_reader bs)) k)"
proof -
  obtain p where p: "export_package ev i = Inr p" "package_ok p" "p_Witness p = fst (ev ! unat i)"
    "Verify_manifest (p_Manifest p) (sha256 (preimage (p_Witness p))) (p_Index p) (p_Path p) = None"
    using export_package_ok [OF assms(1-3)] by blast
  have bs: "MarshalBinary_package p = Inr (package_bytes p)"
    using p(2) by (simp add: MarshalBinary_package_eq_Inr)
  have "w_DocumentDigest (p_Witness p) = sha256 (snd (ev ! unat i))"
    using assms(1) nth_mem [OF assms(3)] p(3) by (cases "ev ! unat i") (auto simp: honest_def)
  then have "hashDocument (Some (bytes_reader (snd (ev ! unat i)))) k =
      Inr (w_DocumentDigest (p_Witness p))"
    using assms(4,5) by (simp add: hashDocument_eq_Inr)
  then show ?thesis
    using p bs Read_bytes_reader [OF bs]
    by (auto simp: IntegrityVerified_iff Compute_eq_Inr package_ok_def)
qed

theorem batch_member_exports_witness:
  "\<exists>p bs. export_package sample_evidence 0 = Inr p \<and> MarshalBinary_package p = Inr bs \<and>
    IntegrityVerified (Verify_package (Some (bytes_reader [1])) (Some (bytes_reader bs)) 1)"
  using batch_member_exports [OF sample_honest, of 0 1]
  by (simp add: sample_evidence_def max_int64_def)

text \<open>
  What \<open>CreateUnanchored\<close> returns is a complete package: it encodes, its encoding parses
  back to it, and verifies the document it was made from under every limit that admits it; the
  anchor is still reported as unavailable.
\<close>

theorem created_package_verifies:
  assumes "CreateUnanchored (Some d) representation m rnd = (Inr p, rnd')"
    and "int (length (content d)) \<le> sint k" and "k \<noteq> max_int64"
  shows "\<exists>bs. MarshalBinary_package p = Inr bs \<and> Parse_package bs = Inr p \<and>
    (let report = Verify_package (Some d) (Some (bytes_reader bs)) k
     in IntegrityVerified report \<and> c_Status (r_Anchor report) = Unavailable)"
proof -
  obtain c where p: "package_ok p" "p_Index p = 0" "p_Path p = []"
    "hashDocument (Some d) m = Inr (w_DocumentDigest (p_Witness p))"
    "Compute (p_Witness p) = Inr c" "p_Manifest p = manifest_of [c]"
    using CreateUnanchored_Inr [OF assms(1)] by blast
  have bs: "MarshalBinary_package p = Inr (package_bytes p)"
    using p(1) by (simp add: MarshalBinary_package_eq_Inr)
  have "Verify (b32_bytes c) 0 1 [] (Root [b32_bytes c]) = None"
    by (simp add: Verify_None_iff Root_1)
  then have "Verify_manifest (manifest_of [c]) c 0 [] = None"
    using validate_manifest_of [of "[c]"] by (simp add: Verify_manifest_None manifest_of_def)
  moreover have "hashDocument (Some d) k = Inr (w_DocumentDigest (p_Witness p))"
    using p(4) assms(2,3) by (auto simp: hashDocument_eq_Inr)
  ultimately have "IntegrityVerified (Verify_package (Some d) (Some (bytes_reader (package_bytes p))) k)"
    unfolding IntegrityVerified_iff Read_bytes_reader [OF bs] using p by auto
  then show ?thesis
    using bs package.dec_enc [OF bs] by (simp add: report_anchor)
qed

theorem created_package_verifies_witness:
  "\<exists>p bs. fst (CreateUnanchored (Some (bytes_reader [1])) 1 4 [Inr [9]]) = Inr p \<and>
    Parse_package bs = Inr p"
proof -
  have h: "hashDocument (Some (bytes_reader [1])) 4 = Inr (sha256 [1])"
    by (simp add: hashDocument_eq_Inr max_int64_def)
  obtain w c rnd' where new:
    "New_commitment (Some (bytes_reader [1])) 1 4 [Inr [9]] = (Inr (w, c), rnd')"
    using New_commitment_succeeds [of "Some (bytes_reader [1])" 1 4 "[Inr [9]]"] h
    by (auto simp: Original_def)
  have "New_manifest [c] = Inr (manifest_of [c])" by (rule New_manifest_of) simp_all
  then obtain p where p: "CreateUnanchored (Some (bytes_reader [1])) 1 4 [Inr [9]] = (Inr p, rnd')"
    by (simp add: CreateUnanchored_def new)
  show ?thesis using created_package_verifies [OF p, of 4] p by (auto simp: max_int64_def)
qed

end
