(* ===== verification/Storage_Export.thy ===== *)
theory Storage_Export
  imports Storage_Progress Proof_Verify
begin

text \<open>
  What the reading operations of the store return in a store that satisfies its invariant: the
  records as they are, the outbox exactly, and for every member of a frozen batch a package that
  belongs to the manifest of the batch. Of the database they need that their transaction begins.
\<close>

section \<open>Reading\<close>

context bolt_laws
begin

lemma view_of:
  assumes "store_ok B d" and "bk_exists B d (tenant_path n)"
  shows "tenant_view B d n = view B d n" "ready B d n" "flat B d n" "wf_view (view B d n)"
    "tenant B d n False = Inr (tenant_path n, d)"
  using assms tenant_readonly [of B d n] by (simp_all add: store_ok_def tenant_view_def)

lemma no_tenant:
  assumes "store_ok B d" and "\<not> bk_exists B d (tenant_path n)"
  shows "tenant_view B d n = empty_view" "tenant B d n False = Inl (Sent ErrNotFound)"
  using assms by (simp_all add: store_ok_def tenant_view_def tenant_def Let_def)

lemma Store_Evidence_eq:
  assumes ok: "store_ok B d" and acc: "bk_begin B d = None"
  shows "Store_Evidence B n ident d =
    (if \<not> validText n \<or> \<not> validID ident then Inl (Sent ErrInvalid)
     else v_evidence (tenant_view B d n) ident)"
proof (cases "bk_exists B d (tenant_path n)")
  case True
  then show ?thesis using acc view_of [OF ok True] by (simp add: Store_Evidence_def View_def)
next
  case False
  then show ?thesis using acc no_tenant [OF ok False]
    by (simp add: Store_Evidence_def View_def empty_view_def)
qed

lemma Store_Batch_eq:
  assumes ok: "store_ok B d" and acc: "bk_begin B d = None"
  shows "Store_Batch B n ident d =
    (if \<not> validText n \<or> \<not> validID ident then Inl (Sent ErrInvalid)
     else v_batch (tenant_view B d n) ident)"
proof (cases "bk_exists B d (tenant_path n)")
  case True
  then show ?thesis using acc view_of [OF ok True] by (simp add: Store_Batch_def View_def)
next
  case False
  then show ?thesis using acc no_tenant [OF ok False]
    by (simp add: Store_Batch_def View_def empty_view_def)
qed

section \<open>Export\<close>

lemma member_entries_eq:
  "list_all2 (\<lambda>i e. stored_evidence B d t i = Inr e) ids es \<Longrightarrow>
   \<forall>j < length es. e_BatchID (es ! j) = bid \<and> e_Index (es ! j) = of_nat (i + j) \<Longrightarrow>
   member_entries B d t bid i ids = Inr (map (\<lambda>e. b32_bytes (commit_of e)) es)"
proof (induction ids es arbitrary: i rule: list_all2_induct)
  case (Cons x xs e es)
  have "supported (e_Witness e)" using stored_evidence_good [OF Cons.hyps(1)] by simp
  then have c: "Compute (e_Witness e) = Inr (commit_of e)"
    by (simp add: Compute_def Encode_supported commit_of_def)
  have 0: "e_BatchID e = bid" "e_Index e = of_nat i" using Cons.prems by auto
  have "\<forall>j < length es. e_BatchID (es ! j) = bid \<and> e_Index (es ! j) = of_nat ((i + 1) + j)"
    using Cons.prems by auto
  from Cons.IH [OF this] show ?case using Cons.hyps(1) c 0 by simp
qed simp

lemma member_place:
  assumes wf: "wf_view v" and e: "v_evidence v i = Inr e" "e_BatchID e \<noteq> []"
  shows "\<exists>b es. v_batch v (e_BatchID e) = Inr b \<and> members_of v b es \<and>
    unat (e_Index e) < length es \<and> es ! unat (e_Index e) = e \<and>
    f_EvidenceIDs b ! unat (e_Index e) = i \<and> length es = length (f_EvidenceIDs b) \<and>
    1 \<le> length es \<and> length es \<le> 1024"
proof -
  obtain b where b: "v_batch v (e_BatchID e) = Inr b" "unat (e_Index e) < length (f_EvidenceIDs b)"
    "f_EvidenceIDs b ! unat (e_Index e) = i"
    using wf_batched [OF wf e] by blast
  obtain es where es: "members_of v b es" using wf_batchD(3) [OF wf b(1)] by blast
  have len: "length es = length (f_EvidenceIDs b)"
    using es by (auto simp: members_of_def dest!: list_all2_lengthD)
  have "v_evidence v (f_EvidenceIDs b ! unat (e_Index e)) = Inr (es ! unat (e_Index e))"
    using es b(2) by (auto simp: members_of_def dest: list_all2_nthD)
  then have "es ! unat (e_Index e) = e" using e(1) b(3) by simp
  then show ?thesis
    using b es len good_batch_length [OF wf_batchD(1) [OF wf b(1)]] by fastforce
qed

lemma UnanchoredPackage_member:
  assumes ok: "store_ok B d" and acc: "bk_begin B d = None" and arg: "validText n"
    and e: "v_evidence (tenant_view B d n) i = Inr e" "e_BatchID e \<noteq> []"
  shows "\<exists>b es p. v_batch (tenant_view B d n) (e_BatchID e) = Inr b \<and>
    members_of (tenant_view B d n) b es \<and> es ! unat (e_Index e) = e \<and>
    UnanchoredPackage B n i d = Inr p \<and> package_ok p \<and> p_Witness p = e_Witness e \<and>
    p_Manifest p = manifest_of (map commit_of es) \<and> p_Index p = e_Index e \<and>
    Verify_manifest (p_Manifest p) (commit_of e) (p_Index p) (p_Path p) = None"
proof -
  have ex: "bk_exists B d (tenant_path n)"
    using e(1) by (auto simp: tenant_view_def empty_view_def split: if_splits)
  note V = view_of [OF ok ex]
  have se: "stored_evidence B d (tenant_path n) i = Inr e" using e(1) V(1) by simp
  note good = stored_evidence_good [OF se]
  obtain b es where b: "v_batch (view B d n) (e_BatchID e) = Inr b"
    and es: "members_of (view B d n) b es"
    and k: "unat (e_Index e) < length es" "es ! unat (e_Index e) = e"
      "f_EvidenceIDs b ! unat (e_Index e) = i" "length es = length (f_EvidenceIDs b)"
    and len: "1 \<le> length es" "length es \<le> 1024"
    using member_place [OF V(4), of i e] e V(1) by auto
  let ?cs = "map commit_of es" and ?m = "manifest_of (map commit_of es)"
  have ents: "member_entries B d (tenant_path n) (f_ID b) 0 (f_EvidenceIDs b) =
      Inr (map b32_bytes ?cs)"
    using member_entries_eq [of d "tenant_path n" "f_EvidenceIDs b" es "f_ID b" 0] es
    by (simp add: members_of_def comp_def)
  have val: "validate ?m = None" by (rule validate_manifest_of) (use len in simp_all)
  have man: "Parse_manifest (f_Manifest b) = Inr ?m"
    using es Parse_manifest_bytes [OF val] by (simp add: members_of_def)
  have lt: "length (map b32_bytes ?cs) < 2 ^ 64" "length ?cs < 2 ^ 63" using len by simp_all
  obtain q where q: "Path (map b32_bytes ?cs) (e_Index e) = Inr q"
    and ver: "Verify (map b32_bytes ?cs ! unat (e_Index e)) (e_Index e)
      (of_nat (length (map b32_bytes ?cs))) q (Root (map b32_bytes ?cs)) = None"
    using merkle.open_checks [OF lt(1), of "e_Index e"] k(1) by auto
  let ?p = "\<lparr>p_Witness = e_Witness e, p_Manifest = ?m, p_Index = e_Index e, p_Path = q\<rparr>"
  have idx: "\<not> of_nat (length (f_EvidenceIDs b)) \<le> e_Index e"
    using k(1,4) len by (simp add: word_le_nat_alt unat_of_nat)
  have fr: "frozen B d (tenant_path n) (e_BatchID e) = Inr b" using b by simp
  have root: "Root (map b32_bytes ?cs) = m_Root ?m" by (simp add: manifest_of_def)
  have "UnanchoredPackage B n i d = Inr ?p"
    using arg acc good e(2) k(3) idx
    by (simp add: UnanchoredPackage_def View_def V(5) se fr ents man root q del: map_map)
  moreover have "package_ok ?p"
    using good val ver k len by (simp add: package_ok_def Verify_None_iff commit_of_def) (simp add: manifest_of_def)
  moreover have "Verify_manifest ?m (?cs ! unat (e_Index e)) (e_Index e) q = None"
    using New_manifest_check [OF lt(2) New_manifest_of [of ?cs]] ver k len by simp
  ultimately show ?thesis using b es k V(1) by fastforce
qed

lemma UnanchoredPackage_error:
  assumes ok: "store_ok B d" and acc: "bk_begin B d = None" and arg: "validText n" "validID i"
  shows "UnanchoredPackage B n i d = Inl err \<longleftrightarrow>
    (\<exists>x. v_evidence (tenant_view B d n) i = Inl x) \<and> err = Sent ErrNotFound \<or>
    (\<exists>e. v_evidence (tenant_view B d n) i = Inr e \<and> e_BatchID e = []) \<and> err = Sent ErrNotBatched"
proof (cases "bk_exists B d (tenant_path n)")
  case True
  note V = view_of [OF ok True]
  show ?thesis
  proof (cases "v_evidence (tenant_view B d n) i")
    case (Inl x)
    then have "stored_evidence B d (tenant_path n) i = Inl (Sent ErrNotFound)"
      using V(1) wf_absent [OF V(4), of i x] by simp
    then show ?thesis using Inl arg acc by (auto simp: UnanchoredPackage_def View_def V(5))
  next
    case (Inr e)
    then have "stored_evidence B d (tenant_path n) i = Inr e" using V(1) by simp
    then show ?thesis using Inr arg acc UnanchoredPackage_member [OF ok acc arg(1) Inr]
      by (cases "e_BatchID e = []") (auto simp: UnanchoredPackage_def View_def V(5))
  qed
next
  case False
  show ?thesis using no_tenant [OF ok False] arg acc
    by (auto simp: UnanchoredPackage_def View_def empty_view_def)
qed

section \<open>Outbox\<close>

text \<open>The batches of a tenant that wait for submission, and what the outbox says of one.\<close>

end

definition waiting :: "tview \<Rightarrow> gostring set" where
  "waiting v = {i. \<exists>b. v_batch v i = Inr b \<and> f_SubmissionState b \<noteq> SubmissionSubmitted}"

definition submission_of :: "tview \<Rightarrow> gostring \<Rightarrow> submission" where
  "submission_of v i = (let b = projr (v_batch v i) in
     \<lparr>o_BatchID = i, o_Manifest = f_Manifest b, o_State = f_SubmissionState b,
      o_Ref = f_SubmissionRef b\<rparr>)"

context bolt_laws
begin

lemma outbox_entries_eq:
  "\<forall>(k, v) \<in> set entries. \<exists>b. frozen B d (tenant_path n) k = Inr b \<and> v = Some (f_Manifest b) \<Longrightarrow>
   outbox_entries B d (tenant_path n) m entries =
     Inr (map (submission_of (view B d n)) (take m (map fst entries)))"
proof (induction B d "tenant_path n" m entries rule: outbox_entries.induct)
  case (3 B d m k v entries)
  then obtain b where b: "frozen B d (tenant_path n) k = Inr b" "v = Some (f_Manifest b)" by auto
  have IH: "outbox_entries B d (tenant_path n) m entries =
      Inr (map (submission_of (view B d n)) (take m (map fst entries)))"
    by (rule "3.hyps") (use b "3.prems" in auto)
  show ?case using b by (simp add: IH submission_of_def Let_def)
qed simp_all

lemma outbox_entries_of:
  assumes wf: "wf_view (view B d n)" and flat: "flat B d n"
  defines "E \<equiv> bk_entries B d (bucket (tenant_path n) ''outbox'')"
  shows "\<forall>(k, v) \<in> set E. \<exists>b. frozen B d (tenant_path n) k = Inr b \<and> v = Some (f_Manifest b)"
    and "map fst E = sorted_list_of_set (waiting (view B d n))" and "finite (waiting (view B d n))"
proof -
  let ?p = "bucket (tenant_path n) ''outbox''"
  have get: "\<forall>(k, v) \<in> set E. v \<noteq> None \<and> bk_get B d ?p k = v"
    unfolding E_def by (rule entries_flat) (rule flat_bucket [OF flat tenantBuckets_simps(7)])
  have out: "bk_get B d ?p k = Some m \<longleftrightarrow> (\<exists>b. frozen B d (tenant_path n) k = Inr b \<and>
      f_SubmissionState b \<noteq> SubmissionSubmitted \<and> m = f_Manifest b)" for k m
    using wf_outbox [OF wf, of k m] by simp
  show "\<forall>(k, v) \<in> set E. \<exists>b. frozen B d (tenant_path n) k = Inr b \<and> v = Some (f_Manifest b)"
    using get out by fastforce
  have "k \<in> set (map fst E) \<longleftrightarrow> k \<in> waiting (view B d n)" for k
  proof
    assume "k \<in> set (map fst E)"
    then obtain v where "(k, v) \<in> set E" by auto
    with get obtain m where "bk_get B d ?p k = Some m" by fastforce
    then show "k \<in> waiting (view B d n)" using out by (auto simp: waiting_def)
  next
    assume "k \<in> waiting (view B d n)"
    then obtain m where "bk_get B d ?p k = Some m" using out by (auto simp: waiting_def)
    then have "(k, Some m) \<in> set E" by (simp add: E_def entries_get)
    then show "k \<in> set (map fst E)" by force
  qed
  then have eq: "set (map fst E) = waiting (view B d n)" by blast
  have "sorted_list_of_set (set (map fst E)) = map fst E"
    using entries_sorted [of d ?p] unfolding E_def
    by (intro sorted_list_of_set.idem_if_sorted_distinct) (simp_all add: strict_sorted_iff)
  then show "map fst E = sorted_list_of_set (waiting (view B d n))" by (simp only: eq)
  show "finite (waiting (view B d n))" using eq by (metis finite_set)
qed

lemma Outbox_eq:
  assumes ok: "store_ok B d" and acc: "bk_begin B d = None"
    and arg: "validText n" "1 \<le> limit" "limit \<le> 1024"
  shows "Outbox B n limit d =
    (if bk_exists B d (tenant_path n)
     then Inr (map (submission_of (tenant_view B d n))
       (take (nat limit) (sorted_list_of_set (waiting (tenant_view B d n)))))
     else Inl (Sent ErrNotFound))"
proof (cases "bk_exists B d (tenant_path n)")
  case True
  note V = view_of [OF ok True]
  show ?thesis
    using arg acc True outbox_entries_eq [OF outbox_entries_of(1) [OF V(4,3)]]
    by (simp add: Outbox_def View_def V(5) outbox_entries_of(2) [OF V(4,3)] MaxBatchEntries_def V(1))
next
  case False
  then show ?thesis using arg acc no_tenant [OF ok False]
    by (simp add: Outbox_def View_def MaxBatchEntries_def)
qed

section \<open>Refused submissions\<close>

lemma RecordSubmission_refused:
  assumes ok: "store_ok B d" and acc: "accepting B" and arg: "validText n" "validID i"
      "validSubmissionState state" "ref = [] \<or> validText ref"
  shows "v_batch (tenant_view B d n) i = Inl x \<Longrightarrow>
      RecordSubmission B n i state ref d = (Inl (Sent ErrNotFound), d)"
    and "v_batch (tenant_view B d n) i = Inr c \<Longrightarrow>
      f_SubmissionState c = SubmissionSubmitted \<Longrightarrow> state \<noteq> SubmissionSubmitted \<Longrightarrow>
      RecordSubmission B n i state ref d = (Inl (Sent ErrConflict), d)"
proof -
  assume x: "v_batch (tenant_view B d n) i = Inl x"
  show "RecordSubmission B n i state ref d = (Inl (Sent ErrNotFound), d)"
  proof (cases "bk_exists B d (tenant_path n)")
    case True
    note V = view_of [OF ok True]
    have "frozen B d (tenant_path n) i = Inl (Sent ErrNotFound)"
      using x V(1) wf_batch_absent [OF V(4), of i x] by simp
    then show ?thesis using arg acc V(5) by (auto simp: RecordSubmission_def Update_def)
  next
    case False
    show ?thesis using arg acc no_tenant(2) [OF ok False] by (auto simp: RecordSubmission_def Update_def)
  qed
next
  assume c: "v_batch (tenant_view B d n) i = Inr c"
    "f_SubmissionState c = SubmissionSubmitted" "state \<noteq> SubmissionSubmitted"
  then have ex: "bk_exists B d (tenant_path n)"
    by (auto simp: tenant_view_def empty_view_def split: if_splits)
  note V = view_of [OF ok ex]
  have "frozen B d (tenant_path n) i = Inr c" using c(1) V(1) by simp
  then show "RecordSubmission B n i state ref d = (Inl (Sent ErrConflict), d)"
    using arg acc V(5) c(2,3) by (auto simp: RecordSubmission_def Update_def)
qed

section \<open>Opening\<close>

lemma open_schema_succeeds:
  assumes acc: "accepting B" and empty: "bk_entries B d [] = []"
  shows "\<exists>d'. open_schema B d = (Inr (), d')"
proof -
  have no: "\<not> bk_exists B d (k # p)" "bk_get B d [] k = None" for k p
    using no_entries [OF empty] by blast+
  obtain d1 where c1: "bk_create B d [] (ascii ''schema'') = Inr d1"
    using create_succeeds [of d "[]" "ascii ''schema''"] exists_root no by (auto simp: max_key_def)
  have ex1: "bk_exists B d1 q \<longleftrightarrow> q = schema_path \<or> q = []" for q
    using no exists_root by (cases q) (auto simp: create_exists [OF c1] schema_path_def)
  obtain d2 where p: "bk_put B d1 schema_path (ascii ''version'') [1] = Inr d2"
    using put_succeeds [of d1 schema_path "ascii ''version''" "[1]"] ex1
    by (auto simp: schema_path_def max_key_def max_value_def)
  have "\<not> bk_exists B d2 ([] @ [ascii ''tenants''])" "bk_get B d2 [] (ascii ''tenants'') = None"
    using no(2) by (simp_all add: put_exists [OF p] put_get [OF p] create_get [OF c1] ex1 schema_path_def)
  then obtain d3 where c2: "bk_create B d2 [] (ascii ''tenants'') = Inr d3"
    using create_succeeds [of d2 "[]" "ascii ''tenants''"] exists_root by (auto simp: max_key_def)
  have "\<not> bk_exists B d schema_path" using no(1) by (simp add: schema_path_def)
  then have "open_schema B d = (Inr (), d3)"
    unfolding open_schema_def Update_Inr using acc empty c1 p c2 by (simp del: ascii_Cons)
  then show ?thesis by blast
qed

lemma open_schema_version:
  assumes "open_schema B d = (Inr u, d')"
  shows "bk_get B d' schema_path (ascii ''version'') = Some [1]" "bk_exists B d' tenants_path"
    "\<not> bk_exists B d schema_path \<Longrightarrow> bk_entries B d [] = []"
proof -
  have "bk_get B d' schema_path (ascii ''version'') = Some [1] \<and> bk_exists B d' tenants_path \<and>
    (\<not> bk_exists B d schema_path \<longrightarrow> bk_entries B d [] = [])"
  proof (cases "bk_exists B d schema_path")
    case True
    then show ?thesis using assms
      by (auto simp: open_schema_def Update_Inr simp del: ascii_Cons split: if_splits)
  next
    case False
    then obtain d1 d2 where empty: "bk_entries B d [] = []"
      and p: "bk_put B d1 schema_path (ascii ''version'') [1] = Inr d2"
      and c2: "bk_create B d2 [] (ascii ''tenants'') = Inr d'"
      using assms by (auto simp: open_schema_def Update_Inr bindE_eq_Inr simp del: ascii_Cons split: if_splits)
    have "schema_path \<noteq> [] @ [ascii ''tenants'']" by (simp add: schema_path_def)
    then show ?thesis
      using empty create_get [OF c2, of schema_path] put_get [OF p, of schema_path] create_exists [OF c2]
      by (simp add: tenants_path_def del: ascii_Cons)
  qed
  then show "bk_get B d' schema_path (ascii ''version'') = Some [1]" "bk_exists B d' tenants_path"
    "\<not> bk_exists B d schema_path \<Longrightarrow> bk_entries B d [] = []" by blast+
qed

lemma open_schema_refused:
  assumes acc: "accepting B" and run: "open_schema B d = (Inl err, d')"
  shows "if bk_exists B d schema_path
     then bk_get B d schema_path (ascii ''version'') \<noteq> Some [1] \<or> \<not> bk_exists B d tenants_path
     else bk_entries B d [] \<noteq> []"
proof (cases "bk_exists B d schema_path")
  case True
  then show ?thesis using acc run
    by (auto simp: open_schema_def Update_def simp del: ascii_Cons split: if_splits)
next
  case False
  then show ?thesis using open_schema_succeeds [OF acc, of d] run by auto
qed

text \<open>The package of a batched member encodes, and verifies every document of its digest.\<close>

lemma member_exports:
  assumes ok: "store_ok B d" and acc: "bk_begin B d = None" and arg: "validText n"
    and e: "v_evidence (tenant_view B d n) i = Inr e" "e_BatchID e \<noteq> []"
  shows "\<exists>b p bs. v_batch (tenant_view B d n) (e_BatchID e) = Inr b \<and>
    UnanchoredPackage B n i d = Inr p \<and> Parse_manifest (f_Manifest b) = Inr (p_Manifest p) \<and>
    p_Witness p = e_Witness e \<and> MarshalBinary_package p = Inr bs \<and>
    (\<forall>doc k. hashDocument doc k = Inr (w_DocumentDigest (e_Witness e)) \<longrightarrow>
       IntegrityVerified (Verify_package doc (Some (bytes_reader bs)) k))"
proof -
  obtain b es p where b: "v_batch (tenant_view B d n) (e_BatchID e) = Inr b"
    and es: "members_of (tenant_view B d n) b es"
    and p: "UnanchoredPackage B n i d = Inr p" "package_ok p" "p_Witness p = e_Witness e"
      "p_Manifest p = manifest_of (map commit_of es)"
      "Verify_manifest (p_Manifest p) (commit_of e) (p_Index p) (p_Path p) = None"
    using UnanchoredPackage_member [OF ok acc arg e] by blast
  have "validate (p_Manifest p) = None" "supported (p_Witness p)"
    using p(2) by (simp_all add: package_ok_def)
  then have man: "Parse_manifest (f_Manifest b) = Inr (p_Manifest p)"
    and c: "Compute (e_Witness e) = Inr (commit_of e)"
    using es p(3,4) Parse_manifest_bytes by (simp_all add: members_of_def Compute_def Encode_supported commit_of_def)
  have bs: "MarshalBinary_package p = Inr (package_bytes p)"
    using p(2) by (simp add: MarshalBinary_package_eq_Inr)
  have "IntegrityVerified (Verify_package doc (Some (bytes_reader (package_bytes p))) k)"
    if "hashDocument doc k = Inr (w_DocumentDigest (e_Witness e))" for doc k
    using that p(3,5) c by (simp add: IntegrityVerified_iff Read_bytes_reader [OF bs])
  then show ?thesis using b p(1,3) man bs by auto
qed

end

end
