(* ===== verification/Storage_Upload.thy ===== *)
theory Storage_Upload
  imports Storage_Export
begin

text \<open>
  The upload of a document, \<open>IngestDocument\<close>: three transactions with other callers' runs between
  them. The lemmas say that whatever the others did, the evidence returned is stored, is that of
  the source version and representation, and has the digest of the uploaded bytes.
\<close>

section \<open>The evidence of a source\<close>

definition source_located :: "tview \<Rightarrow> gostring \<Rightarrow> source \<Rightarrow> u8 \<Rightarrow> gostring option" where
  "source_located v key src rep =
     (case v_keys v key of Some i \<Rightarrow> Some i | None \<Rightarrow> v_sources v (sourceKey src rep))"

lemma located_source: "located v req =
   source_located v (i_Key req) (i_Source req) (w_Representation (i_Witness req))"
  by (simp add: located_def source_located_def)

lemma source_located_evidence:
  "wf_view v \<Longrightarrow> source_located v key src rep = Some i \<Longrightarrow> \<exists>e. v_evidence v i = Inr e"
  by (auto simp: source_located_def wf_sources dest: wf_keys split: option.splits)

context bolt_laws
begin

lemma find_evidence_eq:
  assumes ok: "store_ok B d" and acc: "accepting B"
  shows "find_evidence B n key src rep d =
    (case source_located (tenant_view B d n) key src rep of
       None \<Rightarrow> Inr None
     | Some i \<Rightarrow>
         (case v_evidence (tenant_view B d n) i of
            Inl err \<Rightarrow> Inl err
          | Inr e \<Rightarrow> if e_Source e \<noteq> src \<or> w_Representation (e_Witness e) \<noteq> rep
                    then Inl (Sent ErrConflict) else Inr (Some e)))"
proof (cases "bk_exists B d (tenant_path n)")
  case True
  note V = view_of [OF ok True]
  have "e_ID e \<noteq> []" if "stored_evidence B d (tenant_path n) i = Inr e" for i e
    using stored_evidence_good [OF that] validID_text by auto
  then show ?thesis
    using acc V
    by (auto simp: find_evidence_def View_def source_located_def bindE_def split: option.splits sum.splits)
next
  case False
  show ?thesis using no_tenant [OF ok False] acc
    by (simp add: find_evidence_def View_def empty_view_def source_located_def)
qed

lemma find_evidence_Some:
  assumes ok: "store_ok B d" and run: "find_evidence B n key src rep d = Inr (Some e)"
  shows "v_evidence (tenant_view B d n) (e_ID e) = Inr e \<and> e_Source e = src \<and>
    w_Representation (e_Witness e) = rep"
proof -
  have ex: "bk_exists B d (tenant_path n)"
    using run no_tenant [OF ok, of n]
    by (auto simp: find_evidence_def View_def bindE_def split: option.splits sum.splits if_splits)
  note V = view_of [OF ok ex]
  obtain i where "stored_evidence B d (tenant_path n) i = Inr e" "e_Source e = src"
    "w_Representation (e_Witness e) = rep"
    using run V(5)
    by (auto simp: find_evidence_def View_def bindE_def split: option.splits sum.splits if_splits)
  then show ?thesis using V(1) stored_evidence_good by fastforce
qed

section \<open>The upload\<close>

text \<open>What the other callers may do between the transactions of one caller.\<close>

end

definition others :: "'d bolt \<Rightarrow> ('d \<Rightarrow> 'd) \<Rightarrow> bool" where
  "others B f \<longleftrightarrow> (\<forall>d. store_run B d (f d))"

lemma othersD: "others B f \<Longrightarrow> store_run B d (f d)"
  by (simp add: others_def)

lemma others_id [simp]: "others B (\<lambda>d. d)"
  by (simp add: others_def run_nil)

context bolt_laws
begin

lemma IngestDocument_sound:
  assumes ok: "store_ok B d" and oth: "others B b1" "others B b2"
    and run: "IngestDocument B b1 b2 req d rnd = (Inr (e, created), d', rnd')"
  shows "store_run B d d' \<and> v_evidence (tenant_view B d' (d_Tenant req)) (e_ID e) = Inr e \<and>
    e_Source e = d_Source req \<and> w_Representation (e_Witness e) = d_Representation req \<and>
    hashDocument (d_Document req) (d_MaxBytes req) = Inr (w_DocumentDigest (e_Witness e))"
proof -
  let ?n = "d_Tenant req"
  let ?find = "\<lambda>d. find_evidence B ?n (d_Key req) (d_Source req) (d_Representation req) d"
  note run' = run [unfolded IngestDocument_def]
  obtain r where find1: "?find d = Inr r" using run' by (cases "?find d") (auto split: if_splits)
  show ?thesis
  proof (cases r)
    case (Some x)
    then have "e = x" "d' = d" and ver: "hashDocument (d_Document req) (d_MaxBytes req) =
        Inr (w_DocumentDigest (e_Witness x))"
      using run' find1
      by (auto simp: Verify_commitment_None split: if_splits sum.splits option.splits)
    then show ?thesis using find_evidence_Some [OF ok find1 [unfolded Some]] run_nil by auto
  next
    case None
    obtain w c rnd1 where
      new: "New_commitment (d_Document req) (d_Representation req) (d_MaxBytes req) rnd = (Inr (w, c), rnd1)"
      using run' find1 None by (auto split: if_splits sum.splits prod.splits)
    note W = New_commitment_Inr [OF new]
    let ?req = "\<lparr>i_Tenant = ?n, i_Key = d_Key req, i_Source = d_Source req, i_Witness = w\<rparr>"
    obtain res d1 rnd2 where ing: "Ingest B ?req (b1 d) rnd1 = (res, d1, rnd2)"
      by (cases "Ingest B ?req (b1 d) rnd1")
    have b1: "store_run B d (b1 d)" by (rule othersD [OF oth(1)])
    have ok1: "store_ok B (b1 d)" using store_run_ok [OF b1 ok] by simp
    have r1: "store_run B d d1" by (rule run_step [OF b1 step_ingest [OF ing]])
    note rest = run' [unfolded find1 None new sum.case option.case prod.case, unfolded ing prod.case]
    show ?thesis
    proof (cases res)
      case (Inr ec)
      then have ec: "ec = (e, created)" "d' = d1" using rest by (auto split: if_splits)
      note ref = Ingest_refines [OF ok1 ing [unfolded Inr ec(1)]]
      have "v_evidence (tenant_view B d1 ?n) (e_ID e) = Inr e"
        using ref by (auto simp: ingest_spec_def add_evidence_def split: if_splits)
      moreover have "e_Source e = d_Source req" "e_Witness e = w"
        using ref by (auto simp: ingest_spec_def)
      ultimately show ?thesis using r1 W ec(2) by simp
    next
      case (Inl err)
      have "d1 = b1 d" by (rule Ingest_error [OF ing [unfolded Inl]])
      have b2: "store_run B d1 (b2 d1)" by (rule othersD [OF oth(2)])
      have r2: "store_run B d (b2 d1)" by (rule run_trans [OF b2 r1])
      have ok2: "store_ok B (b2 d1)" using store_run_ok [OF r2 ok] by simp
      have f: "?find (b2 d1) = Inr (Some e)" "d' = b2 d1"
        and dig: "w_DocumentDigest (e_Witness e) = w_DocumentDigest w"
        using rest Inl by (auto simp: Let_def split: if_splits sum.splits option.splits)
      show ?thesis using find_evidence_Some [OF ok2 f(1)] f(2) dig W r2 by simp
    qed
  qed
qed

text \<open>An upload that fails has only let the others run.\<close>

lemma IngestDocument_run:
  assumes oth: "others B b1" "others B b2"
    and run: "IngestDocument B b1 b2 req d rnd = (r, d', rnd')"
  shows "store_run B d d'"
proof -
  let ?bad = "\<not> validText (d_Tenant req) \<or> \<not> validText (d_Key req) \<or> \<not> validSource (d_Source req)
    \<or> (d_Representation req \<noteq> Original \<and> d_Representation req \<noteq> Derived)
    \<or> d_Document req = None \<or> sint (d_MaxBytes req) < 0 \<or> d_MaxBytes req = max_int64"
  let ?find = "find_evidence B (d_Tenant req) (d_Key req) (d_Source req) (d_Representation req)"
  let ?new = "New_commitment (d_Document req) (d_Representation req) (d_MaxBytes req) rnd"
  note run' = run [unfolded IngestDocument_def]
  have same: "d' = d" if "?bad \<or> ?find d \<noteq> Inr None \<or> (\<exists>x. fst ?new = Inl x)"
  proof (cases "?find d")
    case (Inr x)
    then show ?thesis
      using run' that by (cases x; cases ?new) (auto split: if_splits sum.splits option.splits)
  qed (use run' in \<open>auto split: if_splits\<close>)
  show ?thesis
  proof (cases "?bad \<or> ?find d \<noteq> Inr None \<or> (\<exists>x. fst ?new = Inl x)")
    case True
    then show ?thesis using same run_nil by simp
  next
    case False
    then obtain w c rnd1 where new: "?new = (Inr (w, c), rnd1)"
      by (cases ?new; cases "fst ?new") auto
    have good: "\<not> ?bad" and find: "?find d = Inr None" using False by blast+
    let ?req = "\<lparr>i_Tenant = d_Tenant req, i_Key = d_Key req, i_Source = d_Source req, i_Witness = w\<rparr>"
    obtain res d1 rnd2 where ing: "Ingest B ?req (b1 d) rnd1 = (res, d1, rnd2)"
      by (cases "Ingest B ?req (b1 d) rnd1")
    have r1: "store_run B d d1"
      by (rule run_step [OF othersD [OF oth(1)] step_ingest [OF ing]])
    have r2: "store_run B d (b2 d1)" by (rule run_trans [OF othersD [OF oth(2)] r1])
    note rest = run' [unfolded if_not_P [OF good] find new sum.case option.case prod.case,
        unfolded ing prod.case]
    have "d' = d1 \<or> d' = b2 d1"
    proof (cases res)
      case (Inl err)
      then show ?thesis using rest
        by (cases "?find (b2 d1)") (auto simp: Let_def split: if_splits option.splits)
    qed (use rest in simp)
    then show ?thesis using r1 r2 by blast
  qed
qed

end

section \<open>Replays and races\<close>

definition valid_upload :: "document_request \<Rightarrow> bool" where
  "valid_upload req \<longleftrightarrow> validText (d_Tenant req) \<and> validText (d_Key req) \<and> validSource (d_Source req) \<and>
     (d_Representation req = Original \<or> d_Representation req = Derived)"

text \<open>The evidence that an upload finds, and that is of its source version.\<close>

definition held :: "tview \<Rightarrow> document_request \<Rightarrow> evidence \<Rightarrow> bool" where
  "held v req e \<longleftrightarrow>
     source_located v (d_Key req) (d_Source req) (d_Representation req) = Some (e_ID e) \<and>
     v_evidence v (e_ID e) = Inr e \<and> e_Source e = d_Source req \<and>
     w_Representation (e_Witness e) = d_Representation req"

context bolt_laws
begin


lemma Ingest_existing:
  assumes ok: "store_ok B d" and acc: "accepting B" and req: "valid_request req"
    and loc: "located (tenant_view B d (i_Tenant req)) req = Some i"
    and e: "v_evidence (tenant_view B d (i_Tenant req)) i = Inr e"
  shows "if e_Source e = i_Source req \<and> e_Witness e = i_Witness req
    then \<exists>d'. Ingest B req d rnd = (Inr (e, False), d', rnd)
    else Ingest B req d rnd = (Inl (Sent ErrConflict), d, rnd)"
proof -
  let ?n = "i_Tenant req" and ?sk = "sourceKey (i_Source req) (w_Representation (i_Witness req))"
  have r: "validText ?n" "validText (i_Key req)" "validSource (i_Source req)" "supported (i_Witness req)"
    using req by (simp_all add: valid_request_def)
  have ex: "bk_exists B d (tenant_path ?n)"
    using e by (auto simp: tenant_view_def empty_view_def split: if_splits)
  note V = view_of [OF ok ex]
  have t: "tenant B d ?n True = Inr (tenant_path ?n, d)"
    using V(2) tenant_existing [OF ex, of True] by simp
  have look: "(case bk_get B d (bucket (tenant_path ?n) ''keys'') (i_Key req) of
      Some i \<Rightarrow> Some i | None \<Rightarrow> bk_get B d (bucket (tenant_path ?n) ''sources'') ?sk) = Some i"
    using loc V(1) by (simp add: located_def cong: option.case_cong)
  have se: "stored_evidence B d (tenant_path ?n) i = Inr e" using e V(1) by simp
  have vid: "validID (e_ID e)" using stored_evidence_good [OF se] by blast
  have "length (e_ID e) \<le> max_value" using validID_text [OF vid] by (intro max_value_ge) simp
  moreover have "i_Key req \<noteq> []" "length (i_Key req) \<le> 7000" using r(2) by (auto simp: validText_def)
  ultimately obtain d1 where p: "bk_put B d (bucket (tenant_path ?n) ''keys'') (i_Key req) (e_ID e) = Inr d1"
    using put_succeeds_in [OF V(2,3) tenantBuckets_simps(2) _ max_key_ge] by blast
  have "ingest B req d rnd = (if e_Source e = i_Source req \<and> e_Witness e = i_Witness req
      then Inr ((e, False), d1) else Inl (Sent ErrConflict), rnd)"
    unfolding ingest_def t Let_def sum.case prod.case look option.case se using p by simp
  then show ?thesis
    using r acc by (simp add: Ingest_def Update_rnd_def Update_def Compute_def Encode_supported)
qed

lemma held_find:
  assumes "store_ok B d" and "accepting B" and "held (tenant_view B d (d_Tenant req)) req e"
  shows "find_evidence B (d_Tenant req) (d_Key req) (d_Source req) (d_Representation req) d = Inr (Some e)"
  using assms by (simp add: find_evidence_eq held_def)

lemma good_upload:
  "valid_upload req \<Longrightarrow> hashDocument (d_Document req) (d_MaxBytes req) = Inr h \<Longrightarrow>
   \<not> (\<not> validText (d_Tenant req) \<or> \<not> validText (d_Key req) \<or> \<not> validSource (d_Source req)
    \<or> (d_Representation req \<noteq> Original \<and> d_Representation req \<noteq> Derived)
    \<or> d_Document req = None \<or> sint (d_MaxBytes req) < 0 \<or> d_MaxBytes req = max_int64)"
  by (auto simp: valid_upload_def hashDocument_eq_Inr)

lemma IngestDocument_replay:
  assumes ok: "store_ok B d" and acc: "accepting B" and req: "valid_upload req"
    and h: "hashDocument (d_Document req) (d_MaxBytes req) = Inr h"
    and e: "held (tenant_view B d (d_Tenant req)) req e"
  shows "IngestDocument B b1 b2 req d rnd =
    (if w_DocumentDigest (e_Witness e) = h then Inr (e, False) else Inl (Sent ErrConflict), d, rnd)"
proof -
  have ex: "bk_exists B d (tenant_path (d_Tenant req))"
    using e by (auto simp: held_def tenant_view_def empty_view_def split: if_splits)
  have "stored_evidence B d (tenant_path (d_Tenant req)) (e_ID e) = Inr e"
    using e unfolding held_def view_of(1) [OF ok ex] view_sel by blast
  from stored_evidence_good [OF this] have "supported (e_Witness e)" by simp
  then obtain c where c: "Compute (e_Witness e) = Inr c" by (simp add: Compute_def Encode_supported)
  let ?ver = "Verify_commitment (d_Document req) (e_Witness e) c (d_MaxBytes req)"
  have ver: "?ver = None \<longleftrightarrow> w_DocumentDigest (e_Witness e) = h"
    using c h by (auto simp: Verify_commitment_None)
  have "IngestDocument B b1 b2 req d rnd =
      (case ?ver of Some _ \<Rightarrow> (Inl (Sent ErrConflict), d, rnd) | None \<Rightarrow> (Inr (e, False), d, rnd))"
    unfolding IngestDocument_def if_not_P [OF good_upload [OF req h]] held_find [OF ok acc e]
      sum.case option.case c ..
  then show ?thesis using ver by (cases ?ver) auto
qed

lemma IngestDocument_race:
  assumes ok: "store_ok B d" and acc: "accepting B" and req: "valid_upload req"
    and oth: "others B b1" "others B b2"
    and h: "hashDocument (d_Document req) (d_MaxBytes req) = Inr h"
    and none: "source_located (tenant_view B d (d_Tenant req)) (d_Key req) (d_Source req)
      (d_Representation req) = None"
    and e: "held (tenant_view B (b1 d) (d_Tenant req)) req e" "w_DocumentDigest (e_Witness e) = h"
    and key: "v_keys (tenant_view B (b1 d) (d_Tenant req)) (d_Key req) = Some (e_ID e)"
  shows "\<exists>e' d'. IngestDocument B b1 b2 req d (Inr raw # rnd) = (Inr (e', False), d', rnd) \<and>
    e_ID e' = e_ID e \<and> e_Witness e' = e_Witness e"
proof -
  let ?n = "d_Tenant req"
  have find: "find_evidence B ?n (d_Key req) (d_Source req) (d_Representation req) d = Inr None"
    using none by (simp add: find_evidence_eq [OF ok acc])
  have rep: "d_Representation req = Original \<or> d_Representation req = Derived"
    using req by (simp add: valid_upload_def)
  obtain w c rnd1 where new: "New_commitment (d_Document req) (d_Representation req) (d_MaxBytes req)
      (Inr raw # rnd) = (Inr (w, c), rnd1)"
    using New_commitment_succeeds [of "d_Document req" "d_Representation req" "d_MaxBytes req"
        "Inr raw # rnd"] rep h by blast
  note W = New_commitment_Inr [OF new]
  have rnd1: "rnd1 = rnd" and sup: "supported w" using W by (auto dest: Compute_Inr_supported)
  let ?req = "\<lparr>i_Tenant = ?n, i_Key = d_Key req, i_Source = d_Source req, i_Witness = w\<rparr>"
  have ok1: "store_ok B (b1 d)" using store_run_ok [OF othersD [OF oth(1)] ok] by simp
  have val: "valid_request ?req" using req sup by (simp add: valid_request_def valid_upload_def)
  have loc: "located (tenant_view B (b1 d) (i_Tenant ?req)) ?req = Some (e_ID e)"
    using e(1) W by (simp add: located_source held_def)
  have ev: "v_evidence (tenant_view B (b1 d) (i_Tenant ?req)) (e_ID e) = Inr e"
    using e(1) by (simp add: held_def)
  note ing = Ingest_existing [OF ok1 acc val loc ev, of rnd]
  note unf = IngestDocument_def if_not_P [OF good_upload [OF req h]] find new [unfolded rnd1]
    sum.case option.case prod.case
  show ?thesis
  proof (cases "e_Source e = i_Source ?req \<and> e_Witness e = i_Witness ?req")
    case True
    then obtain d1 where i: "Ingest B ?req (b1 d) rnd = (Inr (e, False), d1, rnd)"
      using ing unfolding if_P [OF True] by blast
    show ?thesis unfolding unf i by simp
  next
    case False
    then have i: "Ingest B ?req (b1 d) rnd = (Inl (Sent ErrConflict), b1 d, rnd)"
      using ing unfolding if_not_P [OF False] by blast
    let ?d2 = "b2 (b1 d)"
    note X = store_run_ok [OF othersD [OF oth(2), of "b1 d"] ok1]
    have x: "extends (tenant_view B (b1 d) ?n) (tenant_view B ?d2 ?n)" using X by blast
    obtain e' where e': "v_evidence (tenant_view B ?d2 ?n) (e_ID e) = Inr e'"
      "e_Source e' = e_Source e" "e_Witness e' = e_Witness e"
      using extendsD_evidence [OF x ev [unfolded ingest_request.select_convs]] by metis
    have ID: "e_ID e' = e_ID e"
      using wf_evidenceD(2) [OF tenant_view_wf e'(1)] X by simp
    have "source_located (tenant_view B ?d2 ?n) (d_Key req) (d_Source req) (d_Representation req) =
        Some (e_ID e)"
      using extendsD_index(1) [OF x key] by (simp add: source_located_def)
    then have "held (tenant_view B ?d2 ?n) req e'"
      using e' e(1) ID by (simp add: held_def)
    note f2 = held_find [OF conjunct1 [OF X] acc this]
    have "w_DocumentDigest (e_Witness e') = w_DocumentDigest w" using e'(3) e(2) W h by simp
    then show ?thesis unfolding unf i using f2 e' ID by (simp add: Let_def)
  qed
qed

text \<open>A source version keeps its record through a run.\<close>

lemma stored_record_unique:
  assumes ok: "store_ok B d" and f: "v_evidence (tenant_view B d n) (e_ID f) = Inr f"
    and run: "store_run B d d'" and e: "v_evidence (tenant_view B d' n) (e_ID e) = Inr e"
    and key: "source_key_of e = source_key_of f"
  shows "e_ID e = e_ID f \<and> e_Sequence e = e_Sequence f \<and> e_Witness e = e_Witness f"
proof -
  have ok': "store_ok B d'" and x: "extends (tenant_view B d n) (tenant_view B d' n)"
    using store_run_ok [OF run ok] by blast+
  obtain g where g: "v_evidence (tenant_view B d' n) (e_ID f) = Inr g" "e_Sequence g = e_Sequence f"
    "e_Source g = e_Source f" "e_Witness g = e_Witness f"
    using extendsD_evidence [OF x f] by metis
  have "source_key_of e = source_key_of g" using g key by simp
  from wf_source_unique [OF tenant_view_wf [OF ok'] e g(1) this] have "e_ID e = e_ID f" .
  moreover from this have "e = g" using e g(1) by simp
  ultimately show ?thesis using g by simp
qed

text \<open>Two uploads of one source version return one record.\<close>

lemma uploads_agree:
  assumes ok: "store_ok B d0" and oth: "others B a1" "others B a2" "others B b1" "others B b2"
    and up1: "IngestDocument B a1 a2 req d0 rnd0 = (Inr (e, c), d1, rnd1)"
    and run: "store_run B d1 d2"
    and up2: "IngestDocument B b1 b2 req' d2 rnd2 = (Inr (e', c'), d3, rnd3)"
    and same: "d_Tenant req' = d_Tenant req" "d_Source req' = d_Source req"
      "d_Representation req' = d_Representation req"
  shows "e_ID e' = e_ID e \<and> e_Sequence e' = e_Sequence e \<and> e_Witness e' = e_Witness e"
proof -
  note s1 = IngestDocument_sound [OF ok oth(1,2) up1]
  have ok1: "store_ok B d1" using store_run_ok [OF conjunct1 [OF s1] ok] by simp
  have ok2: "store_ok B d2" using store_run_ok [OF run ok1] by simp
  note s2 = IngestDocument_sound [OF ok2 oth(3,4) up2]
  have r: "store_run B d1 d3" using run_trans [OF _ run] s2 by blast
  show ?thesis
    using stored_record_unique [OF ok1 conjunct1 [OF conjunct2 [OF s1]] r, of e'] s1 s2 same by simp
qed

text \<open>An upload of a new source version creates its record.\<close>

lemma IngestDocument_creates:
  assumes ok: "store_ok B d" and acc: "accepting B" and req: "valid_upload req"
    and oth: "others B b1"
    and h: "hashDocument (d_Document req) (d_MaxBytes req) = Inr h"
    and none: "source_located (tenant_view B d (d_Tenant req)) (d_Key req) (d_Source req)
        (d_Representation req) = None"
      "source_located (tenant_view B (b1 d) (d_Tenant req)) (d_Key req) (d_Source req)
        (d_Representation req) = None"
    and id: "fresh_id (v_evidence (tenant_view B (b1 d) (d_Tenant req))) raw"
    and seq: "v_seq (tenant_view B (b1 d) (d_Tenant req)) + 1 \<noteq> 0"
  shows "\<exists>e d'. IngestDocument B b1 b2 req d (Inr nonce # Inr raw # rnd) = (Inr (e, True), d', rnd) \<and>
    held (tenant_view B d' (d_Tenant req)) req e \<and> w_DocumentDigest (e_Witness e) = h"
proof -
  have find: "find_evidence B (d_Tenant req) (d_Key req) (d_Source req) (d_Representation req) d = Inr None"
    using none(1) by (simp add: find_evidence_eq [OF ok acc])
  have rep: "d_Representation req = Original \<or> d_Representation req = Derived"
    using req by (simp add: valid_upload_def)
  obtain w c rnd1 where new: "New_commitment (d_Document req) (d_Representation req) (d_MaxBytes req)
      (Inr nonce # Inr raw # rnd) = (Inr (w, c), rnd1)"
    using New_commitment_succeeds [of "d_Document req" "d_Representation req" "d_MaxBytes req"
        "Inr nonce # Inr raw # rnd"] rep h by blast
  note W = New_commitment_Inr [OF new]
  have rnd1: "rnd1 = Inr raw # rnd" and sup: "supported w" using W by (auto dest: Compute_Inr_supported)
  let ?req = "\<lparr>i_Tenant = d_Tenant req, i_Key = d_Key req, i_Source = d_Source req, i_Witness = w\<rparr>"
  have ok1: "store_ok B (b1 d)" using store_run_ok [OF othersD [OF oth] ok] by simp
  have val: "valid_request ?req" using req sup by (simp add: valid_request_def valid_upload_def)
  have loc: "located (tenant_view B (b1 d) (i_Tenant ?req)) ?req = None"
    using none(2) W by (simp add: located_source)
  obtain e d' where i: "Ingest B ?req (b1 d) (Inr raw # rnd) = (Inr (e, True), d', rnd)"
    using Ingest_succeeds [OF ok1 acc val loc, of raw rnd] id seq by auto
  have spec: "ingest_spec ?req (tenant_view B (b1 d) (d_Tenant req)) e True (tenant_view B d' (d_Tenant req))"
    using Ingest_refines [OF ok1 i] by simp
  then have "held (tenant_view B d' (d_Tenant req)) req e"
    using W by (auto simp: ingest_spec_def held_def source_located_def add_evidence_def)
  moreover have "w_DocumentDigest (e_Witness e) = h" using spec W h by (simp add: ingest_spec_def)
  moreover have "IngestDocument B b1 b2 req d (Inr nonce # Inr raw # rnd) = (Inr (e, True), d', rnd)"
    unfolding IngestDocument_def if_not_P [OF good_upload [OF req h]] find new [unfolded rnd1]
      sum.case option.case prod.case i ..
  ultimately show ?thesis by blast
qed

end

end
