(* ===== verification/Storage_Example.thy ===== *)
theory Storage_Example
  imports Storage_Upload Proof_Verify
begin

text \<open>
  A concrete history of a store in memory, for the witnesses: the database is opened, a piece of
  evidence is ingested and a batch is frozen.
\<close>

section \<open>A store in memory\<close>

lemma memory_accepting [simp]: "accepting mem_bolt"
  by (simp add: accepting_def)

lemma memory_empty: "bk_entries mem_bolt fmempty [] = []"
proof -
  have "mem_get fmempty [] k = None" "n |\<notin>| mem_children fmempty []" for k n
    using mem_exists_snoc [of fmempty "[]" n]
    by (simp_all add: mem_get_cases mem_bucket_def mem_children_iff)
  then have "mem_children fmempty [] = {||}" by blast
  moreover have "ffilter P {||} = {||}" for P :: "bytes \<Rightarrow> bool" by auto
  ultimately show ?thesis by (simp add: mem_bolt_def mem_bucket_def sorted_list_of_fset.rep_eq)
qed

definition sample_request :: ingest_request where
  "sample_request = \<lparr>i_Tenant = ascii ''t'', i_Key = ascii ''k'',
     i_Source = \<lparr>s_Instance = ascii ''i'', s_Object = ascii ''o'', s_Version = ascii ''v''\<rparr>,
     i_Witness = fst (sample_evidence ! 0)\<rparr>"

lemma sample_request_valid: "valid_request sample_request"
  by (simp add: sample_request_def valid_request_def sample_evidence_def supported_def validText_def
      validSource_def)

lemma sample_open:
  obtains d0 where "open_schema mem_bolt fmempty = (Inr (), d0)" "reachable mem_bolt d0"
    "store_ok mem_bolt d0" "\<And>n. tenant_view mem_bolt d0 n = empty_view"
proof -
  obtain d0 where o: "open_schema mem_bolt fmempty = (Inr (), d0)"
    using memory.open_schema_succeeds [OF _ memory_empty] by auto
  have new: "\<not> bk_exists mem_bolt fmempty schema_path"
    using memory.no_entries(1) [OF memory_empty] by (simp add: schema_path_def)
  note r = reachable_new [OF new o]
  show thesis
    by (rule that [OF o r memory.reachable_ok [OF r] memory.open_schema_new(2) [OF new o]])
qed


text \<open>One piece of evidence captured, frozen and not yet submitted.\<close>

abbreviation sample_raw :: bytes where
  "sample_raw \<equiv> replicate 16 5"

lemma sample_fresh: "fresh_id (\<lambda>_. Inl (Sent ErrNotFound)) sample_raw"
  by (simp add: fresh_id_def)

lemma sample_ingest:
  obtains d0 e d1 where "reachable mem_bolt d0" "\<And>n. tenant_view mem_bolt d0 n = empty_view"
    "Ingest mem_bolt sample_request d0 [Inr sample_raw] = (Inr (e, True), d1, [])"
    "e_ID e = hex_encode sample_raw"
    "reachable mem_bolt d1" "tenant_view mem_bolt d1 (ascii ''t'') = add_evidence e (ascii ''k'') empty_view"
    "e_Witness e = fst (sample_evidence ! 0)" "e_BatchID e = []" "e_Source e = i_Source sample_request"
proof -
  obtain d0 where d0: "reachable mem_bolt d0" "store_ok mem_bolt d0"
    "\<And>n. tenant_view mem_bolt d0 n = empty_view"
    using sample_open by metis
  have new: "located (tenant_view mem_bolt d0 (i_Tenant sample_request)) sample_request = None"
    by (simp add: d0(3) located_def empty_view_def)
  have fresh: "fresh_id (v_evidence (tenant_view mem_bolt d0 (i_Tenant sample_request))) sample_raw"
    using sample_fresh by (simp add: d0(3) empty_view_def)
  have seq: "v_seq (tenant_view mem_bolt d0 (i_Tenant sample_request)) + 1 \<noteq> 0"
    by (simp add: d0(3) empty_view_def)
  obtain e d1 where run: "Ingest mem_bolt sample_request d0 [Inr sample_raw] = (Inr (e, True), d1, [])"
    "e_ID e = hex_encode sample_raw"
    using memory.Ingest_succeeds [OF d0(2) memory_accepting sample_request_valid new fresh seq] by blast
  note ref = memory.Ingest_refines [OF d0(2) run(1)]
  have "i_Tenant sample_request = ascii ''t''" "i_Key sample_request = ascii ''k''"
    by (simp_all add: sample_request_def)
  then have "tenant_view mem_bolt d1 (ascii ''t'') = add_evidence e (ascii ''k'') empty_view"
    "e_Witness e = fst (sample_evidence ! 0)" "e_BatchID e = []" "e_Source e = i_Source sample_request"
    using ref by (simp_all add: ingest_spec_def d0(3) del: ascii_Cons) (simp add: sample_request_def)
  then show thesis
    using that d0(1,3) run reachable_step [OF d0(1) step_ingest [OF run(1)]] by blast
qed

lemma sample_freeze:
  obtains d1 e b d2 where "reachable mem_bolt d1" "pending_evidence (tenant_view mem_bolt d1 (ascii ''t'')) e"
    "e_Witness e = fst (sample_evidence ! 0)"
    "Freeze mem_bolt (ascii ''t'') (ascii ''f'') 10 d1 [Inr sample_raw] = (Inr b, d2, [])"
    "reachable mem_bolt d2" "v_evidence (tenant_view mem_bolt d2 (ascii ''t'')) (e_ID e) =
       Inr (bound_to (f_ID b) 0 e)" "v_batch (tenant_view mem_bolt d2 (ascii ''t'')) (f_ID b) = Inr b"
    "f_SubmissionState b = SubmissionNotSubmitted" "validID (f_ID b)" "validID (e_ID e)"
    "f_EvidenceIDs b = [e_ID e]"
proof -
  let ?t = "ascii ''t''" and ?f = "ascii ''f''"
  obtain e d1 where d1: "reachable mem_bolt d1"
    "tenant_view mem_bolt d1 ?t = add_evidence e (ascii ''k'') empty_view"
    "e_Witness e = fst (sample_evidence ! 0)" "e_BatchID e = []"
    using sample_ingest by metis
  note ok = memory.reachable_ok [OF d1(1)]
  have pend: "pending_evidence (tenant_view mem_bolt d1 ?t) e"
    using d1(4) by (simp add: d1(2) pending_evidence_def add_evidence_def del: ascii_Cons)
  have none: "v_batch_keys (tenant_view mem_bolt d1 ?t) ?f = None"
    unfolding d1(2) by (simp add: add_evidence_def empty_view_def)
  have fresh: "fresh_id (v_batch (tenant_view mem_bolt d1 ?t)) sample_raw"
    unfolding d1(2) using sample_fresh by (simp add: add_evidence_def empty_view_def)
  have texts: "validText ?t" "validText ?f" by (simp_all add: validText_def)
  obtain b d2 where run: "Freeze mem_bolt ?t ?f 10 d1 [Inr sample_raw] = (Inr b, d2, [])"
    using memory.Freeze_succeeds [OF ok memory_accepting texts _ _ pend none fresh, of 10 "[]"] by (auto simp del: ascii_Cons)
  have spec: "freeze_spec ?f 10 (tenant_view mem_bolt d1 ?t) b (tenant_view mem_bolt d2 ?t)"
    using memory.Freeze_refines [OF ok run] by blast
  obtain es where es: "es \<noteq> []" "fifo (tenant_view mem_bolt d1 ?t) (nat 10) es"
    "b = \<lparr>f_ID = f_ID b, f_Limit = 10, f_EvidenceIDs = map e_ID es,
       f_Manifest = manifest_bytes (manifest_of (map commit_of es)),
       f_SubmissionState = SubmissionNotSubmitted, f_SubmissionRef = []\<rparr>"
    "tenant_view mem_bolt d2 ?t = freeze_view b ?f es (tenant_view mem_bolt d1 ?t)" "good_batch b"
    using spec unfolding freeze_spec_def none option.case by blast
  have "x = e" if "pending_evidence (tenant_view mem_bolt d1 ?t) x" for x
    using that unfolding d1(2)
    by (auto simp: pending_evidence_def add_evidence_def empty_view_def split: if_splits)
  then have "set es \<subseteq> {e}" using es(2) by (auto simp: fifo_def)
  moreover have "distinct es" using fifo_distinct [OF es(2)] by (simp add: distinct_map)
  ultimately have one: "es = [e]" using es(1) by (cases es; cases "tl es") auto
  have b: "f_SubmissionState b = SubmissionNotSubmitted" "f_EvidenceIDs b = [e_ID e]"
    using es(3) one by (metis frozen_batch.select_convs list.simps(8,9))+
  have v2: "v_evidence (tenant_view mem_bolt d2 ?t) (e_ID e) = Inr (bound_to (f_ID b) 0 e)"
    "v_batch (tenant_view mem_bolt d2 ?t) (f_ID b) = Inr b"
    unfolding es(4) one by (simp_all add: freeze_view_def Let_def)
  have ids: "validID (f_ID b)" using es(5) by (simp add: good_batch_def)
  have "good_evidence e"
    using tenant_view_wf [OF ok, of ?t] wf_evidenceD(1) pend
    unfolding pending_evidence_def by blast
  then have ide: "validID (e_ID e)" by (simp add: good_evidence_def)
  show thesis
    by (rule that [OF d1(1) pend d1(3) run reachable_step [OF d1(1) step_freeze [OF run]] v2 b(1) ids ide b(2)])
qed

end
