(* ===== verification/Storage_Props.thy ===== *)
theory Storage_Props
  imports Storage_Example
begin

text \<open>
  Properties of the store: its records, its invariant and history, the operations as refinements of
  changes of views, their outcomes and progress, exports and uploads. Where a property is about a
  database, its first hypothesis says that it keeps the laws of bbolt; the witnesses use the
  database in memory.
\<close>


section \<open>Records and identifiers\<close>

text \<open>
  C38. Whatever the database contains, also when it was damaged, a record that \<open>Store_Evidence\<close>
  or \<open>Store_Batch\<close> returns has these fields checked: it is the record asked for, whose identifier is
  32 hexadecimal digits; evidence has a sequence number, a valid source and a witness that has a
  commitment; a batch has a limit in range that its members do not exceed, a manifest that parses and
  counts them, a known submission state and a reference that is empty or a valid text. The
  identifiers inside a record, of the batch of a piece of evidence and of the members of a batch,
  are not checked.
\<close>

theorem store_reads_well_formed:
  "(Store_Evidence B n i d = Inr e \<longrightarrow>
      e_ID e = i \<and> validID i \<and> e_Sequence e \<noteq> 0 \<and> validSource (e_Source e) \<and>
      (\<exists>c. Compute (e_Witness e) = Inr c)) \<and>
   (Store_Batch B n i d = Inr b \<longrightarrow>
      f_ID b = i \<and> validID i \<and> 1 \<le> f_Limit b \<and> f_Limit b \<le> MaxBatchEntries \<and>
      int (length (f_EvidenceIDs b)) \<le> f_Limit b \<and>
      (\<exists>m. Parse_manifest (f_Manifest b) = Inr m \<and> m_Size m = of_nat (length (f_EvidenceIDs b))) \<and>
      validSubmissionState (f_SubmissionState b) \<and>
      (f_SubmissionRef b = [] \<or> validText (f_SubmissionRef b)))"
proof (intro conjI impI)
  assume "Store_Evidence B n i d = Inr e"
  then obtain t where "stored_evidence B d t i = Inr e"
    by (auto simp: Store_Evidence_def View_Inr bindE_eq_Inr split: if_splits)
  from stored_evidence_good [OF this]
  show "e_ID e = i" "validID i" "e_Sequence e \<noteq> 0" "validSource (e_Source e)"
    "\<exists>c. Compute (e_Witness e) = Inr c"
    by (auto simp: Compute_def Encode_supported)
next
  assume "Store_Batch B n i d = Inr b"
  then obtain t where "frozen B d t i = Inr b"
    by (auto simp: Store_Batch_def View_Inr bindE_eq_Inr split: if_splits)
  from frozen_good [OF this]
  show "f_ID b = i" "validID i" "1 \<le> f_Limit b" "f_Limit b \<le> MaxBatchEntries"
    "int (length (f_EvidenceIDs b)) \<le> f_Limit b"
    "\<exists>m. Parse_manifest (f_Manifest b) = Inr m \<and> m_Size m = of_nat (length (f_EvidenceIDs b))"
    "validSubmissionState (f_SubmissionState b)" "f_SubmissionRef b = [] \<or> validText (f_SubmissionRef b)"
    by (auto dest: sym)
qed

theorem store_reads_well_formed_witness:
  "\<exists>d e. Store_Evidence mem_bolt (ascii ''t'') (e_ID e) d = Inr e \<and> e_Sequence e \<noteq> 0"
proof -
  obtain e d1 where d1: "reachable mem_bolt d1" "pending_evidence (tenant_view mem_bolt d1 (ascii ''t'')) e"
    "validID (e_ID e)"
    by (rule sample_freeze)
  have "Store_Evidence mem_bolt (ascii ''t'') (e_ID e) d1 = Inr e"
    using d1(2,3) memory.Store_Evidence_eq [OF memory.reachable_ok [OF d1(1)] accepting_simps(1) [OF memory_accepting]]
    by (simp add: pending_evidence_def validText_def)
  then show ?thesis using store_reads_well_formed [of mem_bolt "ascii ''t''" "e_ID e" d1 e undefined] by blast
qed

text \<open>
  The stored form of a record reads back as the record, and stays below the size that the
  reader accepts, for every record that an operation may write; the key of the source index
  determines the source version and the representation.
\<close>

theorem record_round_trip:
  "(good_evidence e \<longrightarrow> decode unmarshal_evidence (Some (marshal_evidence e)) = Inr e \<and>
      length (marshal_evidence e) \<le> maxRecordBytes) \<and>
   (good_batch b \<longrightarrow> decode unmarshal_batch (Some (marshal_batch b)) = Inr b \<and>
      length (marshal_batch b) \<le> maxRecordBytes) \<and>
   (validSource s \<longrightarrow> validSource s' \<longrightarrow> sourceKey s r = sourceKey s' r' \<longrightarrow> s = s' \<and> r = r')"
  using decode_evidence length_marshal_evidence decode_batch length_marshal_batch
    sourceKey_inject validSource_utf8 by blast

theorem record_round_trip_witness:
  "\<exists>e b. good_evidence e \<and> decode unmarshal_evidence (Some (marshal_evidence e)) = Inr e \<and>
     good_batch b \<and> decode unmarshal_batch (Some (marshal_batch b)) = Inr b"
proof -
  obtain d1 e b d2 where d: "reachable mem_bolt d1" "reachable mem_bolt d2"
    "pending_evidence (tenant_view mem_bolt d1 (ascii ''t'')) e"
    "v_batch (tenant_view mem_bolt d2 (ascii ''t'')) (f_ID b) = Inr b"
    by (rule sample_freeze)
  have "good_evidence e" "good_batch b"
    using wf_evidenceD(1) [OF tenant_view_wf [OF memory.reachable_ok [OF d(1)]]] d(3)
      wf_batchD(1) [OF tenant_view_wf [OF memory.reachable_ok [OF d(2)]] d(4)]
    unfolding pending_evidence_def by blast+
  then show ?thesis
    using record_round_trip [of e b undefined undefined undefined undefined] by blast
qed

lemma newID_skips:
  "\<exists>r \<in> set raws. get (hex_encode r) = None \<Longrightarrow> \<forall>r \<in> set raws. length r = 16 \<Longrightarrow>
   \<exists>i rest. newID get (map Inr raws) = (Inr i, rest)"
  by (induction raws) (auto simp: Let_def)

text \<open>
  C39. \<open>newID\<close> ends: with more distinct random values than there are identifiers in use it
  returns an identifier, which is valid and not in use.
\<close>

theorem newID_terminates:
  assumes "finite (dom get)" and "card (dom get) < length raws" and "distinct raws"
    and "\<forall>r \<in> set raws. length r = 16"
  shows "\<exists>i rest. newID get (map Inr raws) = (Inr i, rest) \<and> validID i \<and> get i = None"
proof -
  have "\<exists>r \<in> set raws. get (hex_encode r) = None"
  proof (rule ccontr)
    assume "\<not> ?thesis"
    then have "hex_encode ` set raws \<subseteq> dom get" by auto
    then have "card (hex_encode ` set raws) \<le> card (dom get)" using assms(1) by (rule card_mono [rotated])
    moreover have "card (hex_encode ` set raws) = length raws"
      using assms(3) by (simp add: card_image inj_on_def distinct_card)
    ultimately show False using assms(2) by simp
  qed
  from newID_skips [OF this assms(4)] show ?thesis using newID_Inr by blast
qed

theorem newID_terminates_witness:
  "\<exists>i rest. newID [hex_encode (replicate 16 5) \<mapsto> []] [Inr (replicate 16 5), Inr (replicate 16 7)] =
     (Inr i, rest) \<and> i \<noteq> hex_encode (replicate 16 5)"
proof -
  let ?get = "[hex_encode (replicate 16 5) \<mapsto> [] :: bytes]"
  have "(replicate 16 5 :: bytes) \<noteq> replicate 16 7" by (simp add: replicate_eq_replicate)
  then have "\<exists>i rest. newID ?get (map Inr [replicate 16 5, replicate 16 7]) = (Inr i, rest) \<and>
      validID i \<and> ?get i = None"
    by (intro newID_terminates) simp_all
  then show ?thesis by (auto split: if_splits)
qed

section \<open>The invariant and the history\<close>

text \<open>
  C4. In every state that calls of the operations, with any arguments and outcomes, reach from a
  newly initialised database the store is consistent: the indexes of every tenant point to records
  and the records have their index entries, pending evidence is the evidence without a batch, a
  batch and its members point to each other and its manifest has the Merkle root of its members,
  and the outbox holds exactly the manifests of the batches that have not been submitted.
\<close>

theorem store_reachable_consistent:
  assumes "bolt_laws B" and "reachable B d"
  shows "store_ok B d \<and> (\<forall>n. wf_view (tenant_view B d n))"
  using bolt_laws.reachable_ok [OF assms] by (simp add: tenant_view_wf)

theorem store_reachable_consistent_witness:
  "\<exists>d e. reachable mem_bolt d \<and> store_ok mem_bolt d \<and>
     pending_evidence (tenant_view mem_bolt d (ascii ''t'')) e"
proof -
  obtain d1 e where d: "reachable mem_bolt d1" "pending_evidence (tenant_view mem_bolt d1 (ascii ''t'')) e"
    by (rule sample_freeze)
  then show ?thesis using store_reachable_consistent [OF memory.bolt_laws_axioms d(1)] by blast
qed

text \<open>
  C18. A run of the store, of any length and with any outcomes, only extends the history of a
  tenant: evidence keeps its sequence number, source and witness, a place in a batch is final,
  batches keep their limit, members and manifest, a submitted batch stays submitted, and the keys
  keep the records they were given.
\<close>

theorem store_history_extends:
  assumes "bolt_laws B" and "reachable B d" and "store_run B d d'"
  shows "extends (tenant_view B d n) (tenant_view B d' n)"
  using bolt_laws.store_run_ok [OF assms(1,3) bolt_laws.reachable_ok [OF assms(1,2)]] by blast

theorem store_history_extends_witness:
  "\<exists>d d' e b. v_evidence (tenant_view mem_bolt d (ascii ''t'')) (e_ID e) = Inr e \<and> store_run mem_bolt d d' \<and>
     v_batch (tenant_view mem_bolt d' (ascii ''t'')) (f_ID b) = Inr b \<and>
     extends (tenant_view mem_bolt d (ascii ''t'')) (tenant_view mem_bolt d' (ascii ''t''))"
proof -
  obtain d1 e b d2 where d: "reachable mem_bolt d1"
    "pending_evidence (tenant_view mem_bolt d1 (ascii ''t'')) e"
    "Freeze mem_bolt (ascii ''t'') (ascii ''f'') 10 d1 [Inr sample_raw] = (Inr b, d2, [])"
    "v_batch (tenant_view mem_bolt d2 (ascii ''t'')) (f_ID b) = Inr b"
    by (rule sample_freeze)
  note run = run_single [OF step_freeze [OF d(3)]]
  show ?thesis
    using store_history_extends [OF memory.bolt_laws_axioms d(1) run] run d(2,4)
    unfolding pending_evidence_def by blast
qed

section \<open>The operations\<close>

text \<open>
  C6. \<open>Ingest\<close> refines its specification: on success it has found the evidence of the key or
  of the source version and aliases it under the key, or it has added new evidence with the next
  sequence number and all index entries, and in both cases the record has the source and the
  witness of the request. No other tenant is touched. On an error the database is unchanged.
\<close>

theorem ingest_refinement:
  assumes "bolt_laws B" and "reachable B d" and "Ingest B req d rnd = (r, d', rnd')"
  shows "case r of
      Inl err \<Rightarrow> d' = d
    | Inr (e, created) \<Rightarrow>
        valid_request req \<and> store_ok B d' \<and>
        ingest_spec req (tenant_view B d (i_Tenant req)) e created (tenant_view B d' (i_Tenant req)) \<and>
        (\<forall>m. m \<noteq> i_Tenant req \<longrightarrow> tenant_view B d' m = tenant_view B d m)"
proof (cases r)
  case (Inl err)
  then show ?thesis using Ingest_error assms(3) by fastforce
next
  case (Inr ec)
  then obtain e c where ec: "r = Inr (e, c)" by (cases ec) auto
  note run = assms(3) [unfolded ec]
  show ?thesis unfolding ec sum.case prod.case
    by (rule bolt_laws.Ingest_refines [OF assms(1) bolt_laws.reachable_ok [OF assms(1,2)] run])
qed

theorem ingest_refinement_witness:
  "\<exists>d d' e. Ingest mem_bolt sample_request d [Inr sample_raw] = (Inr (e, True), d', []) \<and>
     ingest_spec sample_request (tenant_view mem_bolt d (ascii ''t'')) e True
       (tenant_view mem_bolt d' (ascii ''t''))"
proof -
  obtain d0 e d1 where d: "reachable mem_bolt d0"
    "Ingest mem_bolt sample_request d0 [Inr sample_raw] = (Inr (e, True), d1, [])"
    by (rule sample_ingest)
  have "i_Tenant sample_request = ascii ''t''" by (simp add: sample_request_def)
  then show ?thesis
    using ingest_refinement [OF memory.bolt_laws_axioms d] d(2) unfolding sum.case prod.case by metis
qed

text \<open>
  A request that finds evidence under its key or its source version is answered without
  creating anything: the stored evidence when source and witness are the same, and the conflict
  error with an unchanged database otherwise.
\<close>

theorem ingest_existing_outcome:
  assumes "bolt_laws B" and "reachable B d" and "accepting B" and "valid_request req"
    and "located (tenant_view B d (i_Tenant req)) req = Some i"
  shows "\<exists>e. v_evidence (tenant_view B d (i_Tenant req)) i = Inr e \<and>
    (if e_Source e = i_Source req \<and> e_Witness e = i_Witness req
     then \<exists>d'. Ingest B req d rnd = (Inr (e, False), d', rnd)
     else Ingest B req d rnd = (Inl (Sent ErrConflict), d, rnd))"
proof -
  note ok = bolt_laws.reachable_ok [OF assms(1,2)]
  obtain e where e: "v_evidence (tenant_view B d (i_Tenant req)) i = Inr e"
    using source_located_evidence [OF tenant_view_wf [OF ok]] assms(5)
    unfolding located_source by blast
  show ?thesis using e bolt_laws.Ingest_existing [OF assms(1) ok assms(3,4,5) e] by blast
qed

theorem ingest_existing_outcome_witness:
  "\<exists>d e d'. v_evidence (tenant_view mem_bolt d (ascii ''t'')) (e_ID e) = Inr e \<and>
     Ingest mem_bolt sample_request d [] = (Inr (e, False), d', [])"
proof -
  obtain d0 e d1 where d: "reachable mem_bolt d1"
    "tenant_view mem_bolt d1 (ascii ''t'') = add_evidence e (ascii ''k'') empty_view"
    "e_Witness e = fst (sample_evidence ! 0)" "e_Source e = i_Source sample_request"
    by (rule sample_ingest)
  have req: "i_Tenant sample_request = ascii ''t''" "i_Key sample_request = ascii ''k''"
    "i_Witness sample_request = fst (sample_evidence ! 0)"
    by (simp_all add: sample_request_def)
  have loc: "located (tenant_view mem_bolt d1 (i_Tenant sample_request)) sample_request = Some (e_ID e)"
    unfolding req d(2) by (simp add: located_def req add_evidence_def)
  have ev: "v_evidence (tenant_view mem_bolt d1 (ascii ''t'')) (e_ID e) = Inr e"
    unfolding d(2) by (simp add: add_evidence_def)
  show ?thesis
    using ingest_existing_outcome [OF memory.bolt_laws_axioms d(1) memory_accepting sample_request_valid loc, of "[]"]
      ev d(3,4) unfolding req by (auto simp del: ascii_Cons)
qed

text \<open>
  C5. \<open>Freeze\<close> refines its specification: for a request key that has a batch it returns that
  batch, if its limit is the same; otherwise it takes the pending evidence with the smallest
  sequence numbers, at most as many as the limit and not fewer than there are up to it, in that
  order, gives each member the batch and its index, and stores the batch with the manifest of the
  members' commitments, not submitted, in the outbox. No other tenant is touched. On an error the
  database is unchanged.
\<close>

theorem freeze_refinement:
  assumes "bolt_laws B" and "reachable B d" and "Freeze B n key limit d rnd = (r, d', rnd')"
  shows "case r of
      Inl err \<Rightarrow> d' = d
    | Inr b \<Rightarrow>
        1 \<le> limit \<and> limit \<le> 1024 \<and> store_ok B d' \<and>
        freeze_spec key limit (tenant_view B d n) b (tenant_view B d' n) \<and>
        (\<forall>m. m \<noteq> n \<longrightarrow> tenant_view B d' m = tenant_view B d m)"
proof (cases r)
  case (Inl err)
  then show ?thesis using Freeze_error assms(3) by fastforce
next
  case (Inr b)
  show ?thesis unfolding Inr sum.case
    by (rule bolt_laws.Freeze_refines [OF assms(1) bolt_laws.reachable_ok [OF assms(1,2)]
          assms(3) [unfolded Inr]])
qed

theorem freeze_refinement_witness:
  "\<exists>d d' b. Freeze mem_bolt (ascii ''t'') (ascii ''f'') 10 d [Inr sample_raw] = (Inr b, d', []) \<and>
     freeze_spec (ascii ''f'') 10 (tenant_view mem_bolt d (ascii ''t'')) b
       (tenant_view mem_bolt d' (ascii ''t''))"
proof -
  obtain d1 b d2 where d: "reachable mem_bolt d1"
    "Freeze mem_bolt (ascii ''t'') (ascii ''f'') 10 d1 [Inr sample_raw] = (Inr b, d2, [])"
    by (rule sample_freeze)
  show ?thesis
    using freeze_refinement [OF memory.bolt_laws_axioms d] d(2) unfolding sum.case by blast
qed



text \<open>
  C7. The submission of a batch is a state machine: for valid arguments and a working database
  \<open>RecordSubmission\<close> answers not found for a batch that does not exist, and conflict for leaving
  the submitted state, both with an unchanged database; in every other case it stores the new
  state and reference, and changes nothing else of the store but the outbox entry of the batch.
\<close>

theorem submission_state_machine:
  assumes "bolt_laws B" and "reachable B d" and "accepting B" and "validText n" and "validID i"
    and "validSubmissionState state" and "reference = [] \<or> validText reference"
  shows "case v_batch (tenant_view B d n) i of
      Inl _ \<Rightarrow> RecordSubmission B n i state reference d = (Inl (Sent ErrNotFound), d)
    | Inr c \<Rightarrow>
        if f_SubmissionState c = SubmissionSubmitted \<and> state \<noteq> SubmissionSubmitted
        then RecordSubmission B n i state reference d = (Inl (Sent ErrConflict), d)
        else \<exists>b d'. RecordSubmission B n i state reference d = (Inr b, d') \<and> store_ok B d' \<and>
          b = c\<lparr>f_SubmissionState := state, f_SubmissionRef := reference\<rparr> \<and>
          tenant_view B d' n = submit_view b (tenant_view B d n) \<and>
          (\<forall>m. m \<noteq> n \<longrightarrow> tenant_view B d' m = tenant_view B d m)"
proof (cases "v_batch (tenant_view B d n) i")
  case (Inl x)
  then show ?thesis
    using bolt_laws.RecordSubmission_refused(1) [OF assms(1) bolt_laws.reachable_ok [OF assms(1,2)] assms(3-7)]
    by simp
next
  case (Inr c)
  note ok = bolt_laws.reachable_ok [OF assms(1,2)]
  show ?thesis
  proof (cases "f_SubmissionState c = SubmissionSubmitted \<and> state \<noteq> SubmissionSubmitted")
    case True
    then show ?thesis
      using bolt_laws.RecordSubmission_refused(2) [OF assms(1) ok assms(3-7) Inr] Inr by simp
  next
    case False
    then obtain d' where run: "RecordSubmission B n i state reference d =
        (Inr (c\<lparr>f_SubmissionState := state, f_SubmissionRef := reference\<rparr>), d')"
      using bolt_laws.RecordSubmission_succeeds [OF assms(1) ok assms(3,4,6,7) Inr] by blast
    show ?thesis
      using bolt_laws.RecordSubmission_refines [OF assms(1) ok run] run Inr False
      by (auto simp: submit_spec_def)
  qed
qed

theorem submission_state_machine_witness:
  "\<exists>d d' b. RecordSubmission mem_bolt (ascii ''t'') (f_ID b) SubmissionSubmitted [] d =
     (Inr (b\<lparr>f_SubmissionState := SubmissionSubmitted, f_SubmissionRef := []\<rparr>), d')"
proof -
  obtain b d2 where d: "reachable mem_bolt d2"
    "v_batch (tenant_view mem_bolt d2 (ascii ''t'')) (f_ID b) = Inr b"
    "f_SubmissionState b = SubmissionNotSubmitted" "validID (f_ID b)"
    by (rule sample_freeze)
  have "validText (ascii ''t'')" "validSubmissionState SubmissionSubmitted"
    by (simp_all add: validText_def validSubmissionState_def)
  from submission_state_machine [OF memory.bolt_laws_axioms d(1) memory_accepting this(1) d(4) this(2), of "[]"]
  show ?thesis unfolding d(2) by auto
qed

text \<open>
  C28. \<open>Outbox\<close> returns, for valid arguments and from a working database, exactly the batches of
  the tenant that have not been submitted, in the order of their identifiers and as many of them as
  the limit admits, each with its manifest, state and reference, and not found for a tenant that the
  store has never seen.
\<close>

theorem outbox_exact:
  assumes "bolt_laws B" and "reachable B d" and "accepting B" and "validText n"
    and "1 \<le> limit" and "limit \<le> 1024"
  shows "finite (waiting (tenant_view B d n)) \<and>
    Outbox B n limit d =
     (if bk_exists B d (tenant_path n)
      then Inr (map (submission_of (tenant_view B d n))
        (take (nat limit) (sorted_list_of_set (waiting (tenant_view B d n)))))
      else Inl (Sent ErrNotFound))"
proof -
  note ok = bolt_laws.reachable_ok [OF assms(1,2)]
  have "finite (waiting (tenant_view B d n))"
  proof (cases "bk_exists B d (tenant_path n)")
    case True
    note V = bolt_laws.view_of [OF assms(1) ok True]
    show ?thesis using bolt_laws.outbox_entries_of(3) [OF assms(1) V(4,3)] V(1) by simp
  next
    case False
    then show ?thesis by (simp add: tenant_view_def empty_view_def waiting_def)
  qed
  then show ?thesis using bolt_laws.Outbox_eq [OF assms(1) ok accepting_simps(1) [OF assms(3)] assms(4-6)] by simp
qed

theorem outbox_exact_witness:
  "\<exists>d b. b \<in> waiting (tenant_view mem_bolt d (ascii ''t'')) \<and>
     Outbox mem_bolt (ascii ''t'') 1 d =
      (if bk_exists mem_bolt d (tenant_path (ascii ''t''))
       then Inr (map (submission_of (tenant_view mem_bolt d (ascii ''t'')))
         (take 1 (sorted_list_of_set (waiting (tenant_view mem_bolt d (ascii ''t''))))))
       else Inl (Sent ErrNotFound))"
proof -
  obtain b d2 where d: "reachable mem_bolt d2"
    "v_batch (tenant_view mem_bolt d2 (ascii ''t'')) (f_ID b) = Inr b"
    "f_SubmissionState b = SubmissionNotSubmitted"
    by (rule sample_freeze)
  have "f_ID b \<in> waiting (tenant_view mem_bolt d2 (ascii ''t''))"
    using d(2,3) by (simp add: waiting_def SubmissionNotSubmitted_def SubmissionSubmitted_def)
  moreover have "validText (ascii ''t'')" by (simp add: validText_def)
  ultimately show ?thesis
    using outbox_exact [OF memory.bolt_laws_axioms d(1) memory_accepting, of "ascii ''t''" 1]
    by (auto simp del: ascii_Cons)
qed

section \<open>Export\<close>

text \<open>
  C2. Every frozen piece of evidence can be exported, and its package proves the document: for valid arguments and a
  working database, in every reachable state \<open>UnanchoredPackage\<close> returns for a member of a batch a package that encodes, has
  the manifest of the stored batch, and is verified together with every document that has the
  digest of the evidence; it then fails only for evidence that does not exist or has
  no batch.
\<close>

theorem export_verifies:
  assumes "bolt_laws B" and "reachable B d" and "accepting B" and "validText n" and "validID i"
  shows "case v_evidence (tenant_view B d n) i of
      Inl _ \<Rightarrow> UnanchoredPackage B n i d = Inl (Sent ErrNotFound)
    | Inr e \<Rightarrow>
        if e_BatchID e = [] then UnanchoredPackage B n i d = Inl (Sent ErrNotBatched)
        else \<exists>b p bs. v_batch (tenant_view B d n) (e_BatchID e) = Inr b \<and>
          UnanchoredPackage B n i d = Inr p \<and> Parse_manifest (f_Manifest b) = Inr (p_Manifest p) \<and>
          p_Witness p = e_Witness e \<and> MarshalBinary_package p = Inr bs \<and>
          (\<forall>doc k. hashDocument doc k = Inr (w_DocumentDigest (e_Witness e)) \<longrightarrow>
             IntegrityVerified (Verify_package doc (Some (bytes_reader bs)) k))"
proof -
  note ok = bolt_laws.reachable_ok [OF assms(1,2)]
  note err = bolt_laws.UnanchoredPackage_error [OF assms(1) ok accepting_simps(1) [OF assms(3)] assms(4,5)]
  show ?thesis
  proof (cases "v_evidence (tenant_view B d n) i")
    case (Inl x)
    then show ?thesis using err by simp
  next
    case (Inr e)
    show ?thesis
    proof (cases "e_BatchID e = []")
      case True
      then show ?thesis using err Inr by simp
    next
      case False
      from bolt_laws.member_exports [OF assms(1) ok accepting_simps(1) [OF assms(3)] assms(4) Inr this] show ?thesis
        using Inr False by simp
    qed
  qed
qed

theorem export_verifies_witness:
  "\<exists>d i p bs. UnanchoredPackage mem_bolt (ascii ''t'') i d = Inr p \<and> MarshalBinary_package p = Inr bs \<and>
     IntegrityVerified (Verify_package (Some (bytes_reader [1])) (Some (bytes_reader bs)) 9)"
proof -
  obtain e and b :: frozen_batch and d2 where d: "e_Witness e = fst (sample_evidence ! 0)" "reachable mem_bolt d2"
    "v_evidence (tenant_view mem_bolt d2 (ascii ''t'')) (e_ID e) = Inr (bound_to (f_ID b) 0 e)"
    "validID (f_ID b)" "validID (e_ID e)"
    by (rule sample_freeze)
  have t: "validText (ascii ''t'')" by (simp add: validText_def)
  have h: "hashDocument (Some (bytes_reader [1])) 9 = Inr (w_DocumentDigest (e_Witness e))"
    by (simp add: d(1) sample_evidence_def hashDocument_eq_Inr max_int64_def)
  show ?thesis
    using export_verifies [OF memory.bolt_laws_axioms d(2) memory_accepting t d(5)] h validID_text(5) [OF d(4)]
    unfolding d(3) sum.case bound_to_sel by (simp del: ascii_Cons) blast
qed

section \<open>Uploads\<close>

definition sample_upload :: "string \<Rightarrow> document_request" where
  "sample_upload key = \<lparr>d_Tenant = ascii ''t'', d_Key = ascii key,
     d_Source = i_Source sample_request, d_Representation = 1,
     d_Document = Some (bytes_reader [1]), d_MaxBytes = 9\<rparr>"

lemma sample_upload_simps:
  "d_Tenant (sample_upload k) = ascii ''t''" "d_Key (sample_upload k) = ascii k"
  "d_Source (sample_upload k) = i_Source sample_request" "d_Representation (sample_upload k) = 1"
  "hashDocument (d_Document (sample_upload k)) (d_MaxBytes (sample_upload k)) = Inr (sha256 [1])"
  by (simp_all add: sample_upload_def hashDocument_eq_Inr max_int64_def)

lemma sample_upload_valid: "validText (ascii k) \<Longrightarrow> valid_upload (sample_upload k)"
  by (simp add: valid_upload_def sample_upload_simps sample_request_def validSource_def validText_def
      Original_def)

lemma sample_held:
  obtains d0 e d1 where "reachable mem_bolt d0" "\<And>n. tenant_view mem_bolt d0 n = empty_view"
    "store_run mem_bolt d0 d1" "reachable mem_bolt d1"
    "w_DocumentDigest (e_Witness e) = sha256 [1]"
    "v_keys (tenant_view mem_bolt d1 (ascii ''t'')) (ascii ''k'') = Some (e_ID e)"
    "\<And>k. k = ''k'' \<or> k = ''m'' \<Longrightarrow> held (tenant_view mem_bolt d1 (ascii ''t'')) (sample_upload k) e"
proof -
  obtain d0 e d1 where d: "reachable mem_bolt d0" "\<And>n. tenant_view mem_bolt d0 n = empty_view"
    "Ingest mem_bolt sample_request d0 [Inr sample_raw] = (Inr (e, True), d1, [])"
    "reachable mem_bolt d1"
    "tenant_view mem_bolt d1 (ascii ''t'') = add_evidence e (ascii ''k'') empty_view"
    "e_Witness e = fst (sample_evidence ! 0)" "e_Source e = i_Source sample_request"
    using sample_ingest by metis
  have w: "w_DocumentDigest (e_Witness e) = sha256 [1]" "w_Representation (e_Witness e) = 1"
    by (simp_all add: d(6) sample_evidence_def)
  have "held (tenant_view mem_bolt d1 (ascii ''t'')) (sample_upload k) e" if "k = ''k'' \<or> k = ''m''" for k
    unfolding d(5) held_def source_located_def
    using that w d(7) by (auto simp: sample_upload_simps add_evidence_def empty_view_def)
  moreover have "v_keys (tenant_view mem_bolt d1 (ascii ''t'')) (ascii ''k'') = Some (e_ID e)"
    unfolding d(5) by (simp add: add_evidence_def)
  ultimately show thesis
    using that d(1,2,4) run_single [OF step_ingest [OF d(3)]] w(1) by blast
qed

text \<open>
  C20. Whatever other callers commit between the transactions of two uploads and between the uploads
  themselves, two successful uploads of one source version and representation return the same
  record, with one identifier, sequence number and witness, and had the same bytes, or else a
  SHA-256 collision.
\<close>

theorem upload_one_record:
  assumes "bolt_laws B" and "reachable B d0"
    and "others B a1" and "others B a2" and "others B b1" and "others B b2"
    and "IngestDocument B a1 a2 req d0 rnd0 = (Inr (e, c), d1, rnd1)"
    and "store_run B d1 d2"
    and "IngestDocument B b1 b2 req' d2 rnd2 = (Inr (e', c'), d3, rnd3)"
    and "d_Tenant req' = d_Tenant req" and "d_Source req' = d_Source req"
    and "d_Representation req' = d_Representation req"
    and "d_Document req = Some doc" and "d_Document req' = Some doc'"
  shows "e_ID e' = e_ID e \<and> e_Sequence e' = e_Sequence e \<and> e_Witness e' = e_Witness e \<and>
    (content doc' = content doc \<or> collision_between {content doc'} {content doc})"
proof -
  note ok = bolt_laws.reachable_ok [OF assms(1,2)]
  have same: "e_ID e' = e_ID e \<and> e_Sequence e' = e_Sequence e \<and> e_Witness e' = e_Witness e"
    by (rule bolt_laws.uploads_agree [OF assms(1) ok assms(3-12)])
  note s1 = bolt_laws.IngestDocument_sound [OF assms(1) ok assms(3,4,7)]
  have ok2: "store_ok B d2"
    using bolt_laws.store_run_ok [OF assms(1) run_trans [OF assms(8) conjunct1 [OF s1]] ok] by blast
  note s2 = bolt_laws.IngestDocument_sound [OF assms(1) ok2 assms(5,6,9)]
  note h1 = s1 [THEN conjunct2, THEN conjunct2, THEN conjunct2, THEN conjunct2, unfolded assms(13)]
  note h2 = s2 [THEN conjunct2, THEN conjunct2, THEN conjunct2, THEN conjunct2, unfolded assms(14)]
  have "w_DocumentDigest (e_Witness e) = sha256 (content doc)"
    using h1 by (simp add: hashDocument_eq_Inr)
  moreover have "w_DocumentDigest (e_Witness e') = sha256 (content doc')"
    using h2 by (simp add: hashDocument_eq_Inr)
  ultimately have "sha256 (content doc') = sha256 (content doc)" using same by simp
  then have "content doc' = content doc \<or> collision_between {content doc'} {content doc}"
    by (rule sha256_eq_cases) simp_all
  with same show ?thesis by (intro conjI) simp_all
qed

theorem upload_one_record_witness:
  "\<exists>d e. IngestDocument mem_bolt (\<lambda>d. d) (\<lambda>d. d) (sample_upload ''k'') d [] = (Inr (e, False), d, []) \<and>
     IngestDocument mem_bolt (\<lambda>d. d) (\<lambda>d. d) (sample_upload ''m'') d [] = (Inr (e, False), d, [])"
proof -
  obtain e d1 where d: "reachable mem_bolt d1" "w_DocumentDigest (e_Witness e) = sha256 [1]"
    "held (tenant_view mem_bolt d1 (ascii ''t'')) (sample_upload ''k'') e"
    "held (tenant_view mem_bolt d1 (ascii ''t'')) (sample_upload ''m'') e"
    using sample_held by metis
  note ok = memory.reachable_ok [OF d(1)]
  have val: "valid_upload (sample_upload ''k'')" "valid_upload (sample_upload ''m'')"
    by (rule sample_upload_valid, simp add: validText_def)+
  have run: "IngestDocument mem_bolt (\<lambda>d. d) (\<lambda>d. d) (sample_upload k) d1 [] = (Inr (e, False), d1, [])"
    if "k = ''k'' \<or> k = ''m''" for k
    using that d(2-4) memory.IngestDocument_replay [OF ok memory_accepting _ sample_upload_simps(5),
        unfolded sample_upload_simps] val by auto
  have docs: "d_Document (sample_upload k) = Some (bytes_reader [1])" for k by (simp add: sample_upload_def)
  have "e_ID e = e_ID e \<and> e_Sequence e = e_Sequence e \<and> e_Witness e = e_Witness e \<and>
    (content (bytes_reader [1]) = content (bytes_reader [1]) \<or>
     collision_between {content (bytes_reader [1])} {content (bytes_reader [1])})"
    by (rule upload_one_record [OF memory.bolt_laws_axioms d(1) others_id others_id others_id others_id
          run [of "''k''"] run_nil run [of "''m''"]])
      (simp_all add: sample_upload_simps docs)
  then show ?thesis using run by blast
qed



text \<open>
  C21. Concurrent retries agree, on a working database: when another caller commits the same document under the same source
  version and key after the first transaction of an upload, the upload still returns the record
  of that caller, whatever else is committed before its third transaction.
\<close>

theorem upload_race:
  assumes "bolt_laws B" and "reachable B d" and "accepting B" and "valid_upload req"
    and "others B b1" and "others B b2"
    and "hashDocument (d_Document req) (d_MaxBytes req) = Inr h"
    and "source_located (tenant_view B d (d_Tenant req)) (d_Key req) (d_Source req)
      (d_Representation req) = None"
    and "held (tenant_view B (b1 d) (d_Tenant req)) req e" and "w_DocumentDigest (e_Witness e) = h"
    and "v_keys (tenant_view B (b1 d) (d_Tenant req)) (d_Key req) = Some (e_ID e)"
  shows "\<exists>e' d'. IngestDocument B b1 b2 req d (Inr raw # rnd) = (Inr (e', False), d', rnd) \<and>
    e_ID e' = e_ID e \<and> e_Witness e' = e_Witness e"
  by (rule bolt_laws.IngestDocument_race [OF assms(1) bolt_laws.reachable_ok [OF assms(1,2)] assms(3-11)])

theorem upload_race_witness:
  "\<exists>d0 d1 e' d'. d1 \<noteq> d0 \<and> IngestDocument mem_bolt (\<lambda>d. if d = d0 then d1 else d) (\<lambda>d. d)
     (sample_upload ''k'') d0 [Inr [3]] = (Inr (e', False), d', [])"
proof -
  obtain d0 e d1 where d: "reachable mem_bolt d0" "\<And>n. tenant_view mem_bolt d0 n = empty_view"
    "store_run mem_bolt d0 d1" "w_DocumentDigest (e_Witness e) = sha256 [1]"
    "v_keys (tenant_view mem_bolt d1 (ascii ''t'')) (ascii ''k'') = Some (e_ID e)"
    "held (tenant_view mem_bolt d1 (ascii ''t'')) (sample_upload ''k'') e"
    using sample_held by metis
  let ?b1 = "\<lambda>d. if d = d0 then d1 else d"
  have oth: "others mem_bolt ?b1" using d(3) by (simp add: others_def run_nil)
  have b1: "?b1 d0 = d1" by simp
  have none: "source_located (tenant_view mem_bolt d0 n) k s r = None" for n k s r
    by (simp add: d(2) source_located_def empty_view_def)
  have ne: "d1 \<noteq> d0" using d(5) unfolding d(2) by (auto simp: d(2) empty_view_def)
  have val: "valid_upload (sample_upload ''k'')" by (rule sample_upload_valid) (simp add: validText_def)
  show ?thesis
    using upload_race [OF memory.bolt_laws_axioms d(1) memory_accepting val oth others_id
        sample_upload_simps(5) none, unfolded b1 sample_upload_simps, OF d(6,4,5), of "[3]" "[]"] ne
    by blast
qed

section \<open>Opening\<close>

text \<open>
  Opening never touches a database that is not its own: a schema other than version 1 and a
  foreign database are refused unchanged, a store of version 1 is opened unchanged, and only an
  empty database is initialised, as a consistent store in which no tenant has anything.
\<close>

theorem open_schema_outcome:
  assumes "bolt_laws B" and "accepting B"
  shows "case open_schema B d of
      (Inl _, d') \<Rightarrow> d' = d \<and>
        (if bk_exists B d schema_path
         then bk_get B d schema_path (ascii ''version'') \<noteq> Some [1] \<or> \<not> bk_exists B d tenants_path
         else bk_entries B d [] \<noteq> [])
    | (Inr _, d') \<Rightarrow>
        bk_get B d' schema_path (ascii ''version'') = Some [1] \<and> bk_exists B d' tenants_path \<and>
        (if bk_exists B d schema_path then d' = d
         else bk_entries B d [] = [] \<and> store_ok B d' \<and> (\<forall>n. tenant_view B d' n = empty_view))"
proof -
  obtain r d' where run: "open_schema B d = (r, d')" by (cases "open_schema B d")
  show ?thesis
  proof (cases r)
    case (Inl err)
    note run = run [unfolded Inl]
    show ?thesis unfolding run sum.case prod.case
      using open_schema_error [OF run] bolt_laws.open_schema_refused [OF assms run] by blast
  next
    case (Inr u)
    note run = run [unfolded Inr]
    note ver = bolt_laws.open_schema_version [OF assms(1) run]
    show ?thesis
    proof (cases "bk_exists B d schema_path")
      case True
      then show ?thesis using ver(1,2) bolt_laws.open_schema_again [OF assms(1) True run]
        by (simp add: run del: ascii_Cons)
    next
      case False
      then show ?thesis using ver bolt_laws.open_schema_new [OF assms(1) False run]
        by (simp add: run del: ascii_Cons)
    qed
  qed
qed

theorem open_schema_outcome_witness:
  "\<exists>d. open_schema mem_bolt fmempty = (Inr (), d) \<and> store_ok mem_bolt d"
proof -
  obtain d0 where o: "open_schema mem_bolt fmempty = (Inr (), d0)"
    using memory.open_schema_succeeds [OF memory_accepting memory_empty] by auto
  have "\<not> bk_exists mem_bolt fmempty schema_path"
    using memory.no_entries(1) [OF memory_empty] by (simp add: schema_path_def)
  with open_schema_outcome [OF memory.bolt_laws_axioms memory_accepting, of fmempty]
  show ?thesis by (simp add: o del: ascii_Cons)
qed

end
