(* ===== verification/Go_Strings.thy ===== *)
theory Go_Strings
  imports Go_Bytes
begin

text \<open>
  What the program uses of package \<^verbatim>\<open>strings\<close>: \<^verbatim>\<open>TrimSpace\<close> and \<^verbatim>\<open>HasSuffix\<close>. A white space
  rune is given by its UTF-8 encoding; a string need not be valid UTF-8, since no part of an
  invalid sequence is white space.
\<close>

section \<open>White space\<close>

text \<open>The encodings of the runes for which \<^verbatim>\<open>unicode.IsSpace\<close> holds.\<close>

definition space_runes :: "bytes list" where
  "space_runes =
     [[9], [10], [11], [12], [13], [32], [0xC2, 0x85], [0xC2, 0xA0], [0xE1, 0x9A, 0x80],
      [0xE2, 0x80, 0x80], [0xE2, 0x80, 0x81], [0xE2, 0x80, 0x82], [0xE2, 0x80, 0x83],
      [0xE2, 0x80, 0x84], [0xE2, 0x80, 0x85], [0xE2, 0x80, 0x86], [0xE2, 0x80, 0x87],
      [0xE2, 0x80, 0x88], [0xE2, 0x80, 0x89], [0xE2, 0x80, 0x8A], [0xE2, 0x80, 0xA8],
      [0xE2, 0x80, 0xA9], [0xE2, 0x80, 0xAF], [0xE2, 0x81, 0x9F], [0xE3, 0x80, 0x80]]"

lemma drop_word_less: "find (\<lambda>w. w \<noteq> [] \<and> take (length w) s = w) ws = Some w \<Longrightarrow>
   length (drop (length w) s) < length s"
  by (cases s) (auto simp: find_Some_iff)

text \<open>The rest of a string after its leading occurrences of the given words.\<close>

function strip_words :: "bytes list \<Rightarrow> bytes \<Rightarrow> bytes" where
  "strip_words ws s =
     (case find (\<lambda>w. w \<noteq> [] \<and> take (length w) s = w) ws of
        None \<Rightarrow> s
      | Some w \<Rightarrow> strip_words ws (drop (length w) s))"
  by pat_completeness auto

termination
  by (relation "measure (\<lambda>(ws, s). length s)") (auto dest: drop_word_less)

declare strip_words.simps [simp del]

definition trim_space :: "gostring \<Rightarrow> gostring" where
  "trim_space s = rev (strip_words (map rev space_runes) (rev (strip_words space_runes s)))"

definition has_suffix :: "gostring \<Rightarrow> gostring \<Rightarrow> bool" where
  "has_suffix s suffix \<longleftrightarrow> length suffix \<le> length s \<and> drop (length s - length suffix) s = suffix"

lemma has_suffix_append [simp]: "has_suffix (a @ b) b"
  by (simp add: has_suffix_def)

text \<open>Stripping takes words away and stops when none is in front.\<close>

lemma strip_words_split:
  "\<exists>us. set us \<subseteq> set ws \<and> s = concat us @ strip_words ws s"
proof (induction ws s rule: strip_words.induct)
  case (1 ws s)
  show ?case
  proof (cases "find (\<lambda>w. w \<noteq> [] \<and> take (length w) s = w) ws")
    case None
    then show ?thesis by (intro exI [of _ "[]"]) (simp add: strip_words.simps)
  next
    case (Some w)
    then have w: "w \<in> set ws" "take (length w) s = w" by (auto simp: find_Some_iff)
    obtain us where us: "set us \<subseteq> set ws"
      "drop (length w) s = concat us @ strip_words ws (drop (length w) s)"
      using "1.IH" [OF Some] by blast
    have "s = w @ drop (length w) s" using w(2) append_take_drop_id [of "length w" s] by simp
    then have "s = concat (w # us) @ strip_words ws s"
      using us(2) Some by (simp add: strip_words.simps [of ws s])
    then show ?thesis using us(1) w(1) by (intro exI [of _ "w # us"]) simp
  qed
qed

lemma strip_words_stops: "w \<in> set ws \<Longrightarrow> w \<noteq> [] \<Longrightarrow> take (length w) (strip_words ws s) \<noteq> w"
proof (induction ws s rule: strip_words.induct)
  case (1 ws s)
  show ?case
  proof (cases "find (\<lambda>w. w \<noteq> [] \<and> take (length w) s = w) ws")
    case None
    then have "strip_words ws s = s" by (simp add: strip_words.simps [of ws s])
    then show ?thesis using None "1.prems" by (auto simp: find_None_iff)
  next
    case (Some v)
    then show ?thesis using "1.IH" [OF Some "1.prems"] by (simp add: strip_words.simps [of ws s])
  qed
qed

lemma strip_words_fixed:
  "(\<And>w. w \<in> set ws \<Longrightarrow> w \<noteq> [] \<Longrightarrow> take (length w) s \<noteq> w) \<Longrightarrow> strip_words ws s = s"
  by (auto simp: strip_words.simps [of ws s] find_Some_iff split: option.splits)

text \<open>Trimming takes white space off both ends, and nothing else.\<close>

lemma trim_space_split:
  "\<exists>us vs. set us \<subseteq> set space_runes \<and> set vs \<subseteq> set space_runes \<and> s = concat us @ trim_space s @ concat vs"
proof -
  let ?s = "strip_words space_runes s"
  obtain us where us: "set us \<subseteq> set space_runes" "s = concat us @ ?s"
    using strip_words_split by blast
  obtain vs where vs: "set vs \<subseteq> set (map rev space_runes)"
    "rev ?s = concat vs @ strip_words (map rev space_runes) (rev ?s)"
    using strip_words_split by blast
  have "?s = rev (concat vs @ strip_words (map rev space_runes) (rev ?s))"
    using arg_cong [OF vs(2), of rev] by simp
  then have "?s = trim_space s @ concat (map rev (rev vs))"
    by (simp add: trim_space_def rev_concat rev_map)
  moreover have "set (map rev (rev vs)) \<subseteq> set space_runes" using vs(1) by force
  ultimately show ?thesis using us by (metis append_assoc)
qed

lemma trim_space_plain:
  assumes "\<And>c. c \<in> set s \<Longrightarrow> 32 < c \<and> c < 127"
  shows "trim_space s = s"
proof -
  have runes: "\<forall>w \<in> set space_runes. w \<noteq> [] \<and> (\<forall>c \<in> set w. \<not> (32 < c \<and> c < 127))"
    by (simp add: space_runes_def)
  have no: "take (length w) r \<noteq> w" if "w \<noteq> []" "\<forall>c \<in> set w. \<not> (32 < c \<and> c < 127)" "set r = set s" for w r
  proof
    assume "take (length w) r = w"
    moreover have "hd w \<in> set w" using that(1) by simp
    ultimately have "hd w \<in> set r" by (metis in_set_takeD)
    with that assms show False by (metis hd_in_set)
  qed
  have "strip_words space_runes s = s"
    by (rule strip_words_fixed) (use no runes in blast)
  moreover have "strip_words (map rev space_runes) (rev s) = rev s"
  proof (rule strip_words_fixed)
    fix w assume "w \<in> set (map rev space_runes)"
    then show "take (length w) (rev s) \<noteq> w"
      using runes by (intro no) auto
  qed
  ultimately show ?thesis by (simp add: trim_space_def)
qed

end
