(* ===== verification/Paperless_Plan.thy ===== *)
theory Paperless_Plan
  imports Go_Strings Storage_Records Sha256
begin

text \<open>
  The planner of the Paperless agent (\<^verbatim>\<open>integrations/paperless/agent/planner.go\<close>): it turns an
  event into the description of one ingestion, or into none for an event that only reports the
  agent's own write-back. The lemmas say when an event is accepted, that the request it plans is
  valid for the store, and what the planned identities determine.
\<close>

section \<open>The planner\<close>

definition OriginalUpload :: gostring where
  "OriginalUpload = ascii ''original''"

definition ArchiveOutput :: gostring where
  "ArchiveOutput = ascii ''archive''"

record event =
  ev_Tenant :: gostring
  ev_Instance :: gostring
  ev_DocumentID :: gostring
  ev_Version :: gostring
  ev_EventID :: gostring
  ev_Representation :: gostring
  ev_ChangedFields :: "gostring list"

record plan =
  pl_Ingest :: bool
  pl_Reason :: gostring
  pl_Tenant :: gostring
  pl_IdempotencyKey :: gostring
  pl_Source :: source
  pl_Representation :: u8

definition agent_validText :: "gostring \<Rightarrow> bool" where
  "agent_validText value \<longleftrightarrow>
     0 < length value \<and> length value \<le> 256 \<and> utf8_valid value \<and> 0 \<notin> set value"

definition agent_representation :: "gostring \<Rightarrow> u8 \<times> gostring \<times> bool" where
  "agent_representation value =
     (if value = OriginalUpload then (Original, ascii ''original'', True)
      else if value = ArchiveOutput then (Derived, ascii ''archive'', True)
      else (0, [], False))"

definition stableKey :: "gostring list \<Rightarrow> gostring" where
  "stableKey parts = hex_encode (b32_bytes (sha256 (concat (map (\<lambda>part. 0 # part) parts))))"

definition writebackOnly :: "gostring list \<Rightarrow> gostring list \<Rightarrow> bool" where
  "writebackOnly changed evidenceFields =
     (if length changed = 0 \<or> length evidenceFields = 0 then False
      else let allowed = set (map trim_space evidenceFields)
           in list_all (\<lambda>field. trim_space field \<in> allowed) changed)"

definition validateSource :: "source \<Rightarrow> gostring \<Rightarrow> go_error option" where
  "validateSource s rep =
     (if \<not> agent_validText (s_Object s) \<or> \<not> agent_validText (s_Version s)
        \<or> \<not> has_suffix (s_Version s) (ascii '':'' @ rep)
      then Some (Sent ErrInvalidEvent) else None)"

text \<open>The zero value of a plan.\<close>

definition zero_plan :: plan where
  "zero_plan = \<lparr>pl_Ingest = False, pl_Reason = [], pl_Tenant = [], pl_IdempotencyKey = [],
     pl_Source = \<lparr>s_Instance = [], s_Object = [], s_Version = []\<rparr>, pl_Representation = 0\<rparr>"

definition PlanIngest :: "event \<Rightarrow> gostring list \<Rightarrow> plan \<times> go_error option" where
  "PlanIngest event evidenceFields =
     (if writebackOnly (ev_ChangedFields event) evidenceFields
      then (zero_plan\<lparr>pl_Ingest := False, pl_Reason := ascii ''evidence_writeback_only''\<rparr>, None)
      else if \<not> agent_validText (ev_Tenant event) \<or> \<not> agent_validText (ev_Instance event)
        \<or> \<not> agent_validText (ev_DocumentID event) \<or> \<not> agent_validText (ev_Version event)
        \<or> \<not> agent_validText (ev_EventID event)
      then (zero_plan, Some (Sent ErrInvalidEvent))
      else
        let (rep, sourceRep, ok) = agent_representation (ev_Representation event) in
        if \<not> ok then (zero_plan, Some (Sent ErrInvalidEvent))
        else
          let src = \<lparr>s_Instance = ev_Instance event,
                s_Object = ascii ''paperless-document:'' @ ev_DocumentID event,
                s_Version = ev_Version event @ ascii '':'' @ ev_Representation event\<rparr>;
              key = stableKey [ev_Tenant event, ev_Instance event, ev_DocumentID event,
                ev_Version event, ev_Representation event, ev_EventID event]
          in (\<lparr>pl_Ingest = True, pl_Reason = ascii ''selected_representation_ready'',
                pl_Tenant = ev_Tenant event, pl_IdempotencyKey = key, pl_Source = src,
                pl_Representation = rep\<rparr>,
              validateSource src sourceRep))"

section \<open>Accepted events\<close>

lemma agent_validText_eq: "agent_validText = validText"
  by (simp add: fun_eq_iff agent_validText_def validText_def)

lemma utf8_valid_append: "utf8_valid a \<Longrightarrow> utf8_valid (a @ b) = utf8_valid b"
proof (induction a rule: utf8_valid.induct)
  case (2 x a)
  let ?n = "rune_len (x # a)"
  have pos: "0 < ?n" and rest: "utf8_valid (drop ?n (x # a))"
    using "2.prems" by (simp_all add: utf8_valid.simps(2) [of x a] split: if_splits)
  have n: "?n \<le> length (x # a)" by (rule rune_len_le)
  have "rune_len (x # a @ b) = ?n"
    using rune_len_take [OF pos, of "drop ?n (x # a) @ b"]
    by (simp only: append_assoc [symmetric] append_take_drop_id) simp
  moreover have "drop ?n (x # a @ b) = drop ?n (x # a) @ b" using n by (simp add: drop_Cons')
  ultimately show ?case
    using pos "2.IH" [OF pos rest] by (simp add: utf8_valid.simps(2) [of x "a @ b"])
qed simp

text \<open>The plan of an accepted event.\<close>

definition source_of_event :: "event \<Rightarrow> source" where
  "source_of_event event = \<lparr>s_Instance = ev_Instance event,
     s_Object = ascii ''paperless-document:'' @ ev_DocumentID event,
     s_Version = ev_Version event @ ascii '':'' @ ev_Representation event\<rparr>"

definition key_of_event :: "event \<Rightarrow> gostring" where
  "key_of_event event = stableKey [ev_Tenant event, ev_Instance event, ev_DocumentID event,
     ev_Version event, ev_Representation event, ev_EventID event]"

definition representation_of_event :: "event \<Rightarrow> u8" where
  "representation_of_event event = (if ev_Representation event = OriginalUpload then Original else Derived)"

definition acceptable :: "event \<Rightarrow> bool" where
  "acceptable event \<longleftrightarrow> validText (ev_Tenant event) \<and> validText (ev_Instance event) \<and>
     validText (ev_DocumentID event) \<and> validText (ev_Version event) \<and> validText (ev_EventID event) \<and>
     (ev_Representation event = OriginalUpload \<or> ev_Representation event = ArchiveOutput) \<and>
     length (ev_DocumentID event) \<le> 237 \<and>
     length (ev_Version event) + length (ev_Representation event) \<le> 255"

lemma representation_consts:
  "OriginalUpload \<noteq> ArchiveOutput" "utf8_valid OriginalUpload" "utf8_valid ArchiveOutput"
  "0 \<notin> set OriginalUpload" "0 \<notin> set ArchiveOutput"
  by (simp_all add: OriginalUpload_def ArchiveOutput_def)

lemma source_valid_iff:
  assumes "validText (ev_DocumentID event)" "validText (ev_Version event)"
    and rep: "ev_Representation event = OriginalUpload \<or> ev_Representation event = ArchiveOutput"
  shows "validText (s_Object (source_of_event event)) \<longleftrightarrow> length (ev_DocumentID event) \<le> 237"
    and "validText (s_Version (source_of_event event)) \<longleftrightarrow>
      length (ev_Version event) + length (ev_Representation event) \<le> 255"
proof -
  have "utf8_valid (ev_Representation event)" "0 \<notin> set (ev_Representation event)"
    using rep representation_consts by auto
  then show "validText (s_Object (source_of_event event)) \<longleftrightarrow> length (ev_DocumentID event) \<le> 237"
    "validText (s_Version (source_of_event event)) \<longleftrightarrow>
      length (ev_Version event) + length (ev_Representation event) \<le> 255"
    using assms(1,2) by (auto simp: validText_def source_of_event_def utf8_valid_append)
qed

lemma PlanIngest_eq:
  assumes "\<not> writebackOnly (ev_ChangedFields event) evidenceFields"
  shows "snd (PlanIngest event evidenceFields) = (if acceptable event then None else Some (Sent ErrInvalidEvent))"
    and "acceptable event \<Longrightarrow> PlanIngest event evidenceFields =
      (\<lparr>pl_Ingest = True, pl_Reason = ascii ''selected_representation_ready'',
         pl_Tenant = ev_Tenant event, pl_IdempotencyKey = key_of_event event,
         pl_Source = source_of_event event, pl_Representation = representation_of_event event\<rparr>, None)"
proof -
  let ?texts = "validText (ev_Tenant event) \<and> validText (ev_Instance event) \<and>
     validText (ev_DocumentID event) \<and> validText (ev_Version event) \<and> validText (ev_EventID event)"
  let ?rep = "ev_Representation event = OriginalUpload \<or> ev_Representation event = ArchiveOutput"
  let ?p = "\<lparr>pl_Ingest = True, pl_Reason = ascii ''selected_representation_ready'',
         pl_Tenant = ev_Tenant event, pl_IdempotencyKey = key_of_event event,
         pl_Source = source_of_event event, pl_Representation = representation_of_event event\<rparr>"
  have plan: "PlanIngest event evidenceFields = (?p, if acceptable event then None else Some (Sent ErrInvalidEvent))"
    if t: ?texts and r: ?rep
  proof -
    have sfx: "has_suffix (s_Version (source_of_event event)) (ascii '':'' @ ev_Representation event)"
      by (simp add: source_of_event_def del: ascii_Cons)
    have acc: "acceptable event \<longleftrightarrow> validText (s_Object (source_of_event event)) \<and>
        validText (s_Version (source_of_event event))"
      using t r source_valid_iff [of event] by (simp add: acceptable_def)
    have v: "validateSource (source_of_event event) (ev_Representation event) =
        (if acceptable event then None else Some (Sent ErrInvalidEvent))"
      unfolding validateSource_def agent_validText_eq acc using sfx by simp
    have rep: "agent_representation (ev_Representation event) =
        (representation_of_event event, ev_Representation event, True)"
      using r representation_consts(1)
      by (auto simp: agent_representation_def representation_of_event_def OriginalUpload_def ArchiveOutput_def)
    show ?thesis
      unfolding PlanIngest_def agent_validText_eq rep prod.case Let_def
      using assms t v by (simp add: source_of_event_def key_of_event_def del: ascii_Cons)
  qed
  have bad: "PlanIngest event evidenceFields = (zero_plan, Some (Sent ErrInvalidEvent))" if "\<not> (?texts \<and> ?rep)"
    using that assms
    by (auto simp: PlanIngest_def agent_validText_eq agent_representation_def Let_def)
  show "snd (PlanIngest event evidenceFields) = (if acceptable event then None else Some (Sent ErrInvalidEvent))"
    using plan bad by (cases "?texts \<and> ?rep") (auto simp: acceptable_def)
  show "acceptable event \<Longrightarrow> PlanIngest event evidenceFields = (?p, None)"
    using plan by (simp add: acceptable_def)
qed

text \<open>An accepted event plans a request that the store takes.\<close>

lemma acceptable_request:
  assumes "acceptable event"
  shows "validText (ev_Tenant event)" "validText (key_of_event event)"
    "validSource (source_of_event event)"
    "representation_of_event event = Original \<or> representation_of_event event = Derived"
proof -
  show "validText (ev_Tenant event)" using assms by (simp add: acceptable_def)
  show "validText (key_of_event event)"
    using hex_encode_ascii by (fastforce simp: key_of_event_def stableKey_def validText_def
      intro: utf8_valid_ascii)
  have "validText (s_Instance (source_of_event event))"
    using assms by (simp add: acceptable_def source_of_event_def)
  then show "validSource (source_of_event event)"
    using assms source_valid_iff [of event] by (simp add: acceptable_def validSource_def)
  show "representation_of_event event = Original \<or> representation_of_event event = Derived"
    by (simp add: representation_of_event_def)
qed

section \<open>Identities\<close>

abbreviation framed :: "gostring list \<Rightarrow> bytes" where
  "framed parts \<equiv> concat (map (\<lambda>part. 0 # part) parts)"

lemma framed_inject:
  "\<forall>p \<in> set ps. 0 \<notin> set p \<Longrightarrow> \<forall>q \<in> set qs. 0 \<notin> set q \<Longrightarrow> framed ps = framed qs \<Longrightarrow> ps = qs"
proof (induction ps arbitrary: qs)
  case Nil
  then show ?case by (cases qs) auto
next
  case (Cons p ps)
  then obtain q qs' where qs: "qs = q # qs'" by (cases qs) auto
  have eq: "p @ framed ps = q @ framed qs'" using Cons.prems(3) qs by simp
  have tw: "takeWhile (\<lambda>c. c \<noteq> 0) (r @ framed rs) = r" if "0 \<notin> set r" for r rs
  proof -
    have "\<And>c. c \<in> set r \<Longrightarrow> c \<noteq> 0" using that by auto
    then have "takeWhile (\<lambda>c. c \<noteq> 0) (r @ framed rs) = r @ takeWhile (\<lambda>c. c \<noteq> 0) (framed rs)"
      by (rule takeWhile_append2)
    also have "takeWhile (\<lambda>c. c \<noteq> 0) (framed rs) = []" by (cases rs) simp_all
    finally show ?thesis by simp
  qed
  have "p = q" using arg_cong [OF eq, of "takeWhile (\<lambda>c. c \<noteq> 0)"] Cons.prems(1,2) qs by (simp add: tw)
  then show ?case using Cons.IH [of qs'] Cons.prems(1,2) qs eq by simp
qed

text \<open>The parts of an event that its key is made of.\<close>

definition key_parts :: "event \<Rightarrow> gostring list" where
  "key_parts event = [ev_Tenant event, ev_Instance event, ev_DocumentID event, ev_Version event,
     ev_Representation event, ev_EventID event]"

lemma key_of_event_inject:
  assumes "acceptable e" "acceptable f" "key_of_event e = key_of_event f"
  shows "key_parts e = key_parts f \<or> collision_between {framed (key_parts e)} {framed (key_parts f)}"
proof -
  have nul: "\<forall>p \<in> set (key_parts x). 0 \<notin> set p" if "acceptable x" for x
    using that representation_consts by (auto simp: acceptable_def key_parts_def validText_def)
  have "sha256 (framed (key_parts e)) = sha256 (framed (key_parts f))"
    using assms(3) by (simp add: key_of_event_def stableKey_def key_parts_def b32_bytes_inject)
  then have "framed (key_parts e) = framed (key_parts f) \<or>
      collision_between {framed (key_parts e)} {framed (key_parts f)}"
    by (rule sha256_eq_cases) simp_all
  then show ?thesis using framed_inject [OF nul nul] assms(1,2) by blast
qed

lemma source_of_event_inject:
  assumes "acceptable e" "acceptable f" "source_of_event e = source_of_event f"
  shows "ev_Instance e = ev_Instance f \<and> ev_DocumentID e = ev_DocumentID f \<and>
    ev_Version e = ev_Version f \<and> ev_Representation e = ev_Representation f"
proof -
  let ?v = "\<lambda>x. ev_Version x @ ascii '':'' @ ev_Representation x"
  have eq: "ev_Instance e = ev_Instance f" "ev_DocumentID e = ev_DocumentID f" "?v e = ?v f"
    using assms(3) by (simp_all add: source_of_event_def)
  have last: "last (?v x) = (if ev_Representation x = OriginalUpload then 108 else 101)"
    if "acceptable x" for x
    using that by (auto simp: acceptable_def OriginalUpload_def ArchiveOutput_def)
  have "(ev_Representation e = OriginalUpload) = (ev_Representation f = OriginalUpload)"
    using arg_cong [OF eq(3), of last] unfolding last [OF assms(1)] last [OF assms(2)]
    by (simp split: if_splits)
  then have "ev_Representation e = ev_Representation f" using assms(1,2) by (auto simp: acceptable_def)
  then show ?thesis using eq by simp
qed

end
