(* ===== verification/Document_Ingester.thy ===== *)
theory Document_Ingester
  imports Storage
begin

text \<open>
  The interface through which the server and the Paperless agent use the store, the interfaces
  \<^verbatim>\<open>Ingester\<close> and \<^verbatim>\<open>engine\<close> of the source: one operation that uploads a document. The locale
  states what its clients rely on, in terms of states \<open>'s\<close> that may also change between the calls:
  \<open>later s s'\<close> says that \<open>s'\<close> may follow \<open>s\<close>, \<open>stored s n e\<close> that tenant \<open>n\<close> has evidence \<open>e\<close>.
\<close>

section \<open>The contract\<close>

locale document_ingester =
  fixes ok :: "'s \<Rightarrow> bool"
    and later :: "'s \<Rightarrow> 's \<Rightarrow> bool"
    and stored :: "'s \<Rightarrow> gostring \<Rightarrow> evidence \<Rightarrow> bool"
    and upload :: "document_request \<Rightarrow> 's \<Rightarrow> (evidence \<times> bool) result \<times> 's"
  assumes later_refl: "later s s"
    and later_trans: "later s s1 \<Longrightarrow> later s1 s2 \<Longrightarrow> later s s2"
    and later_ok: "ok s \<Longrightarrow> later s s' \<Longrightarrow> ok s'"
    and upload_later: "upload req s = (r, s') \<Longrightarrow> later s s'"
    and upload_stored: "ok s \<Longrightarrow> upload req s = (Inr (e, c), s') \<Longrightarrow>
      stored s' (d_Tenant req) e \<and> e_Source e = d_Source req \<and>
      w_Representation (e_Witness e) = d_Representation req \<and>
      hashDocument (d_Document req) (d_MaxBytes req) = Inr (w_DocumentDigest (e_Witness e))"
    and stored_later: "ok s \<Longrightarrow> later s s' \<Longrightarrow> stored s n e \<Longrightarrow>
      \<exists>e'. stored s' n e' \<and> e_ID e' = e_ID e \<and> e_Sequence e' = e_Sequence e \<and>
        e_Source e' = e_Source e \<and> e_Witness e' = e_Witness e"
    and upload_again: "ok s \<Longrightarrow> stored s (d_Tenant req) f \<Longrightarrow> e_Source f = d_Source req \<Longrightarrow>
      w_Representation (e_Witness f) = d_Representation req \<Longrightarrow>
      upload req s = (Inr (e, c), s') \<Longrightarrow> e_ID e = e_ID f \<and> e_Witness e = e_Witness f \<and> \<not> c"
begin

text \<open>A second upload of the same source version returns the first one's record, not created.\<close>

lemma uploads_return_same:
  assumes "ok s" "upload req s = (Inr (e, c), s1)" "later s1 s2" "upload req' s2 = (Inr (e', c'), s3)"
    and "d_Tenant req' = d_Tenant req" "d_Source req' = d_Source req"
      "d_Representation req' = d_Representation req"
  shows "e_ID e' = e_ID e \<and> e_Witness e' = e_Witness e \<and> \<not> c'"
proof -
  note st = upload_stored [OF assms(1,2)]
  have ok1: "ok s1" by (rule later_ok [OF assms(1) upload_later [OF assms(2)]])
  obtain f where f: "stored s2 (d_Tenant req) f" "e_ID f = e_ID e" "e_Source f = e_Source e"
    "e_Witness f = e_Witness e"
    using stored_later [OF ok1 assms(3) conjunct1 [OF st]] by blast
  have "e_ID e' = e_ID f \<and> e_Witness e' = e_Witness f \<and> \<not> c'"
    by (rule upload_again [OF later_ok [OF ok1 assms(3)] _ _ _ assms(4)]) (use f st assms(5-7) in simp_all)
  then show ?thesis using f by simp
qed

end

end
