(* ===== verification/Paperless_Runner.thy ===== *)
theory Paperless_Runner
  imports Paperless_Plan Document_Ingester
begin

text \<open>
  The runner of the Paperless agent (\<^verbatim>\<open>integrations/paperless/agent/runner.go\<close>): it plans an event,
  fetches the selected bytes through a \<open>Fetcher\<close> and uploads them through an \<open>Ingester\<close>. Both are
  interfaces in the code and functions here, on a state \<open>'s\<close> that stands for the world they work
  on; a nil interface is \<open>None\<close>. The lemmas are proved for every ingester that keeps the contract
  \<open>document_ingester\<close>.
\<close>

section \<open>The runner\<close>

definition DefaultMaxDocumentBytes :: i64 where
  "DefaultMaxDocumentBytes = push_bit 20 64"

record fetch_request =
  fq_Instance :: gostring
  fq_DocumentID :: gostring
  fq_Version :: gostring
  fq_Representation :: gostring

text \<open>\<open>fr_Close\<close> is the \<^verbatim>\<open>Close\<close> method of the document, when its type has one.\<close>

record 's fetch_result =
  fr_Version :: gostring
  fr_Document :: "reader option"
  fr_Close :: "('s \<Rightarrow> 's) option"

type_synonym 's fetcher = "fetch_request \<Rightarrow> 's \<Rightarrow> 's fetch_result result \<times> 's"
type_synonym 's ingester = "document_request \<Rightarrow> 's \<Rightarrow> (evidence \<times> bool) result \<times> 's"

record 's runner =
  rn_Fetcher :: "'s fetcher option"
  rn_Ingester :: "'s ingester option"
  rn_EvidenceFields :: "gostring list"
  rn_MaxBytes :: i64

record handled =
  hr_Plan :: plan
  hr_EvidenceID :: gostring
  hr_Created :: bool
  hr_Skipped :: bool

definition boundedBytes :: "reader \<Rightarrow> i64 \<Rightarrow> bytes result" where
  "boundedBytes r maxBytes =
     (if sint maxBytes \<le> 0 \<or> maxBytes = max_int64 then Inl (Sent ErrNotConfigured)
      else bindE (read_limited r (maxBytes + 1)) (\<lambda>data.
        if sint maxBytes < int (length data)
        then Inl (Wrap ErrOversizedFetch
          (''max '' @ map (\<lambda>c. char_of (unat c)) (decimal (nat (sint maxBytes))) @ '' bytes''))
        else Inr data))"

text \<open>The deferred \<^verbatim>\<open>closer.Close()\<close>.\<close>

definition close_document :: "'s fetch_result \<Rightarrow> 's \<Rightarrow> 's" where
  "close_document fetched s =
     (case (fr_Document fetched, fr_Close fetched) of (Some _, Some close) \<Rightarrow> close s | _ \<Rightarrow> s)"

definition Handle :: "'s runner \<Rightarrow> event \<Rightarrow> 's \<Rightarrow> handled result \<times> 's" where
  "Handle r event s =
     (case PlanIngest event (rn_EvidenceFields r) of
        (_, Some err) \<Rightarrow> (Inl err, s)
      | (plan, None) \<Rightarrow>
        if \<not> pl_Ingest plan
        then (Inr \<lparr>hr_Plan = plan, hr_EvidenceID = [], hr_Created = False, hr_Skipped = True\<rparr>, s)
        else case (rn_Fetcher r, rn_Ingester r) of
          (Some fetch, Some upload) \<Rightarrow>
            let maxBytes = (if rn_MaxBytes r = 0 then DefaultMaxDocumentBytes else rn_MaxBytes r) in
            if sint maxBytes < 0 then (Inl (Sent ErrNotConfigured), s)
            else (case fetch \<lparr>fq_Instance = ev_Instance event, fq_DocumentID = ev_DocumentID event,
                fq_Version = ev_Version event, fq_Representation = ev_Representation event\<rparr> s of
              (Inl err, s) \<Rightarrow> (Inl err, s)
            | (Inr fetched, s) \<Rightarrow>
                let (res, s) =
                  (if fr_Version fetched \<noteq> [] \<and> fr_Version fetched \<noteq> ev_Version event
                   then (Inl (Sent ErrVersionChanged), s)
                   else case fr_Document fetched of
                     None \<Rightarrow> (Inl (Sent ErrMissingDocument), s)
                   | Some document \<Rightarrow>
                     (case boundedBytes document maxBytes of
                        Inl err \<Rightarrow> (Inl err, s)
                      | Inr data \<Rightarrow>
                        (case upload \<lparr>d_Tenant = pl_Tenant plan, d_Key = pl_IdempotencyKey plan,
                            d_Source = pl_Source plan, d_Representation = pl_Representation plan,
                            d_Document = Some (bytes_reader data), d_MaxBytes = maxBytes\<rparr> s of
                           (Inl err, s) \<Rightarrow> (Inl err, s)
                         | (Inr (evidence, created), s) \<Rightarrow>
                             (Inr \<lparr>hr_Plan = plan, hr_EvidenceID = e_ID evidence,
                               hr_Created = created, hr_Skipped = False\<rparr>, s))))
                in (res, close_document fetched s))
        | _ \<Rightarrow> (Inl (Sent ErrNotConfigured), s))"

section \<open>Bounded reads\<close>

lemma boundedBytes_Inr:
  "boundedBytes r m = Inr data \<longleftrightarrow> 0 < sint m \<and> m \<noteq> max_int64 \<and> ending r = Eof \<and>
     data = content r \<and> int (length data) \<le> sint m"
proof
  assume "boundedBytes r m = Inr data"
  then have m: "0 < sint m" "m \<noteq> max_int64" and rd: "read_limited r (m + 1) = Inr data"
    and len: "int (length data) \<le> sint m"
    by (auto simp: boundedBytes_def bindE_eq_Inr split: if_splits)
  have "length data < nat (sint (m + 1))" using len m by (simp add: sint_succ)
  from read_limited_short [OF rd this] m len
  show "0 < sint m \<and> m \<noteq> max_int64 \<and> ending r = Eof \<and> data = content r \<and> int (length data) \<le> sint m"
    by simp
next
  assume r: "0 < sint m \<and> m \<noteq> max_int64 \<and> ending r = Eof \<and> data = content r \<and> int (length data) \<le> sint m"
  then have "read_limited r (m + 1) = Inr (content r)"
    by (intro read_limited_Eof) (auto simp: sint_succ)
  with r show "boundedBytes r m = Inr data" by (auto simp: boundedBytes_def)
qed

section \<open>What the runner does with its world\<close>

text \<open>The effective byte limit, and the request sent to the fetcher.\<close>

definition runner_limit :: "'s runner \<Rightarrow> i64" where
  "runner_limit r = (if rn_MaxBytes r = 0 then DefaultMaxDocumentBytes else rn_MaxBytes r)"

definition request_of_event :: "event \<Rightarrow> fetch_request" where
  "request_of_event event = \<lparr>fq_Instance = ev_Instance event, fq_DocumentID = ev_DocumentID event,
     fq_Version = ev_Version event, fq_Representation = ev_Representation event\<rparr>"

definition upload_of_event :: "'s runner \<Rightarrow> event \<Rightarrow> bytes \<Rightarrow> document_request" where
  "upload_of_event r event data = \<lparr>d_Tenant = ev_Tenant event, d_Key = key_of_event event,
     d_Source = source_of_event event, d_Representation = representation_of_event event,
     d_Document = Some (bytes_reader data), d_MaxBytes = runner_limit r\<rparr>"

lemma upload_of_event_sel [simp]:
  "d_Tenant (upload_of_event r ev data) = ev_Tenant ev"
  "d_Source (upload_of_event r ev data) = source_of_event ev"
  "d_Representation (upload_of_event r ev data) = representation_of_event ev"
  "d_Document (upload_of_event r ev data) = Some (bytes_reader data)"
  "d_MaxBytes (upload_of_event r ev data) = runner_limit r"
  by (simp_all add: upload_of_event_def)

lemma Handle_skip:
  assumes "writebackOnly (ev_ChangedFields ev) (rn_EvidenceFields r)"
  shows "\<exists>p. Handle r ev s =
      (Inr \<lparr>hr_Plan = p, hr_EvidenceID = [], hr_Created = False, hr_Skipped = True\<rparr>, s) \<and> \<not> pl_Ingest p"
  using assms by (simp add: Handle_def PlanIngest_def zero_plan_def)

lemma Handle_invalid:
  assumes "\<not> writebackOnly (ev_ChangedFields ev) (rn_EvidenceFields r)" and "\<not> acceptable ev"
  shows "Handle r ev s = (Inl (Sent ErrInvalidEvent), s)"
  using PlanIngest_eq(1) [OF assms(1)] assms(2)
  by (cases "PlanIngest ev (rn_EvidenceFields r)") (simp add: Handle_def)

text \<open>The run of an accepted event by a configured runner.\<close>

lemma Handle_accepted:
  assumes "\<not> writebackOnly (ev_ChangedFields ev) (rn_EvidenceFields r)" and "acceptable ev"
    and "rn_Fetcher r = Some fetch" and "rn_Ingester r = Some upload" and "0 \<le> sint (runner_limit r)"
  shows "Handle r ev s =
    (case fetch (request_of_event ev) s of
       (Inl err, s) \<Rightarrow> (Inl err, s)
     | (Inr fetched, s) \<Rightarrow>
         let (res, s) =
           (if fr_Version fetched \<noteq> [] \<and> fr_Version fetched \<noteq> ev_Version ev
            then (Inl (Sent ErrVersionChanged), s)
            else case fr_Document fetched of
              None \<Rightarrow> (Inl (Sent ErrMissingDocument), s)
            | Some document \<Rightarrow>
                (case boundedBytes document (runner_limit r) of
                   Inl err \<Rightarrow> (Inl err, s)
                 | Inr data \<Rightarrow>
                     (case upload (upload_of_event r ev data) s of
                        (Inl err, s) \<Rightarrow> (Inl err, s)
                      | (Inr (e, c), s) \<Rightarrow>
                          (Inr \<lparr>hr_Plan = fst (PlanIngest ev (rn_EvidenceFields r)),
                            hr_EvidenceID = e_ID e, hr_Created = c, hr_Skipped = False\<rparr>, s))))
         in (res, close_document fetched s))"
  unfolding Handle_def PlanIngest_eq(2) [OF assms(1,2)] runner_limit_def [symmetric] assms(3,4)
    prod.case option.case plan.select_convs fst_conv request_of_event_def upload_of_event_def Let_def
  using assms(5) by (simp del: ascii_Cons)

lemma Handle_unconfigured:
  assumes "\<not> writebackOnly (ev_ChangedFields ev) (rn_EvidenceFields r)" and "acceptable ev"
    and "rn_Fetcher r = None \<or> rn_Ingester r = None \<or> sint (runner_limit r) < 0"
  shows "Handle r ev s = (Inl (Sent ErrNotConfigured), s)"
  using assms(3) unfolding Handle_def PlanIngest_eq(2) [OF assms(1,2)] runner_limit_def [symmetric]
  by (auto simp: Let_def split: option.splits)

text \<open>What a successful run has done: it skipped, or fetched and uploaded.\<close>

lemma Handle_Inr:
  assumes run: "Handle r ev s = (Inr h, s')"
  obtains (skipped) "writebackOnly (ev_ChangedFields ev) (rn_EvidenceFields r)" "hr_Skipped h"
      "hr_EvidenceID h = []" "\<not> hr_Created h" "s' = s"
  | (uploaded) fetch upload fetched s1 doc e s2 where "acceptable ev" "\<not> hr_Skipped h"
      "rn_Fetcher r = Some fetch" "rn_Ingester r = Some upload"
      "fetch (request_of_event ev) s = (Inr fetched, s1)"
      "fr_Version fetched = [] \<or> fr_Version fetched = ev_Version ev"
      "fr_Document fetched = Some doc" "boundedBytes doc (runner_limit r) = Inr (content doc)"
      "upload (upload_of_event r ev (content doc)) s1 = (Inr (e, hr_Created h), s2)"
      "hr_EvidenceID h = e_ID e" "s' = close_document fetched s2"
proof (cases "writebackOnly (ev_ChangedFields ev) (rn_EvidenceFields r)")
  case True
  from Handle_skip [OF True, of s] run skipped [OF True] show thesis by auto
next
  case False
  have acc: "acceptable ev" using Handle_invalid [OF False, of s] run by fastforce
  note un = Handle_unconfigured [OF False acc, of s]
  obtain fetch upload where fi: "rn_Fetcher r = Some fetch" "rn_Ingester r = Some upload"
    and lim: "0 \<le> sint (runner_limit r)"
    using un run by (cases "rn_Fetcher r"; cases "rn_Ingester r") fastforce+
  note run' = run [unfolded Handle_accepted [OF False acc fi lim]]
  obtain fetched s1 where fet: "fetch (request_of_event ev) s = (Inr fetched, s1)"
    using run' by (auto split: prod.splits sum.splits)
  note run2 = run' [unfolded fet prod.case sum.case]
  have ver: "fr_Version fetched = [] \<or> fr_Version fetched = ev_Version ev"
    using run2 by (auto split: if_splits)
  obtain doc where doc: "fr_Document fetched = Some doc"
    using run2 ver by (cases "fr_Document fetched") (auto split: if_splits)
  obtain data where data: "boundedBytes doc (runner_limit r) = Inr data"
    using run2 ver doc by (cases "boundedBytes doc (runner_limit r)") (auto split: if_splits)
  have dc: "data = content doc" using data by (simp add: boundedBytes_Inr)
  obtain e c s2 where ing: "upload (upload_of_event r ev data) s1 = (Inr (e, c), s2)"
    and h: "h = \<lparr>hr_Plan = fst (PlanIngest ev (rn_EvidenceFields r)), hr_EvidenceID = e_ID e,
      hr_Created = c, hr_Skipped = False\<rparr>" "s' = close_document fetched s2"
    using run2 ver doc data by (auto split: if_splits prod.splits sum.splits)
  show thesis
    by (rule uploaded [OF acc _ fi fet ver doc data [unfolded dc]]) (use ing h dc in simp_all)
qed

section \<open>The runner over an ingester\<close>

text \<open>Fetching and closing let time pass, and do not undo anything.\<close>

definition steady :: "('s \<Rightarrow> 's \<Rightarrow> bool) \<Rightarrow> 's runner \<Rightarrow> bool" where
  "steady later r \<longleftrightarrow>
     (\<forall>fetch req s res s'. rn_Fetcher r = Some fetch \<longrightarrow> fetch req s = (res, s') \<longrightarrow>
        later s s' \<and>
        (\<forall>fetched close t. res = Inr fetched \<longrightarrow> fr_Close fetched = Some close \<longrightarrow> later t (close t)))"

lemma steady_fetch:
  assumes "steady later r" "rn_Fetcher r = Some fetch" "fetch req s = (res, s')"
  shows "later s s'" "res = Inr fetched \<Longrightarrow> fr_Close fetched = Some close \<Longrightarrow> later t (close t)"
  using assms unfolding steady_def by blast+

context document_ingester
begin

lemma close_later:
  assumes "steady later r" "rn_Fetcher r = Some fetch" "fetch req s = (Inr fetched, s1)"
  shows "later t (close_document fetched t)"
  using steady_fetch(2) [OF assms refl] later_refl
  by (auto simp: close_document_def split: option.splits)

lemma Handle_later:
  assumes st: "steady later r" and up: "rn_Ingester r = Some upload"
    and run: "Handle r ev s = (res, s')"
  shows "later s s'"
proof (cases "writebackOnly (ev_ChangedFields ev) (rn_EvidenceFields r) \<or> \<not> acceptable ev \<or>
    rn_Fetcher r = None \<or> sint (runner_limit r) < 0")
  case True
  then have "s' = s"
    using Handle_skip [of ev r s] Handle_invalid [of ev r s] Handle_unconfigured [of ev r s] run by fastforce
  then show ?thesis by (simp add: later_refl)
next
  case False
  then obtain fetch where fe: "rn_Fetcher r = Some fetch" by auto
  have *: "\<not> writebackOnly (ev_ChangedFields ev) (rn_EvidenceFields r)" "acceptable ev"
    "0 \<le> sint (runner_limit r)"
    using False by auto
  note run' = run [unfolded Handle_accepted [OF *(1,2) fe up *(3)]]
  obtain fr s1 where fet: "fetch (request_of_event ev) s = (fr, s1)"
    by (cases "fetch (request_of_event ev) s")
  note l1 = steady_fetch(1) [OF st fe fet]
  show ?thesis
  proof (cases fr)
    case (Inl err)
    then show ?thesis using run' l1 by (simp add: fet)
  next
    case (Inr fetched)
    have "\<exists>s2. later s1 s2 \<and> s' = close_document fetched s2"
      using run' [unfolded fet prod.case Inr sum.case] later_refl
      by (auto simp: Let_def dest: upload_later split: if_splits option.splits sum.splits prod.splits)
    then obtain s2 where "later s1 s2" "s' = close_document fetched s2" by blast
    then show ?thesis
      using l1 later_trans close_later [OF st fe fet [unfolded Inr]] by blast
  qed
qed

text \<open>A handled event has its evidence stored, with the digest of the bytes that were fetched.\<close>

lemma Handle_stored:
  assumes ok: "ok s" and st: "steady later r" and up: "rn_Ingester r = Some upload"
    and run: "Handle r ev s = (Inr h, s')" and new: "\<not> hr_Skipped h"
  shows "\<exists>fetch fetched s1 doc e. rn_Fetcher r = Some fetch \<and>
    fetch (request_of_event ev) s = (Inr fetched, s1) \<and>
    (fr_Version fetched = [] \<or> fr_Version fetched = ev_Version ev) \<and>
    fr_Document fetched = Some doc \<and> ending doc = Eof \<and>
    int (length (content doc)) \<le> sint (runner_limit r) \<and>
    stored s' (ev_Tenant ev) e \<and> e_ID e = hr_EvidenceID h \<and> e_Source e = source_of_event ev \<and>
    w_Representation (e_Witness e) = representation_of_event ev \<and>
    w_DocumentDigest (e_Witness e) = sha256 (content doc)"
  using run
proof (cases rule: Handle_Inr)
  case skipped
  then show ?thesis using new by simp
next
  case (uploaded fetch ingester fetched s1 doc e s2)
  have ing: "upload (upload_of_event r ev (content doc)) s1 = (Inr (e, hr_Created h), s2)"
    using uploaded(4,9) up by simp
  have ok1: "ok s1" by (rule later_ok [OF ok steady_fetch(1) [OF st uploaded(3,5)]])
  have ok2: "ok s2" by (rule later_ok [OF ok1 upload_later [OF ing]])
  note S = upload_stored [OF ok1 ing, unfolded upload_of_event_sel]
  have "later s2 s'" unfolding uploaded(11) by (rule close_later [OF st uploaded(3,5)])
  from stored_later [OF ok2 this conjunct1 [OF S]] obtain f where f: "stored s' (ev_Tenant ev) f"
    "e_ID f = e_ID e" "e_Source f = e_Source e" "e_Witness f = e_Witness e" by blast
  have "w_DocumentDigest (e_Witness e) = sha256 (content doc)"
    using S by (simp add: hashDocument_eq_Inr)
  then show ?thesis
    using f S uploaded(3,5,6,7,8,10) boundedBytes_Inr [of doc "runner_limit r" "content doc"]
    by (intro exI [of _ fetch] exI [of _ fetched] exI [of _ s1] exI [of _ doc] exI [of _ f]) simp
qed

text \<open>Once an event was handled, handling it again, or another event of the same source version,
  returns the same evidence and creates none.\<close>

lemma Handle_again:
  assumes ok: "ok s" and st: "steady later r" "steady later r'"
    and up: "rn_Ingester r = Some upload" "rn_Ingester r' = Some upload"
    and run: "Handle r ev s = (Inr h, s1)" "\<not> hr_Skipped h" and later: "later s1 s2"
    and run': "Handle r' ev' s2 = (Inr h', s3)" "\<not> hr_Skipped h'"
    and same: "ev_Tenant ev' = ev_Tenant ev" "source_of_event ev' = source_of_event ev"
  shows "hr_EvidenceID h' = hr_EvidenceID h \<and> \<not> hr_Created h'"
proof -
  obtain e where e: "stored s1 (ev_Tenant ev) e" "e_ID e = hr_EvidenceID h"
    "e_Source e = source_of_event ev" "w_Representation (e_Witness e) = representation_of_event ev"
    using Handle_stored [OF ok st(1) up(1) run] by blast
  have ok1: "ok s1" by (rule later_ok [OF ok Handle_later [OF st(1) up(1) run(1)]])
  have acc: "acceptable ev" using run by (cases rule: Handle_Inr [OF run(1)]) simp_all
  from run'(1) show ?thesis
  proof (cases rule: Handle_Inr)
    case skipped
    then show ?thesis using run'(2) by simp
  next
    case (uploaded fetch ingester fetched t doc f t2)
    have ing: "upload (upload_of_event r' ev' (content doc)) t = (Inr (f, hr_Created h'), t2)"
      using uploaded(4,9) up(2) by simp
    have l: "later s1 t" by (rule later_trans [OF later steady_fetch(1) [OF st(2) uploaded(3,5)]])
    obtain g where g: "stored t (ev_Tenant ev) g" "e_ID g = e_ID e" "e_Source g = e_Source e"
      "e_Witness g = e_Witness e"
      using stored_later [OF ok1 l e(1)] by blast
    have "representation_of_event ev' = representation_of_event ev"
      using source_of_event_inject [OF uploaded(1) acc same(2)] by (simp add: representation_of_event_def)
    then have "e_ID f = e_ID g \<and> e_Witness f = e_Witness g \<and> \<not> hr_Created h'"
      by (intro upload_again [OF later_ok [OF ok1 l] _ _ _ ing]) (use g e same in simp_all)
    then show ?thesis using uploaded(10) g(2) e(2) by simp
  qed
qed

end

end
