(* ===== verification/Paperless_Reconcile.thy ===== *)
theory Paperless_Reconcile
  imports Paperless_Runner
begin

text \<open>
  Reconciliation (\<^verbatim>\<open>integrations/paperless/agent/reconcile.go\<close>): one pass over the events that a
  source lists as ready, each handled by the runner, with a report of the outcomes. The lemmas
  show that the report accounts for every event, and that a replay returns the evidence of the
  first pass.
\<close>

section \<open>The reconciler\<close>

definition DefaultReconcileLimit :: int where
  "DefaultReconcileLimit = 1024"

type_synonym 's event_source = "int \<Rightarrow> 's \<Rightarrow> event list result \<times> 's"

record 's reconciler =
  rc_Source :: "'s event_source option"
  rc_Runner :: "'s runner"
  rc_Limit :: int

record reconcile_item =
  it_Event :: event
  it_EvidenceID :: gostring
  it_Created :: bool
  it_Skipped :: bool
  it_Error :: string

record reconcile_report =
  rr_Processed :: int
  rr_Created :: int
  rr_Existing :: int
  rr_Skipped :: int
  rr_Failed :: int
  rr_Items :: "reconcile_item list"

fun reconcile_events ::
    "'s runner \<Rightarrow> event list \<Rightarrow> reconcile_report \<Rightarrow> 's \<Rightarrow> reconcile_report \<times> 's" where
  "reconcile_events r [] report s = (report, s)"
| "reconcile_events r (event # events) report s =
     (let (res, s) = Handle r event s;
          item = \<lparr>it_Event = event, it_EvidenceID = [], it_Created = False, it_Skipped = False,
                  it_Error = []\<rparr>;
          (item, report) =
            (case res of
               Inl err \<Rightarrow> (item\<lparr>it_Error := error_text err\<rparr>, report\<lparr>rr_Failed := rr_Failed report + 1\<rparr>)
             | Inr result \<Rightarrow>
                 (item\<lparr>it_EvidenceID := hr_EvidenceID result, it_Created := hr_Created result,
                       it_Skipped := hr_Skipped result\<rparr>,
                  if hr_Skipped result then report\<lparr>rr_Skipped := rr_Skipped report + 1\<rparr>
                  else if hr_Created result then report\<lparr>rr_Created := rr_Created report + 1\<rparr>
                  else report\<lparr>rr_Existing := rr_Existing report + 1\<rparr>));
          report = report\<lparr>rr_Processed := rr_Processed report + 1, rr_Items := rr_Items report @ [item]\<rparr>
      in reconcile_events r events report s)"

definition zero_report :: reconcile_report where
  "zero_report = \<lparr>rr_Processed = 0, rr_Created = 0, rr_Existing = 0, rr_Skipped = 0, rr_Failed = 0,
     rr_Items = []\<rparr>"

definition Reconcile :: "'s reconciler \<Rightarrow> 's \<Rightarrow> reconcile_report result \<times> 's" where
  "Reconcile r s =
     (case rc_Source r of
        None \<Rightarrow> (Inl (Sent ErrReconcilerNotConfigured), s)
      | Some list_ready \<Rightarrow>
          let limit = (if rc_Limit r = 0 then DefaultReconcileLimit else rc_Limit r) in
          if limit < 0 then (Inl (Sent ErrReconcilerNotConfigured), s)
          else (case list_ready limit s of
              (Inl err, s) \<Rightarrow> (Inl err, s)
            | (Inr events, s) \<Rightarrow>
                let (report, s) = reconcile_events (rc_Runner r) events zero_report s
                in (Inr report, s)))"

section \<open>The report\<close>

text \<open>Handling all events in turn, and the report line of one outcome.\<close>

fun handle_all :: "'s runner \<Rightarrow> event list \<Rightarrow> 's \<Rightarrow> handled result list \<times> 's" where
  "handle_all r [] s = ([], s)"
| "handle_all r (event # events) s =
     (let (res, s) = Handle r event s; (rest, s) = handle_all r events s in (res # rest, s))"

definition item_of :: "event \<Rightarrow> handled result \<Rightarrow> reconcile_item" where
  "item_of event res =
     (case res of
        Inl err \<Rightarrow> \<lparr>it_Event = event, it_EvidenceID = [], it_Created = False, it_Skipped = False,
          it_Error = error_text err\<rparr>
      | Inr h \<Rightarrow> \<lparr>it_Event = event, it_EvidenceID = hr_EvidenceID h, it_Created = hr_Created h,
          it_Skipped = hr_Skipped h, it_Error = []\<rparr>)"

definition is_failed :: "handled result \<Rightarrow> bool" where
  "is_failed res \<longleftrightarrow> (\<exists>err. res = Inl err)"

definition is_skipped :: "handled result \<Rightarrow> bool" where
  "is_skipped res \<longleftrightarrow> (\<exists>h. res = Inr h \<and> hr_Skipped h)"

definition is_created :: "handled result \<Rightarrow> bool" where
  "is_created res \<longleftrightarrow> (\<exists>h. res = Inr h \<and> \<not> hr_Skipped h \<and> hr_Created h)"

definition is_existing :: "handled result \<Rightarrow> bool" where
  "is_existing res \<longleftrightarrow> (\<exists>h. res = Inr h \<and> \<not> hr_Skipped h \<and> \<not> hr_Created h)"

lemmas outcome_defs = is_failed_def is_skipped_def is_created_def is_existing_def

definition count :: "('a \<Rightarrow> bool) \<Rightarrow> 'a list \<Rightarrow> int" where
  "count P xs = int (length (filter P xs))"

lemma count_simps [simp]: "count P [] = 0" "count P (x # xs) = (if P x then 1 else 0) + count P xs"
  by (simp_all add: count_def)

lemma handle_all_length: "length (fst (handle_all r events s)) = length events"
  by (induction events arbitrary: s) (auto simp: split_beta)

lemma reconcile_events_eq:
  "reconcile_events r events report s =
    (let rs = fst (handle_all r events s) in
     (report\<lparr>rr_Processed := rr_Processed report + int (length events),
        rr_Created := rr_Created report + count is_created rs,
        rr_Existing := rr_Existing report + count is_existing rs,
        rr_Skipped := rr_Skipped report + count is_skipped rs,
        rr_Failed := rr_Failed report + count is_failed rs,
        rr_Items := rr_Items report @ map2 item_of events rs\<rparr>, snd (handle_all r events s)))"
proof (induction events arbitrary: report s)
  case (Cons event events)
  obtain res s1 where h: "Handle r event s = (res, s1)" by (cases "Handle r event s")
  show ?case
    by (cases res) (simp_all add: h Cons.IH item_of_def outcome_defs split_beta Let_def)
qed simp

lemma outcomes_partition:
  "count is_created rs + count is_existing rs + count is_skipped rs + count is_failed rs = int (length rs)"
proof (induction rs)
  case (Cons x rs)
  then show ?case by (cases x) (auto simp: outcome_defs)
qed simp

lemma handle_all_append:
  "handle_all r (a @ b) s = (let (ra, s1) = handle_all r a s; (rb, s2) = handle_all r b s1 in (ra @ rb, s2))"
  by (induction a arbitrary: s) (simp_all add: split_beta Let_def)

lemma handle_all_run:
  "handle_all r events s = (rs, s') \<Longrightarrow> i < length events \<Longrightarrow>
   \<exists>t t'. Handle r (events ! i) t = (rs ! i, t')"
proof (induction events arbitrary: s rs i)
  case (Cons event events)
  then obtain res s1 rest where h: "Handle r event s = (res, s1)" "handle_all r events s1 = (rest, s')"
    "rs = res # rest"
    by (auto simp: split_beta prod_eq_iff)
  show ?case using Cons.IH [OF h(2)] Cons.prems(2) h by (cases i) auto
qed simp

text \<open>A report line with evidence is that of an event that was fetched and uploaded.\<close>

lemma item_with_evidence:
  assumes "handle_all r events s = (rs, s')" and "i < length events"
    and "it_EvidenceID (item_of (events ! i) (rs ! i)) \<noteq> []"
  obtains h where "rs ! i = Inr h" "\<not> hr_Skipped h"
    "it_EvidenceID (item_of (events ! i) (rs ! i)) = hr_EvidenceID h"
    "it_Created (item_of (events ! i) (rs ! i)) = hr_Created h"
proof -
  obtain t t' where run: "Handle r (events ! i) t = (rs ! i, t')"
    using handle_all_run [OF assms(1,2)] by blast
  obtain h where h: "rs ! i = Inr h" using assms(3) by (cases "rs ! i") (simp_all add: item_of_def)
  have "\<not> hr_Skipped h"
    using assms(3) h by (cases rule: Handle_Inr [OF run [unfolded h]]) (simp_all add: item_of_def)
  then show thesis using that h by (simp add: item_of_def)
qed

lemma Reconcile_Inr:
  assumes "Reconcile c s = (Inr report, s')"
  obtains list_ready events s1 rs where "rc_Source c = Some list_ready"
    "list_ready (if rc_Limit c = 0 then 1024 else rc_Limit c) s = (Inr events, s1)"
    "0 \<le> rc_Limit c" "handle_all (rc_Runner c) events s1 = (rs, s')" "length rs = length events"
    "report = \<lparr>rr_Processed = int (length events), rr_Created = count is_created rs,
       rr_Existing = count is_existing rs, rr_Skipped = count is_skipped rs,
       rr_Failed = count is_failed rs, rr_Items = map2 item_of events rs\<rparr>"
proof -
  let ?limit = "if rc_Limit c = 0 then 1024 else rc_Limit c"
  obtain list_ready events s1 where l: "rc_Source c = Some list_ready" "\<not> ?limit < 0"
    "list_ready ?limit s = (Inr events, s1)"
    and r: "reconcile_events (rc_Runner c) events zero_report s1 = (report, s')"
    using assms by (auto simp: Reconcile_def DefaultReconcileLimit_def Let_def
        split: option.splits if_splits sum.splits prod.splits)
  obtain rs s2 where h: "handle_all (rc_Runner c) events s1 = (rs, s2)"
    by (cases "handle_all (rc_Runner c) events s1")
  have "length rs = length events" using handle_all_length [of "rc_Runner c" events s1] h by simp
  then show thesis
    using that [OF l(1,3) _ _ _ _] l(2) r h by (auto simp: reconcile_events_eq zero_report_def split: if_splits)
qed

section \<open>Replays\<close>

context document_ingester
begin

lemma handle_all_later:
  assumes "steady later r" "rn_Ingester r = Some upload"
  shows "handle_all r events s = (rs, s') \<Longrightarrow> later s s'"
proof (induction events arbitrary: s rs)
  case (Cons event events)
  then obtain res s1 rest where "Handle r event s = (res, s1)" "handle_all r events s1 = (rest, s')"
    by (auto simp: split_beta prod_eq_iff)
  then show ?case using Handle_later [OF assms] Cons.IH later_trans by blast
qed (simp add: later_refl)

lemma handle_all_nth:
  assumes "steady later r" "rn_Ingester r = Some upload"
  shows "handle_all r events s = (rs, s') \<Longrightarrow> i < length events \<Longrightarrow>
    \<exists>t t'. later s t \<and> Handle r (events ! i) t = (rs ! i, t') \<and> later t' s'"
proof (induction events arbitrary: s rs i)
  case (Cons event events)
  then obtain res s1 rest where h: "Handle r event s = (res, s1)" "handle_all r events s1 = (rest, s')"
    "rs = res # rest"
    by (auto simp: split_beta prod_eq_iff)
  note l = Handle_later [OF assms h(1)]
  show ?case
  proof (cases i)
    case 0
    then show ?thesis using h handle_all_later [OF assms h(2)] later_refl by auto
  next
    case (Suc j)
    then have "j < length events" using Cons.prems(2) by simp
    from Cons.IH [OF h(2) this] obtain t t' where
      "later s1 t" "Handle r (events ! j) t = (rest ! j, t')" "later t' s'" by blast
    then show ?thesis using Suc h(3) later_trans [OF l] by auto
  qed
qed simp

text \<open>A reported piece of evidence was reported by a run of the runner during the pass.\<close>

lemma reported_run:
  assumes st: "steady later (rc_Runner c)" and up: "rn_Ingester (rc_Runner c) = Some upload"
    and src: "\<forall>f limit t evs t'. rc_Source c = Some f \<longrightarrow> f limit t = (evs, t') \<longrightarrow> later t t'"
    and run: "Reconcile c s = (Inr report, s')" and j: "j < length (rr_Items report)"
    and ev: "it_EvidenceID (rr_Items report ! j) \<noteq> []"
  obtains u u' h where "later s u" "later u' s'"
    "Handle (rc_Runner c) (it_Event (rr_Items report ! j)) u = (Inr h, u')" "\<not> hr_Skipped h"
    "it_EvidenceID (rr_Items report ! j) = hr_EvidenceID h" "it_Created (rr_Items report ! j) = hr_Created h"
proof -
  obtain f events t rs where f: "rc_Source c = Some f"
    "f (if rc_Limit c = 0 then 1024 else rc_Limit c) s = (Inr events, t)"
    "0 \<le> rc_Limit c" "handle_all (rc_Runner c) events t = (rs, s')" "length rs = length events"
    "report = \<lparr>rr_Processed = int (length events), rr_Created = count is_created rs,
       rr_Existing = count is_existing rs, rr_Skipped = count is_skipped rs,
       rr_Failed = count is_failed rs, rr_Items = map2 item_of events rs\<rparr>"
    by (rule Reconcile_Inr [OF run])
  have j': "j < length events" using j f(5,6) by simp
  have item: "rr_Items report ! j = item_of (events ! j) (rs ! j)" using j' f(5,6) by simp
  have it: "it_Event (rr_Items report ! j) = events ! j" by (simp add: item item_of_def split: sum.split)
  obtain h where h: "rs ! j = Inr h" "\<not> hr_Skipped h"
    "it_EvidenceID (rr_Items report ! j) = hr_EvidenceID h" "it_Created (rr_Items report ! j) = hr_Created h"
    using item_with_evidence [OF f(4) j'] ev item by metis
  obtain u u' where u: "later t u" "Handle (rc_Runner c) (events ! j) u = (Inr h, u')" "later u' s'"
    using handle_all_nth [OF st up f(4) j'] h(1) by auto
  have "later s t" using src f(1,2) by blast
  from later_trans [OF this u(1)] show thesis using that u(2,3) h(2-4) it by simp
qed

end

end
