(* ===== verification/Storage_Uploader.thy ===== *)
theory Storage_Uploader
  imports Storage_Upload Document_Ingester
begin

text \<open>
  The store provides the contract \<open>document_ingester\<close>: \<open>store_upload\<close> is \<open>IngestDocument\<close> on a
  state that carries the database, the entropy left and the state of the store's client.
\<close>


section \<open>The store as an uploader\<close>

text \<open>
  The store with other users: what they commit between the transactions of one upload. The state
  is the database, the entropy left, and whatever else the clients of the store work on.
\<close>

definition store_upload :: "'d bolt \<Rightarrow> ('d \<Rightarrow> 'd) \<Rightarrow> ('d \<Rightarrow> 'd) \<Rightarrow> document_request \<Rightarrow>
    'd \<times> entropy \<times> 'x \<Rightarrow> (evidence \<times> bool) result \<times> 'd \<times> entropy \<times> 'x" where
  "store_upload B between1 between2 req s =
     (case s of (d, rnd, x) \<Rightarrow>
        (case IngestDocument B between1 between2 req d rnd of (r, d', rnd') \<Rightarrow> (r, d', rnd', x)))"

context bolt_laws
begin

text \<open>Evidence is created only for a source version that the store does not have.\<close>

lemma IngestDocument_created:
  assumes ok: "store_ok B d" and oth: "others B b1"
    and run: "IngestDocument B b1 b2 req d rnd = (Inr (e, True), d', rnd')"
  shows "v_sources (tenant_view B (b1 d) (d_Tenant req)) (sourceKey (d_Source req) (d_Representation req)) = None"
proof -
  let ?find = "\<lambda>d. find_evidence B (d_Tenant req) (d_Key req) (d_Source req) (d_Representation req) d"
  note run' = run [unfolded IngestDocument_def]
  have find1: "?find d = Inr None"
    using run' by (cases "?find d") (auto split: if_splits sum.splits option.splits)
  obtain w c rnd1 where
    new: "New_commitment (d_Document req) (d_Representation req) (d_MaxBytes req) rnd = (Inr (w, c), rnd1)"
    using run' find1 by (auto split: if_splits sum.splits prod.splits)
  let ?req = "\<lparr>i_Tenant = d_Tenant req, i_Key = d_Key req, i_Source = d_Source req, i_Witness = w\<rparr>"
  obtain res d1 rnd2 where ing: "Ingest B ?req (b1 d) rnd1 = (res, d1, rnd2)"
    by (cases "Ingest B ?req (b1 d) rnd1")
  note rest = run' [unfolded find1 new sum.case option.case prod.case, unfolded ing prod.case]
  have "res = Inr (e, True)"
    using rest by (cases res) (auto simp: Let_def split: if_splits sum.splits option.splits)
  have ok1: "store_ok B (b1 d)" using store_run_ok [OF othersD [OF oth] ok] by simp
  have "located (tenant_view B (b1 d) (d_Tenant req)) ?req = None"
    using Ingest_refines [OF ok1 ing [unfolded \<open>res = Inr (e, True)\<close>]] by (simp add: ingest_spec_def)
  then show ?thesis
    using New_commitment_Inr [OF new] by (simp add: located_source source_located_def split: option.splits)
qed

end

text \<open>
  The contract \<open>document_ingester\<close> holds for the store under the invariant \<open>store_ok\<close>, while other
  users commit runs of it.
\<close>

locale busy_store = bolt_laws +
  fixes between1 between2 :: "'a \<Rightarrow> 'a"
  assumes between: "others B between1" "others B between2"

sublocale busy_store \<subseteq> uploads: document_ingester
  "\<lambda>s. store_ok B (fst s)"
  "\<lambda>s s'. store_run B (fst s) (fst s')"
  "\<lambda>s n e. v_evidence (tenant_view B (fst s) n) (e_ID e) = Inr e"
  "store_upload B between1 between2"
proof (unfold_locales, goal_cases)
  case (1 s)
  show ?case by (rule run_nil)
next
  case (2 s s1 s2)
  show ?case by (rule run_trans [OF 2(2,1)])
next
  case (3 s s')
  show ?case using store_run_ok [OF 3(2,1)] by simp
next
  case (4 req s r s')
  then show ?case
    using IngestDocument_run [OF between, of req "fst s" "fst (snd s)"]
    by (auto simp: store_upload_def split: prod.splits)
next
  case (5 s req e c s')
  obtain d rnd x where s: "s = (d, rnd, x)" by (cases s) auto
  obtain d' rnd' where run: "IngestDocument B between1 between2 req d rnd = (Inr (e, c), d', rnd')"
    and s': "s' = (d', rnd', x)"
    using 5(2) by (auto simp: store_upload_def s split: prod.splits)
  show ?case
    using IngestDocument_sound [OF 5(1) [unfolded s fst_conv] between run] by (simp add: s')
next
  case (6 s s' n e)
  have x: "extends (tenant_view B (fst s) n) (tenant_view B (fst s') n)"
    using store_run_ok [OF 6(2,1)] by blast
  have ok: "wf_view (tenant_view B (fst s') n)"
    using store_run_ok [OF 6(2,1)] by (simp add: tenant_view_wf)
  obtain e' where e': "v_evidence (tenant_view B (fst s') n) (e_ID e) = Inr e'"
    "e_Sequence e' = e_Sequence e" "e_Source e' = e_Source e" "e_Witness e' = e_Witness e"
    using extendsD_evidence [OF x 6(3)] by metis
  have "e_ID e' = e_ID e" using wf_evidenceD(2) [OF ok e'(1)] .
  then show ?case using e' by (intro exI [of _ e']) simp
next
  case (7 s req f e c s')
  obtain d rnd x where s: "s = (d, rnd, x)" by (cases s) auto
  obtain d' rnd' where run: "IngestDocument B between1 between2 req d rnd = (Inr (e, c), d', rnd')"
    and s': "s' = (d', rnd', x)"
    using 7(5) by (auto simp: store_upload_def s split: prod.splits)
  let ?n = "d_Tenant req"
  have ok: "store_ok B d" and f: "v_evidence (tenant_view B d ?n) (e_ID f) = Inr f"
    using 7(1,2) by (simp_all add: s)
  have key: "source_key_of f = sourceKey (d_Source req) (d_Representation req)" using 7(3,4) by simp
  note sound = IngestDocument_sound [OF ok between run]
  have same: "e_ID e = e_ID f \<and> e_Witness e = e_Witness f"
    using stored_record_unique [OF ok f, of d' e] sound 7(3,4) by simp
  have "\<not> c"
  proof
    assume c
    have "store_ok B (between1 d)" and x: "extends (tenant_view B d ?n) (tenant_view B (between1 d) ?n)"
      using store_run_ok [OF othersD [OF between(1)] ok] by blast+
    have "v_sources (tenant_view B d ?n) (source_key_of f) = Some (e_ID f)"
      using f unfolding wf_sources [OF tenant_view_wf [OF ok]] by blast
    then have "v_sources (tenant_view B (between1 d) ?n) (source_key_of f) = Some (e_ID f)"
      by (rule extendsD_index(2) [OF x])
    with IngestDocument_created [OF ok between(1) run [unfolded \<open>c\<close> [THEN eqTrueI]]] key show False by simp
  qed
  with same show ?case by blast
qed

context busy_store
begin

lemma contract: "document_ingester (\<lambda>s. store_ok B (fst s)) (\<lambda>s s'. store_run B (fst s) (fst s'))
    (\<lambda>s n e. v_evidence (tenant_view B (fst s) n) (e_ID e) = Inr e) (store_upload B between1 between2)"
  by (rule uploads.document_ingester_axioms)

end

lemma store_contract:
  "bolt_laws B \<Longrightarrow> others B between1 \<Longrightarrow> others B between2 \<Longrightarrow>
   document_ingester (\<lambda>s. store_ok B (fst s)) (\<lambda>s s'. store_run B (fst s) (fst s'))
    (\<lambda>s n e. v_evidence (tenant_view B (fst s) n) (e_ID e) = Inr e) (store_upload B between1 between2)"
  by (intro busy_store.contract busy_store.intro busy_store_axioms.intro)

interpretation busy_memory: busy_store mem_bolt "\<lambda>d. d" "\<lambda>d. d"
  by unfold_locales simp_all

end
