(* ===== verification/Paperless_Props.thy ===== *)
theory Paperless_Props
  imports Paperless_Reconcile Storage_Uploader Storage_Example
begin

text \<open>
  What the Paperless agent promises, over the store as its ingester: the plan of an event
  identifies it, the runner captures exactly the bytes fetched within its limit, and
  reconciliation accounts for every event and can be repeated.
\<close>

section \<open>Planning\<close>

text \<open>
  C33. A plan is sound and identifies what it was made for: its request is valid for the store; two
  accepted events with the same source have the same instance, document, version and
  representation; and two with the same idempotency key agree in all six parts of the key, or else
  there is a SHA-256 collision between the two strings hashed.
\<close>

theorem plan_identifies_event:
  assumes "PlanIngest e fs = (p, None)" and "pl_Ingest p"
    and "PlanIngest e' fs' = (p', None)" and "pl_Ingest p'"
  shows "validText (pl_Tenant p) \<and> validText (pl_IdempotencyKey p) \<and> validSource (pl_Source p) \<and>
    (pl_Representation p = Original \<or> pl_Representation p = Derived) \<and>
    (pl_Source p = pl_Source p' \<longrightarrow>
       ev_Instance e = ev_Instance e' \<and> ev_DocumentID e = ev_DocumentID e' \<and>
       ev_Version e = ev_Version e' \<and> ev_Representation e = ev_Representation e') \<and>
    (pl_IdempotencyKey p = pl_IdempotencyKey p' \<longrightarrow>
       key_parts e = key_parts e' \<or> collision_between {framed (key_parts e)} {framed (key_parts e')})"
proof -
  have plan: "acceptable x \<and> pl_Tenant q = ev_Tenant x \<and> pl_IdempotencyKey q = key_of_event x \<and>
      pl_Source q = source_of_event x \<and> pl_Representation q = representation_of_event x"
    if "PlanIngest x gs = (q, None)" "pl_Ingest q" for x gs q
  proof -
    have w: "\<not> writebackOnly (ev_ChangedFields x) gs"
      using that by (auto simp: PlanIngest_def zero_plan_def)
    have acc: "acceptable x" using PlanIngest_eq(1) [OF w] that(1) by (auto split: if_splits)
    have "q = fst (PlanIngest x gs)" using that(1) by simp
    then show ?thesis using acc by (simp add: PlanIngest_eq(2) [OF w acc])
  qed
  note P = plan [OF assms(1,2)] and P' = plan [OF assms(3,4)]
  have acc: "acceptable e" "acceptable e'" using P P' by blast+
  show ?thesis
    using P P' acceptable_request [OF acc(1)] source_of_event_inject [OF acc] key_of_event_inject [OF acc]
    by simp
qed

definition sample_event :: event where
  "sample_event = \<lparr>ev_Tenant = ascii ''t'', ev_Instance = ascii ''i'', ev_DocumentID = ascii ''1'',
     ev_Version = ascii ''v'', ev_EventID = ascii ''e'', ev_Representation = OriginalUpload,
     ev_ChangedFields = []\<rparr>"

lemma sample_event_acceptable:
  "acceptable sample_event" "\<not> writebackOnly (ev_ChangedFields sample_event) fs"
  by (simp_all add: acceptable_def sample_event_def validText_def OriginalUpload_def writebackOnly_def)

theorem plan_identifies_event_witness:
  "\<exists>p. PlanIngest sample_event [] = (p, None) \<and> validSource (pl_Source p)"
proof -
  obtain p where p: "PlanIngest sample_event [] = (p, None)" "pl_Ingest p"
    using PlanIngest_eq(2) [OF sample_event_acceptable(2,1), of "[]"] by auto
  show ?thesis using plan_identifies_event [OF p p] p(1) by blast
qed

text \<open>
  The runner refuses without touching anything: an event that only reports the configured
  evidence fields is skipped, so that a write-back cannot cause new evidence; an event that is not
  acceptable is invalid, which happens exactly when one of its texts is not valid or too long for
  its place in the source identity or its representation is unknown; and a runner without fetcher,
  without ingester or with a negative limit is not configured. In all these cases nothing is
  fetched or uploaded, and the world is unchanged.
\<close>

theorem runner_refusals:
  "(writebackOnly (ev_ChangedFields ev) (rn_EvidenceFields r) \<longrightarrow>
      (\<exists>p. Handle r ev s = (Inr \<lparr>hr_Plan = p, hr_EvidenceID = [], hr_Created = False, hr_Skipped = True\<rparr>, s)))
   \<and> (\<not> writebackOnly (ev_ChangedFields ev) (rn_EvidenceFields r) \<longrightarrow> \<not> acceptable ev \<longrightarrow>
      Handle r ev s = (Inl (Sent ErrInvalidEvent), s))
   \<and> (\<not> writebackOnly (ev_ChangedFields ev) (rn_EvidenceFields r) \<longrightarrow> acceptable ev \<longrightarrow>
      rn_Fetcher r = None \<or> rn_Ingester r = None \<or> sint (rn_MaxBytes r) < 0 \<longrightarrow>
      Handle r ev s = (Inl (Sent ErrNotConfigured), s))"
proof -
  have "sint (rn_MaxBytes r) < 0 \<Longrightarrow> sint (runner_limit r) < 0" by (auto simp: runner_limit_def)
  then show ?thesis
    using Handle_skip [of ev r s] Handle_invalid [of ev r s] Handle_unconfigured [of ev r s] by blast
qed

definition sample_runner :: "gostring \<Rightarrow> (memory \<times> entropy \<times> unit) runner" where
  "sample_runner version = \<lparr>rn_Fetcher = Some (\<lambda>req s. (Inr \<lparr>fr_Version = version,
       fr_Document = Some (bytes_reader [1]), fr_Close = None\<rparr>, s)),
     rn_Ingester = Some (store_upload mem_bolt (\<lambda>d. d) (\<lambda>d. d)),
     rn_EvidenceFields = [ascii ''s''], rn_MaxBytes = 9\<rparr>"

theorem runner_refusals_witness:
  "(\<exists>p. Handle (sample_runner []) (sample_event\<lparr>ev_ChangedFields := [ascii '' s '']\<rparr>) (fmempty, [], ()) =
     (Inr \<lparr>hr_Plan = p, hr_EvidenceID = [], hr_Created = False, hr_Skipped = True\<rparr>, (fmempty, [], ()))) \<and>
   Handle (sample_runner []) (sample_event\<lparr>ev_Version := []\<rparr>) (fmempty, [], ()) = (Inl (Sent ErrInvalidEvent), (fmempty, [], ()))"
proof -
  have "trim_space (ascii '' s '') = ascii ''s''" "trim_space (ascii ''s'') = ascii ''s''"
    by code_simp+
  then have "writebackOnly (ev_ChangedFields (sample_event\<lparr>ev_ChangedFields := [ascii '' s '']\<rparr>))
      (rn_EvidenceFields (sample_runner []))"
    by (simp add: writebackOnly_def sample_runner_def del: ascii_Cons)
  moreover have "\<not> writebackOnly (ev_ChangedFields (sample_event\<lparr>ev_Version := []\<rparr>))
      (rn_EvidenceFields (sample_runner []))" "\<not> acceptable (sample_event\<lparr>ev_Version := []\<rparr>)"
    by (simp_all add: sample_event_def writebackOnly_def acceptable_def validText_def)
  ultimately show ?thesis
    using runner_refusals [of "sample_event\<lparr>ev_ChangedFields := [ascii '' s '']\<rparr>" "sample_runner []" "(fmempty, [], ())"]
      runner_refusals [of "sample_event\<lparr>ev_Version := []\<rparr>" "sample_runner []" "(fmempty, [], ())"] by blast
qed


section \<open>Capturing\<close>

text \<open>
  C30. A handled event is captured: when the runner over the store reports evidence for an event, the
  store holds it for the tenant, under the source of the event and its representation, and its
  digest is that of the complete bytes the fetcher delivered, which were within the limit and of
  the version of the event, as far as the fetcher reports one. Meanwhile other users may commit any
  runs of the store.
\<close>

theorem runner_captures_document:
  assumes "bolt_laws B" and "reachable B (fst s)" and "others B between1" and "others B between2"
    and "steady (\<lambda>s s'. store_run B (fst s) (fst s')) r"
    and "rn_Ingester r = Some (store_upload B between1 between2)"
    and "Handle r ev s = (Inr h, s')" and "\<not> hr_Skipped h"
  shows "\<exists>fetch fetched s1 doc e. rn_Fetcher r = Some fetch \<and>
    fetch (request_of_event ev) s = (Inr fetched, s1) \<and>
    (fr_Version fetched = [] \<or> fr_Version fetched = ev_Version ev) \<and>
    fr_Document fetched = Some doc \<and> ending doc = Eof \<and>
    int (length (content doc)) \<le> sint (runner_limit r) \<and>
    v_evidence (tenant_view B (fst s') (ev_Tenant ev)) (hr_EvidenceID h) = Inr e \<and>
    e_Source e = source_of_event ev \<and>
    w_Representation (e_Witness e) = representation_of_event ev \<and>
    w_DocumentDigest (e_Witness e) = sha256 (content doc)"
proof -
  note contract = store_contract [OF assms(1,3,4)]
  have "store_ok B (fst s)" by (rule bolt_laws.reachable_ok [OF assms(1,2)])
  from document_ingester.Handle_stored [OF contract this assms(5-8)] show ?thesis by metis
qed

lemma sample_runner_steady: "steady (\<lambda>s s'. store_run mem_bolt (fst s) (fst s')) (sample_runner v)"
  by (auto simp: steady_def sample_runner_def run_nil)

lemma sample_runner_limit [simp]: "runner_limit (sample_runner v) = 9"
  by (simp add: runner_limit_def sample_runner_def)

text \<open>A first run that captures the document, and a second one that finds it.\<close>

lemma sample_capture:
  assumes acc: "acceptable ev" and wb: "\<not> writebackOnly (ev_ChangedFields ev) (rn_EvidenceFields r)"
    and fetch: "rn_Fetcher r = Some fetch"
      "\<And>s. fetch (request_of_event ev) s =
        (Inr \<lparr>fr_Version = v, fr_Document = Some (bytes_reader [1]), fr_Close = None\<rparr>, s)"
      "v = [] \<or> v = ev_Version ev"
    and up: "rn_Ingester r = Some (store_upload mem_bolt (\<lambda>d. d) (\<lambda>d. d))"
    and lim: "runner_limit r = 9"
  obtains d0 h d1 h' where "reachable mem_bolt d0"
    "Handle r ev (d0, [Inr [3], Inr sample_raw], x) = (Inr h, (d1, [], x))"
    "\<not> hr_Skipped h" "hr_EvidenceID h \<noteq> []"
    "Handle r ev (d1, [], x) = (Inr h', (d1, [], x))"
    "\<not> hr_Skipped h'" "hr_EvidenceID h' \<noteq> []"
proof -
  obtain d0 where d0: "reachable mem_bolt d0" "store_ok mem_bolt d0"
    "\<And>n. tenant_view mem_bolt d0 n = empty_view"
    using sample_open by metis
  let ?req = "upload_of_event r ev [1]"
  have val: "valid_upload ?req"
    using acceptable_request [OF acc] lim by (simp add: valid_upload_def upload_of_event_def)
  have h: "hashDocument (d_Document ?req) (d_MaxBytes ?req) = Inr (sha256 [1])"
    by (simp add: hashDocument_eq_Inr max_int64_def lim)
  have none: "source_located (tenant_view mem_bolt d0 n) k src rep = None" for n k src rep
    by (simp add: d0(3) source_located_def empty_view_def)
  have fresh: "fresh_id (v_evidence (tenant_view mem_bolt d0 n)) sample_raw" for n
    using sample_fresh by (simp add: d0(3) empty_view_def)
  have seq: "v_seq (tenant_view mem_bolt d0 n) + 1 \<noteq> 0" for n
    by (simp add: d0(3) empty_view_def)
  obtain e d1 where first: "IngestDocument mem_bolt (\<lambda>d. d) (\<lambda>d. d) ?req d0 [Inr [3], Inr sample_raw] =
      (Inr (e, True), d1, [])" "held (tenant_view mem_bolt d1 (d_Tenant ?req)) ?req e"
      "w_DocumentDigest (e_Witness e) = sha256 [1]"
    using memory.IngestDocument_creates [OF d0(2) memory_accepting val others_id h none none fresh seq, of "\<lambda>d. d" "[3]" "[]"]
    by blast
  note sound = memory.IngestDocument_sound [OF d0(2) others_id others_id first(1)]
  have ok1: "store_ok mem_bolt d1" using sound memory.store_run_ok [OF _ d0(2)] by blast
  have "good_evidence e" using sound tenant_view_wf [OF ok1] by (auto dest: wf_evidenceD)
  then have id: "e_ID e \<noteq> []" by (auto simp: good_evidence_def validID_def)
  have second: "IngestDocument mem_bolt (\<lambda>d. d) (\<lambda>d. d) ?req d1 [] = (Inr (e, False), d1, [])"
    using memory.IngestDocument_replay [OF ok1 memory_accepting val h first(2)] first(3) by simp
  have bb: "boundedBytes (bytes_reader [1]) 9 = Inr [1]" by (simp add: boundedBytes_Inr max_int64_def)
  have "0 \<le> sint (runner_limit r)" by (simp add: lim)
  note run = Handle_accepted [OF wb acc fetch(1) up this]
  have handle: "\<exists>p. Handle r ev (d, rnd, x) =
      (Inr \<lparr>hr_Plan = p, hr_EvidenceID = e_ID e, hr_Created = c, hr_Skipped = False\<rparr>, (d', [], x))"
    if "IngestDocument mem_bolt (\<lambda>d. d) (\<lambda>d. d) ?req d rnd = (Inr (e, c), d', [])" for d rnd c d'
    unfolding run fetch(2) using fetch(3) that by (auto simp: bb lim store_upload_def close_document_def)
  show thesis using that [OF d0(1)] handle [OF first(1)] handle [OF second] id by auto
qed

lemma sample_handle:
  obtains d0 h d1 h' where "reachable mem_bolt d0"
    "Handle (sample_runner []) sample_event (d0, [Inr [3], Inr sample_raw], ()) = (Inr h, (d1, [], ()))"
    "\<not> hr_Skipped h" "hr_EvidenceID h \<noteq> []"
    "Handle (sample_runner []) sample_event (d1, [], ()) = (Inr h', (d1, [], ()))"
    "\<not> hr_Skipped h'" "hr_EvidenceID h' \<noteq> []"
proof -
  let ?fetch = "\<lambda>req s. (Inr \<lparr>fr_Version = [], fr_Document = Some (bytes_reader [1]), fr_Close = None\<rparr>, s)"
  show thesis
    by (rule sample_capture [OF sample_event_acceptable(1,2), of "sample_runner []" ?fetch "[]" "()"])
      (simp_all add: sample_runner_def runner_limit_def that)
qed

theorem runner_captures_document_witness:
  "\<exists>s h s' e. Handle (sample_runner []) sample_event s = (Inr h, s') \<and>
     v_evidence (tenant_view mem_bolt (fst s') (ascii ''t'')) (hr_EvidenceID h) = Inr e \<and>
     w_DocumentDigest (e_Witness e) = sha256 [1]"
proof -
  obtain d0 h d1 where run: "reachable mem_bolt d0"
    "Handle (sample_runner []) sample_event (d0, [Inr [3], Inr sample_raw], ()) = (Inr h, (d1, [], ()))"
    "\<not> hr_Skipped h"
    by (rule sample_handle)
  have fi: "rn_Fetcher (sample_runner []) = Some (\<lambda>req s. (Inr \<lparr>fr_Version = [],
       fr_Document = Some (bytes_reader [1]), fr_Close = None\<rparr>, s))"
    "rn_Ingester (sample_runner []) = Some (store_upload mem_bolt (\<lambda>d. d) (\<lambda>d. d))"
    "ev_Tenant sample_event = ascii ''t''"
    by (simp_all add: sample_runner_def sample_event_def)
  obtain e where "v_evidence (tenant_view mem_bolt d1 (ascii ''t'')) (hr_EvidenceID h) = Inr e"
    "w_DocumentDigest (e_Witness e) = sha256 [1]"
    using runner_captures_document [OF memory.bolt_laws_axioms _ others_id others_id sample_runner_steady
        fi(2) run(2,3)] run(1) fi by auto
  then show ?thesis using run(2) by (intro exI [of _ "(d0, [Inr [3], Inr sample_raw], ())"]) auto
qed

section \<open>Reconciliation\<close>

text \<open>
  C36. The report of a reconciliation accounts for every listed event, in order, and a failing event
  does not stop the pass: each event has one item with the outcome of its own run, the five
  counters are the numbers of items of each kind, and the first four kinds add up to the events
  processed.
\<close>

theorem reconcile_accounts_for_all:
  assumes "Reconcile c s = (Inr report, s')"
  shows "\<exists>list_ready events s1. rc_Source c = Some list_ready \<and> 0 \<le> rc_Limit c \<and>
    list_ready (if rc_Limit c = 0 then 1024 else rc_Limit c) s = (Inr events, s1) \<and>
    (let rs = fst (handle_all (rc_Runner c) events s1) in
     s' = snd (handle_all (rc_Runner c) events s1) \<and> length rs = length events \<and>
     rr_Items report = map2 item_of events rs \<and> map it_Event (rr_Items report) = events \<and>
     rr_Processed report = int (length events) \<and>
     rr_Created report = count is_created rs \<and> rr_Existing report = count is_existing rs \<and>
     rr_Skipped report = count is_skipped rs \<and> rr_Failed report = count is_failed rs \<and>
     rr_Processed report = rr_Created report + rr_Existing report + rr_Skipped report + rr_Failed report)"
proof -
  obtain list_ready events s1 rs where c: "rc_Source c = Some list_ready"
    "list_ready (if rc_Limit c = 0 then 1024 else rc_Limit c) s = (Inr events, s1)"
    "0 \<le> rc_Limit c" "handle_all (rc_Runner c) events s1 = (rs, s')" "length rs = length events"
    "report = \<lparr>rr_Processed = int (length events), rr_Created = count is_created rs,
       rr_Existing = count is_existing rs, rr_Skipped = count is_skipped rs,
       rr_Failed = count is_failed rs, rr_Items = map2 item_of events rs\<rparr>"
    using Reconcile_Inr [OF assms] by blast
  have "map it_Event (map2 item_of events rs) = events"
    using c(5) by (intro nth_equalityI) (auto simp: item_of_def split: sum.splits)
  then show ?thesis
    using c outcomes_partition [of rs]
    by (intro exI [of _ list_ready] exI [of _ events] exI [of _ s1]) (simp add: Let_def)
qed

definition sample_reconciler :: "(memory \<times> entropy \<times> unit) reconciler" where
  "sample_reconciler = \<lparr>rc_Source = Some (\<lambda>limit s. (Inr [sample_event], s)),
     rc_Runner = sample_runner [], rc_Limit = 0\<rparr>"

lemma sample_reconciler_sel:
  "rc_Source sample_reconciler = Some (\<lambda>limit s. (Inr [sample_event], s))"
  "rc_Runner sample_reconciler = sample_runner []" "rc_Limit sample_reconciler = 0"
  by (simp_all add: sample_reconciler_def)

lemma sample_reconcile:
  "Handle (sample_runner []) sample_event s = (Inr h, s') \<Longrightarrow>
   \<exists>report. Reconcile sample_reconciler s = (Inr report, s') \<and> rr_Items report = [item_of sample_event (Inr h)]"
  by (simp add: Reconcile_def sample_reconciler_sel DefaultReconcileLimit_def reconcile_events_eq zero_report_def)

theorem reconcile_accounts_for_all_witness:
  "\<exists>s report s'. Reconcile sample_reconciler s = (Inr report, s') \<and> rr_Processed report = 1"
proof -
  obtain d0 h d1 where
    "Handle (sample_runner []) sample_event (d0, [Inr [3], Inr sample_raw], ()) = (Inr h, (d1, [], ()))"
    by (rule sample_handle)
  then obtain report where run: "Reconcile sample_reconciler (d0, [Inr [3], Inr sample_raw], ()) =
      (Inr report, (d1, [], ()))"
    using sample_reconcile by blast
  from reconcile_accounts_for_all [OF run] have "rr_Processed report = 1"
    by (auto simp: sample_reconciler_sel Let_def)
  with run show ?thesis by blast
qed

text \<open>
  C32. Replays are idempotent: when two reconciliations over the store, by any configurations and
  with any other runs in between, both report evidence for events of the same tenant and source,
  it is the same evidence, and the second pass has not created it.
\<close>

theorem reconcile_replay_idempotent:
  assumes "bolt_laws B" and "reachable B (fst s)" and "others B between1" and "others B between2"
    and "\<forall>r \<in> {rc_Runner c, rc_Runner c'}. steady (\<lambda>s s'. store_run B (fst s) (fst s')) r \<and>
      rn_Ingester r = Some (store_upload B between1 between2)"
    and "\<forall>f limit t evs t'. rc_Source c = Some f \<or> rc_Source c' = Some f \<longrightarrow> f limit t = (evs, t') \<longrightarrow>
      store_run B (fst t) (fst t')"
    and "Reconcile c s = (Inr report, s1)" and "i < length (rr_Items report)"
    and "store_run B (fst s1) (fst s2)"
    and "Reconcile c' s2 = (Inr report', s3)" and "j < length (rr_Items report')"
    and "it_EvidenceID (rr_Items report ! i) \<noteq> []" and "it_EvidenceID (rr_Items report' ! j) \<noteq> []"
    and "ev_Tenant (it_Event (rr_Items report' ! j)) = ev_Tenant (it_Event (rr_Items report ! i))"
    and "source_of_event (it_Event (rr_Items report' ! j)) = source_of_event (it_Event (rr_Items report ! i))"
  shows "it_EvidenceID (rr_Items report' ! j) = it_EvidenceID (rr_Items report ! i) \<and>
    \<not> it_Created (rr_Items report' ! j)"
proof -
  note contract = store_contract [OF assms(1,3,4)]
  note ok = bolt_laws.reachable_ok [OF assms(1,2)]
  have st: "steady (\<lambda>s s'. store_run B (fst s) (fst s')) (rc_Runner c)"
    "steady (\<lambda>s s'. store_run B (fst s) (fst s')) (rc_Runner c')"
    and up: "rn_Ingester (rc_Runner c) = Some (store_upload B between1 between2)"
    "rn_Ingester (rc_Runner c') = Some (store_upload B between1 between2)"
    using assms(5) by simp_all
  have src: "\<forall>f limit t evs t'. rc_Source c = Some f \<longrightarrow> f limit t = (evs, t') \<longrightarrow> store_run B (fst t) (fst t')"
    "\<forall>f limit t evs t'. rc_Source c' = Some f \<longrightarrow> f limit t = (evs, t') \<longrightarrow> store_run B (fst t) (fst t')"
    using assms(6) by blast+
  obtain u u' h where u: "store_run B (fst s) (fst u)" "store_run B (fst u') (fst s1)"
    "Handle (rc_Runner c) (it_Event (rr_Items report ! i)) u = (Inr h, u')" "\<not> hr_Skipped h"
    "it_EvidenceID (rr_Items report ! i) = hr_EvidenceID h"
    using document_ingester.reported_run [OF contract st(1) up(1) src(1) assms(7,8,12)] by metis
  obtain v v' h' where v: "store_run B (fst s2) (fst v)"
    "Handle (rc_Runner c') (it_Event (rr_Items report' ! j)) v = (Inr h', v')" "\<not> hr_Skipped h'"
    "it_EvidenceID (rr_Items report' ! j) = hr_EvidenceID h'" "it_Created (rr_Items report' ! j) = hr_Created h'"
    using document_ingester.reported_run [OF contract st(2) up(2) src(2) assms(10,11,13)] by metis
  have ok_u: "store_ok B (fst u)" using bolt_laws.store_run_ok [OF assms(1) u(1) ok] by blast
  have "store_run B (fst u') (fst v)" using run_trans [OF v(1) run_trans [OF assms(9) u(2)]] .
  from document_ingester.Handle_again [OF contract ok_u st up u(3,4) this v(2,3) assms(14,15)]
  show ?thesis using u(5) v(4,5) by simp
qed

theorem reconcile_replay_idempotent_witness:
  "\<exists>s s1 s2 report report'. Reconcile sample_reconciler s = (Inr report, s1) \<and>
     Reconcile sample_reconciler s1 = (Inr report', s2) \<and>
     it_EvidenceID (rr_Items report' ! 0) = it_EvidenceID (rr_Items report ! 0) \<and>
     it_EvidenceID (rr_Items report ! 0) \<noteq> [] \<and> \<not> it_Created (rr_Items report' ! 0)"
proof -
  obtain d0 h d1 h' where h: "reachable mem_bolt d0"
    "Handle (sample_runner []) sample_event (d0, [Inr [3], Inr sample_raw], ()) = (Inr h, (d1, [], ()))"
    "hr_EvidenceID h \<noteq> []"
    "Handle (sample_runner []) sample_event (d1, [], ()) = (Inr h', (d1, [], ()))" "hr_EvidenceID h' \<noteq> []"
    by (rule sample_handle)
  let ?s = "(d0, [Inr [3], Inr sample_raw], ())" and ?t = "(d1, [], ())"
  obtain report where r: "Reconcile sample_reconciler ?s = (Inr report, ?t)"
    "rr_Items report = [item_of sample_event (Inr h)]"
    using sample_reconcile [OF h(2)] by blast
  obtain report' where r': "Reconcile sample_reconciler ?t = (Inr report', ?t)"
    "rr_Items report' = [item_of sample_event (Inr h')]"
    using sample_reconcile [OF h(4)] by blast
  have ups: "rn_Ingester (sample_runner []) = Some (store_upload mem_bolt (\<lambda>d. d) (\<lambda>d. d))"
    by (simp add: sample_runner_def)
  have "it_EvidenceID (rr_Items report' ! 0) = it_EvidenceID (rr_Items report ! 0) \<and>
      \<not> it_Created (rr_Items report' ! 0)"
    by (rule reconcile_replay_idempotent [OF memory.bolt_laws_axioms _ others_id others_id _ _ r(1) _ _ r'(1)])
      (use h sample_runner_steady ups in \<open>auto simp: r(2) r'(2) sample_reconciler_sel item_of_def run_nil\<close>)
  moreover have "it_EvidenceID (rr_Items report ! 0) \<noteq> []" using h by (simp add: r(2) item_of_def)
  ultimately show ?thesis using r(1) r'(1) by blast
qed

end
