(* ===== verification/Go_Http.thy ===== *)
theory Go_Http
  imports Go_Json_Values Go_Strings
begin

text \<open>
  What the program uses of \<^verbatim>\<open>net/http\<close> and the packages around it: requests and responses,
  \<^verbatim>\<open>mime.ParseMediaType\<close>, \<^verbatim>\<open>http.MaxBytesReader\<close>, \<^verbatim>\<open>json.Decoder\<close> with
  \<^verbatim>\<open>DisallowUnknownFields\<close>, \<^verbatim>\<open>strings.ToLower\<close> as far as it is compared with ASCII words,
  \<^verbatim>\<open>strconv.Atoi\<close> and the strict form of \<^verbatim>\<open>base64.StdEncoding\<close>.
\<close>

section \<open>Requests and responses\<close>

text \<open>
  A request as a handler sees it: the method, the segments of the path, already cleaned and
  unescaped by the server, \<^verbatim>\<open>r.URL.Query().Get\<close> and \<^verbatim>\<open>r.Header.Get\<close> as functions, the body.
  A response is what has been written.
\<close>

record http_request =
  rq_Method :: gostring
  rq_Path :: "gostring list"
  rq_Query :: "gostring \<Rightarrow> gostring"
  rq_Header :: "gostring \<Rightarrow> gostring"
  rq_Body :: reader

record http_response =
  rs_Status :: nat
  rs_Header :: "(gostring \<times> gostring) list"
  rs_Body :: bytes

section \<open>Lower case\<close>

text \<open>
  \<^verbatim>\<open>strings.ToLower\<close> for comparison with ASCII strings: of the other runes only the capital I
  with dot (U+0130) and the Kelvin sign (U+212A) have a lower case in ASCII, and the others, here
  left as they are, do not become ASCII.
\<close>

function ascii_lower :: "gostring \<Rightarrow> gostring" where
  "ascii_lower [] = []"
| "ascii_lower (c # cs) =
     (if 65 \<le> c \<and> c \<le> 90 then (c + 32) # ascii_lower cs
      else if take 2 (c # cs) = [0xC4, 0xB0] then 105 # ascii_lower (drop 2 (c # cs))
      else if take 3 (c # cs) = [0xE2, 0x84, 0xAA] then 107 # ascii_lower (drop 3 (c # cs))
      else c # ascii_lower cs)"
  by pat_completeness auto
termination
  by (relation "measure length") simp_all

declare ascii_lower.simps(2) [simp del]

section \<open>Media types\<close>

text \<open>\<^verbatim>\<open>mime.ParseMediaType\<close>: tokens, parameter values, parameters.\<close>

definition is_tspecial :: "u8 \<Rightarrow> bool" where
  "is_tspecial c \<longleftrightarrow> c \<in> set (ascii ''()<>@,;:'' @ [92, 34] @ ascii ''/[]?='')"

definition is_token_char :: "u8 \<Rightarrow> bool" where
  "is_token_char c \<longleftrightarrow> 32 < c \<and> c < 127 \<and> \<not> is_tspecial c"

definition consume_token :: "gostring \<Rightarrow> gostring \<times> gostring" where
  "consume_token v = (takeWhile is_token_char v, dropWhile is_token_char v)"

text \<open>The part of a quoted string after the opening quote; \<open>None\<close> where Go returns the empty value.\<close>

fun consume_quoted :: "gostring \<Rightarrow> (gostring \<times> gostring) option" where
  "consume_quoted [] = None"
| "consume_quoted (c # cs) =
     (if c = 34 then Some ([], cs)
      else if c = 92 \<and> cs \<noteq> [] \<and> is_tspecial (hd cs) then
        map_option (apfst ((#) (hd cs))) (consume_quoted (tl cs))
      else if c = 13 \<or> c = 10 then None
      else map_option (apfst ((#) c)) (consume_quoted cs))"

definition consume_value :: "gostring \<Rightarrow> gostring \<times> gostring" where
  "consume_value v =
     (case v of [] \<Rightarrow> ([], [])
      | c # cs \<Rightarrow> if c \<noteq> 34 then consume_token v
          else case consume_quoted cs of Some r \<Rightarrow> r | None \<Rightarrow> ([], v))"

abbreviation trim_left :: "gostring \<Rightarrow> gostring" where
  "trim_left \<equiv> strip_words space_runes"

text \<open>One parameter, \<open>None\<close> where Go returns an empty name.\<close>

definition consume_media_param :: "gostring \<Rightarrow> (gostring \<times> gostring \<times> gostring) option" where
  "consume_media_param v =
     (case trim_left v of [] \<Rightarrow> None | c # r \<Rightarrow>
        if c \<noteq> 59 then None
        else let (param, r) = consume_token (trim_left r) in
          if param = [] then None
          else case trim_left r of [] \<Rightarrow> None | e # r \<Rightarrow>
            if e \<noteq> 61 then None
            else let r = trim_left r; (value, rest) = consume_value r in
              if value = [] \<and> rest = r then None
              else Some (ascii_lower param, value, rest))"

lemma strip_words_length: "length (strip_words ws s) \<le> length s"
proof (induction ws s rule: strip_words.induct)
  case (1 ws s)
  show ?case
  proof (cases "find (\<lambda>w. w \<noteq> [] \<and> take (length w) s = w) ws")
    case None
    then show ?thesis by (simp add: strip_words.simps [of ws s])
  next
    case (Some w)
    with 1 [OF Some] show ?thesis by (simp add: strip_words.simps [of ws s])
  qed
qed

lemma consume_quoted_length: "consume_quoted s = Some (v, r) \<Longrightarrow> length r < length s"
proof (induction s arbitrary: v rule: consume_quoted.induct)
  case (2 c cs)
  show ?case
  proof (cases "c = 92 \<and> cs \<noteq> [] \<and> is_tspecial (hd cs)")
    case True
    then show ?thesis using 2 by (cases cs) (auto split: if_splits)
  next
    case False
    then show ?thesis using 2 by (auto split: if_splits)
  qed
qed simp

lemma consume_value_length: "consume_value s = (v, r) \<Longrightarrow> length r \<le> length s"
  by (auto simp: consume_value_def consume_token_def le_SucI length_dropWhile_le
      dest: consume_quoted_length split: list.splits if_splits option.splits)

lemma consume_media_param_length:
  assumes "consume_media_param v = Some (k, w, r)"
  shows "length r < length v"
proof -
  obtain r1 where r1: "trim_left v = 59 # r1"
    using assms by (auto simp: consume_media_param_def split: list.splits if_splits)
  let ?r2 = "dropWhile is_token_char (trim_left r1)"
  obtain r3 where r3: "trim_left ?r2 = 61 # r3" "consume_value (trim_left r3) = (w, r)"
    using assms r1
    by (auto simp: consume_media_param_def consume_token_def Let_def split: list.splits if_splits prod.splits)
  have "length r \<le> length r3"
    using consume_value_length [OF r3(2)] strip_words_length [of space_runes r3] by simp
  moreover have "length r3 < length ?r2" using strip_words_length [of space_runes ?r2] r3(1) by simp
  moreover have "length ?r2 \<le> length (trim_left r1)" by (rule length_dropWhile_le)
  moreover have "length (trim_left r1) \<le> length r1" by (rule strip_words_length)
  moreover have "length r1 < length v" using strip_words_length [of space_runes v] r1 by simp
  ultimately show ?thesis by linarith
qed

text \<open>Whether the parameters are well formed; \<open>seen\<close> holds those already read.\<close>

function media_params_ok :: "(gostring \<times> gostring) list \<Rightarrow> gostring \<Rightarrow> bool" where
  "media_params_ok seen v =
     (let v = trim_left v in
      v = [] \<or>
      (case consume_media_param v of
         None \<Rightarrow> trim_space v = [59]
       | Some (key, value, rest) \<Rightarrow>
           list_all (\<lambda>(k, w). k = key \<longrightarrow> w = value) seen \<and> media_params_ok ((key, value) # seen) rest))"
  by pat_completeness auto
termination
proof (relation "measure (\<lambda>(seen, v). length v)", goal_cases)
  case (2 seen v v' p key y val rest)
  then have "length rest < length v'" by (auto dest: consume_media_param_length)
  also have "length v' \<le> length v" using 2 strip_words_length [of space_runes v] by simp
  finally show ?case by simp
qed simp

declare media_params_ok.simps [simp del]

definition check_media_type :: "gostring \<Rightarrow> bool" where
  "check_media_type s =
     (let (typ, rest) = consume_token s in
      typ \<noteq> [] \<and>
      (rest = [] \<or>
       hd rest = 47 \<and> (let (subtype, rest) = consume_token (tl rest) in subtype \<noteq> [] \<and> rest = [])))"

definition ParseMediaType :: "gostring \<Rightarrow> gostring option" where
  "ParseMediaType v =
     (let base = takeWhile (\<lambda>c. c \<noteq> 59) v; mediatype = trim_space (ascii_lower base) in
      if check_media_type mediatype \<and> media_params_ok [] (drop (length base) v)
      then Some mediatype else None)"

lemma ParseMediaType_json: "ParseMediaType (ascii ''application/json'') = Some (ascii ''application/json'')"
  by code_simp

section \<open>Bodies\<close>

text \<open>\<^verbatim>\<open>http.MaxBytesReader\<close> and \<^verbatim>\<open>io.ReadAll\<close>.\<close>

definition max_bytes_reader :: "reader \<Rightarrow> i64 \<Rightarrow> reader" where
  "max_bytes_reader r n =
     (let lim = nat (sint n) in
      if lim < length (content r)
      then \<lparr>content = take lim (content r), ending = Fail_with (New ''http: request body too large'')\<rparr>
      else r)"

definition read_all :: "reader \<Rightarrow> bytes result" where
  "read_all r =
     (case ending r of Eof \<Rightarrow> Inr (content r) | Fail_after e \<Rightarrow> Inl e | Fail_with e \<Rightarrow> Inl e)"

lemma read_all_Inr: "read_all r = Inr bs \<longleftrightarrow> ending r = Eof \<and> bs = content r"
  by (auto simp: read_all_def split: ending.splits)

lemma max_bytes_reader_Eof:
  "ending (max_bytes_reader r n) = Eof \<longleftrightarrow> ending r = Eof \<and> length (content r) \<le> nat (sint n)"
  "ending (max_bytes_reader r n) = Eof \<Longrightarrow> max_bytes_reader r n = r"
  by (auto simp: max_bytes_reader_def Let_def)

text \<open>
  \<^verbatim>\<open>json.Decoder.Decode\<close> on a fresh decoder: the value and what follows it. An object or array
  ends by itself; for any other value the decoder needs one more byte or the end of the input.
\<close>

definition self_delimiting :: "json \<Rightarrow> bool" where
  "self_delimiting j = (case j of JArray _ \<Rightarrow> True | JObject _ \<Rightarrow> True | _ \<Rightarrow> False)"

definition decode_first :: "(json \<Rightarrow> 'a option) \<Rightarrow> reader \<Rightarrow> ('a \<times> bytes) option" where
  "decode_first dec r =
     (case parse_value (2 * length (content r) + 1) max_nesting (content r) of
        None \<Rightarrow> None
      | Some (v, rest) \<Rightarrow>
          if rest = [] \<and> ending r \<noteq> Eof \<and> \<not> self_delimiting v then None
          else map_option (\<lambda>x. (x, rest)) (dec v))"

text \<open>Whether a further \<^verbatim>\<open>Decode\<close> returns \<^verbatim>\<open>io.EOF\<close>.\<close>

definition decode_ends :: "bytes \<Rightarrow> reader \<Rightarrow> bool" where
  "decode_ends rest r \<longleftrightarrow> skip_ws rest = [] \<and> ending r = Eof"

text \<open>The two together accept exactly a body that is one JSON value.\<close>

lemma decode_first_ends:
  "decode_first dec r = Some (x, rest) \<and> decode_ends rest r \<longleftrightarrow>
     ending r = Eof \<and> (\<exists>v. parse_value (2 * length (content r) + 1) max_nesting (content r) = Some (v, rest) \<and>
       skip_ws rest = [] \<and> json_parse (content r) = Some v \<and> dec v = Some x)"
  by (auto simp: decode_first_def decode_ends_def json_parse_def split: option.splits if_splits)

lemma decode_body:
  "(\<exists>rest. decode_first dec r = Some (x, rest) \<and> decode_ends rest r) \<longleftrightarrow>
     ending r = Eof \<and> Option.bind (json_parse (content r)) dec = Some x"
  by (auto simp: decode_first_def decode_ends_def json_parse_def split: option.splits if_splits)

text \<open>A struct under \<^verbatim>\<open>DisallowUnknownFields\<close>: a member of no field is an error.\<close>

definition dec_member_strict :: "'a field_decoder list \<Rightarrow> 'a \<Rightarrow> bytes \<times> json \<Rightarrow> 'a option" where
  "dec_member_strict fds x = (\<lambda>(k, v).
     case find (\<lambda>(name, f). fold_name name = fold_name k) fds of
       None \<Rightarrow> None
     | Some (name, f) \<Rightarrow> f x v)"

fun dec_members_strict :: "'a field_decoder list \<Rightarrow> 'a \<Rightarrow> (bytes \<times> json) list \<Rightarrow> 'a option" where
  "dec_members_strict fds x [] = Some x"
| "dec_members_strict fds x (m # ms) =
     (case dec_member_strict fds x m of None \<Rightarrow> None | Some y \<Rightarrow> dec_members_strict fds y ms)"

definition dec_struct_strict :: "'a field_decoder list \<Rightarrow> 'a \<Rightarrow> json \<Rightarrow> 'a option" where
  "dec_struct_strict fds x j =
     (case j of JNull \<Rightarrow> Some x | JObject ms \<Rightarrow> dec_members_strict fds x ms | _ \<Rightarrow> None)"

lemma dec_struct_strict_JObject [simp]:
  "dec_struct_strict fds x (JObject ms) = dec_members_strict fds x ms"
  by (simp add: dec_struct_strict_def)

lemma dec_member_strict_field [simp]:
  "dec_member_strict ((name, f) # fds) x (name, v) = f x v"
  by (simp add: dec_member_strict_def)

lemma dec_member_strict_other [simp]:
  "fold_name name \<noteq> fold_name k \<Longrightarrow>
   dec_member_strict ((name, f) # fds) x (k, v) = dec_member_strict fds x (k, v)"
  by (simp add: dec_member_strict_def)

text \<open>What is accepted has known members only.\<close>

lemma dec_members_strict_known:
  "dec_members_strict fds x ms = Some y \<Longrightarrow>
   \<forall>(k, v) \<in> set ms. fold_name k \<in> fold_name ` fst ` set fds"
proof (induction ms arbitrary: x)
  case (Cons m ms)
  obtain k v where m: "m = (k, v)" by (cases m)
  obtain z where z: "dec_member_strict fds x (k, v) = Some z" "dec_members_strict fds z ms = Some y"
    using Cons.prems by (auto simp: m split: option.splits)
  then obtain fd where "find (\<lambda>(name, f). fold_name name = fold_name k) fds = Some fd"
    by (auto simp: dec_member_strict_def split: option.splits)
  then have "fd \<in> set fds" "fold_name (fst fd) = fold_name k"
    by (auto simp: find_Some_iff) (metis nth_mem)
  then have "fold_name k \<in> fold_name ` fst ` set fds" by (metis imageI)
  then show ?case using Cons.IH [OF z(2)] by (simp add: m)
qed simp

text \<open>
  A slice of strings decoded into a slice that a previous member of the same name has filled: a
  null element keeps the old one.
\<close>

definition dec_strings_over :: "bytes list \<Rightarrow> json \<Rightarrow> bytes list option" where
  "dec_strings_over old j =
     (case j of JNull \<Rightarrow> Some []
      | JArray vs \<Rightarrow>
          those_map (\<lambda>(prev, v). dec_string prev v) (zip (take (length vs) (old @ replicate (length vs) [])) vs)
      | _ \<Rightarrow> None)"

section \<open>Numbers and base64\<close>

text \<open>\<^verbatim>\<open>strconv.Atoi\<close>: decimal digits with an optional sign, within an \<^verbatim>\<open>int64\<close>.\<close>

definition atoi :: "gostring \<Rightarrow> int option" where
  "atoi s =
     (let (neg, ds) = (case s of [] \<Rightarrow> (False, s)
        | c # r \<Rightarrow> if c = 45 then (True, r) else if c = 43 then (False, r) else (False, s)) in
      case parse_uint ds of
        None \<Rightarrow> None
      | Some n \<Rightarrow> let i = (if neg then - int n else int n) in
          if - (2 ^ 63) \<le> i \<and> i < 2 ^ 63 then Some i else None)"

text \<open>
  \<^verbatim>\<open>base64.StdEncoding.Strict().DecodeString\<close>: line ends are skipped, and the unused bits of the
  last character must be zero, that is, the text must be the one that encodes the result.
\<close>

definition b64_decode_strict :: "gostring \<Rightarrow> bytes option" where
  "b64_decode_strict s =
     (let t = filter (\<lambda>c. c \<noteq> 10 \<and> c \<noteq> 13) s in
      case b64_decode t of
        None \<Rightarrow> None
      | Some bs \<Rightarrow> if b64_encode bs = t then Some bs else None)"

lemma b64_decode_strict_iff:
  "b64_decode_strict s = Some bs \<longleftrightarrow> filter (\<lambda>c. c \<noteq> 10 \<and> c \<noteq> 13) s = b64_encode bs"
proof
  assume "filter (\<lambda>c. c \<noteq> 10 \<and> c \<noteq> 13) s = b64_encode bs"
  then show "b64_decode_strict s = Some bs" by (simp add: b64_decode_strict_def)
qed (auto simp: b64_decode_strict_def Let_def split: option.splits if_splits)

lemma b64_decode_strict_encode [simp]: "b64_decode_strict (b64_encode bs) = Some bs"
proof -
  have "filter (\<lambda>c. c \<noteq> 10 \<and> c \<noteq> 13) (b64_encode bs) = b64_encode bs"
    using b64_encode_ascii [of bs] by (simp add: filter_id_conv)
  then show ?thesis by (simp add: b64_decode_strict_iff)
qed

end
