(* ===== verification/Server.thy ===== *)
theory Server
  imports Go_Http Storage_Uploader
begin

text \<open>
  The HTTP server (\<^verbatim>\<open>internal/server/server.go\<close>): its handlers over the interface \<^verbatim>\<open>engine\<close>, a
  record of operations on a state \<open>'s\<close>, and the engine that the store is (\<open>store_engine\<close>). A
  handler maps a request and a state to the response written and the state after it. Routing is
  that of \<^verbatim>\<open>http.ServeMux\<close> on the segments of the path.
\<close>

section \<open>Limits and the engine\<close>

definition maxJSONBytes :: i64 where
  "maxJSONBytes = push_bit 20 96"

definition maxDocumentBytes :: i64 where
  "maxDocumentBytes = push_bit 20 64"

record 's engine =
  en_IngestDocument :: "document_request \<Rightarrow> 's \<Rightarrow> (evidence \<times> bool) result \<times> 's"
  en_Evidence :: "gostring \<Rightarrow> gostring \<Rightarrow> 's \<Rightarrow> evidence result"
  en_Batch :: "gostring \<Rightarrow> gostring \<Rightarrow> 's \<Rightarrow> frozen_batch result"
  en_Freeze :: "gostring \<Rightarrow> gostring \<Rightarrow> int \<Rightarrow> 's \<Rightarrow> frozen_batch result \<times> 's"
  en_Outbox :: "gostring \<Rightarrow> int \<Rightarrow> 's \<Rightarrow> submission list result"
  en_UnanchoredPackage :: "gostring \<Rightarrow> gostring \<Rightarrow> 's \<Rightarrow> package result"

type_synonym 's handler = "http_request \<Rightarrow> 's \<Rightarrow> http_response \<times> 's"

section \<open>Responses\<close>

text \<open>The header and the text that \<^verbatim>\<open>json.Encoder\<close> writes.\<close>

definition writeJSON :: "nat \<Rightarrow> json \<Rightarrow> http_response" where
  "writeJSON status j = \<lparr>rs_Status = status,
     rs_Header = [(ascii ''Content-Type'', ascii ''application/json'')], rs_Body = json_text j @ [10]\<rparr>"

abbreviation member :: "string \<Rightarrow> json \<Rightarrow> bytes \<times> json" where
  "member name j \<equiv> (ascii name, j)"

abbreviation text_json :: "string \<Rightarrow> json" where
  "text_json s \<equiv> JString (ascii s)"

definition errorJSON :: "nat \<Rightarrow> string \<Rightarrow> string \<Rightarrow> http_response" where
  "errorJSON status code message =
     writeJSON status (JObject [member ''error'' (text_json code), member ''message'' (text_json message)])"

definition requireMethod :: "string \<Rightarrow> 's handler \<Rightarrow> 's handler" where
  "requireMethod method next rq s =
     (if rq_Method rq \<noteq> ascii method then
        let rs = errorJSON 405 ''method_not_allowed'' ''method is not allowed for this endpoint''
        in (rs\<lparr>rs_Header := (ascii ''Allow'', ascii method) # rs_Header rs\<rparr>, s)
      else next rq s)"

definition writeStorageError :: "go_error \<Rightarrow> http_response" where
  "writeStorageError err =
     (if errors_is err ErrInvalid then
        errorJSON 400 ''invalid_request'' ''request violates input limits or required fields''
      else if errors_is err ErrConflict then
        errorJSON 409 ''conflict''
          ''idempotency key, source version or batch request conflicts with existing evidence''
      else if errors_is err ErrNotFound then
        errorJSON 404 ''not_found'' ''record was not found for this tenant''
      else if errors_is err ErrNotBatched then
        errorJSON 409 ''not_batched'' ''evidence has no frozen batch yet''
      else if errors_is err ErrEmpty then
        errorJSON 409 ''no_pending_evidence'' ''tenant has no pending evidence to freeze''
      else errorJSON 500 ''internal_error'' ''evidence engine failed closed'')"

definition emptyNil :: "gostring \<Rightarrow> json" where
  "emptyNil value = (if value = [] then JNull else JString value)"

definition batchIndex :: "evidence \<Rightarrow> json" where
  "batchIndex record = (if e_BatchID record = [] then JNull else uint_json (e_Index record))"

definition batchState :: "gostring \<Rightarrow> string" where
  "batchState submissionState =
     (if submissionState = SubmissionSubmitted then ''submitted'' else ''pending_submission'')"

definition anchorStatus :: "gostring \<Rightarrow> string" where
  "anchorStatus submissionState =
     (if submissionState = SubmissionUnknown then ''unknown''
      else if submissionState = SubmissionSubmitted then ''submitted''
      else ''not_submitted'')"

text \<open>The members of a map are written in the order of their keys.\<close>

definition batchResponse :: "frozen_batch \<Rightarrow> json" where
  "batchResponse b = JObject
     [member ''anchor_status'' (text_json (anchorStatus (f_SubmissionState b))),
      member ''batch_id'' (JString (f_ID b)),
      member ''evidence_ids'' (strings_json (f_EvidenceIDs b)),
      member ''limit'' (int_json (f_Limit b)),
      member ''manifest_hex'' (JString (hex_encode (f_Manifest b))),
      member ''member_count'' (int_json (int (length (f_EvidenceIDs b)))),
      member ''reference'' (emptyNil (f_SubmissionRef b)),
      member ''state'' (text_json (batchState (f_SubmissionState b)))]"

section \<open>Requests\<close>

text \<open>A fresh decoder reads the bounded body; \<open>dec\<close> is what it makes of the value.\<close>

definition readJSON :: "(json \<Rightarrow> 'a option) \<Rightarrow> http_request \<Rightarrow> http_response + 'a" where
  "readJSON dec rq =
     (if ParseMediaType (rq_Header rq (ascii ''Content-Type'')) \<noteq> Some (ascii ''application/json'')
      then Inl (errorJSON 415 ''unsupported_media_type'' ''content type must be application/json'')
      else
        let body = max_bytes_reader (rq_Body rq) maxJSONBytes in
        case decode_first dec body of
          None \<Rightarrow> Inl (errorJSON 400 ''invalid_json'' ''request body must be bounded JSON with known fields'')
        | Some (target, rest) \<Rightarrow>
            if \<not> decode_ends rest body
            then Inl (errorJSON 400 ''invalid_json'' ''request body must contain one JSON value'')
            else Inr target)"

definition queryLimit :: "http_request \<Rightarrow> int \<Rightarrow> http_response + int" where
  "queryLimit rq fallback =
     (let value = rq_Query rq (ascii ''limit'') in
      if value = [] then Inr fallback
      else case atoi value of
          None \<Rightarrow> Inl (errorJSON 400 ''invalid_request'' ''limit is outside the accepted range'')
        | Some limit \<Rightarrow>
            if limit < 1 \<or> MaxBatchEntries < limit \<or> limit = 2 ^ 63 - 1
            then Inl (errorJSON 400 ''invalid_request'' ''limit is outside the accepted range'')
            else Inr limit)"

definition server_representation :: "gostring \<Rightarrow> u8 \<times> bool" where
  "server_representation value =
     (if ascii_lower value = ascii ''original'' then (Original, True)
      else if ascii_lower value = ascii ''derived'' then (Derived, True)
      else (0, False))"

definition representationName :: "u8 \<Rightarrow> string" where
  "representationName value =
     (if value = Original then ''original'' else if value = Derived then ''derived'' else ''unsupported'')"

record sourceJSON =
  sj_Instance :: gostring
  sj_Object :: gostring
  sj_Version :: gostring

record ingestRequest =
  ir_Tenant :: gostring
  ir_IdempotencyKey :: gostring
  ir_Source :: sourceJSON
  ir_Representation :: gostring
  ir_DocumentBase64 :: gostring

record freezeRequest =
  fz_Tenant :: gostring
  fz_RequestKey :: gostring
  fz_Limit :: int

definition sourceJSON_fields :: "sourceJSON field_decoder list" where
  "sourceJSON_fields =
     [(ascii ''instance'', \<lambda>x j. map_option (\<lambda>v. x\<lparr>sj_Instance := v\<rparr>) (dec_string (sj_Instance x) j)),
      (ascii ''object'', \<lambda>x j. map_option (\<lambda>v. x\<lparr>sj_Object := v\<rparr>) (dec_string (sj_Object x) j)),
      (ascii ''version'', \<lambda>x j. map_option (\<lambda>v. x\<lparr>sj_Version := v\<rparr>) (dec_string (sj_Version x) j))]"

definition ingestRequest_fields :: "ingestRequest field_decoder list" where
  "ingestRequest_fields =
     [(ascii ''tenant'', \<lambda>x j. map_option (\<lambda>v. x\<lparr>ir_Tenant := v\<rparr>) (dec_string (ir_Tenant x) j)),
      (ascii ''idempotency_key'',
        \<lambda>x j. map_option (\<lambda>v. x\<lparr>ir_IdempotencyKey := v\<rparr>) (dec_string (ir_IdempotencyKey x) j)),
      (ascii ''source'',
        \<lambda>x j. map_option (\<lambda>v. x\<lparr>ir_Source := v\<rparr>) (dec_struct_strict sourceJSON_fields (ir_Source x) j)),
      (ascii ''representation'',
        \<lambda>x j. map_option (\<lambda>v. x\<lparr>ir_Representation := v\<rparr>) (dec_string (ir_Representation x) j)),
      (ascii ''document_base64'',
        \<lambda>x j. map_option (\<lambda>v. x\<lparr>ir_DocumentBase64 := v\<rparr>) (dec_string (ir_DocumentBase64 x) j))]"

definition freezeRequest_fields :: "freezeRequest field_decoder list" where
  "freezeRequest_fields =
     [(ascii ''tenant'', \<lambda>x j. map_option (\<lambda>v. x\<lparr>fz_Tenant := v\<rparr>) (dec_string (fz_Tenant x) j)),
      (ascii ''request_key'',
        \<lambda>x j. map_option (\<lambda>v. x\<lparr>fz_RequestKey := v\<rparr>) (dec_string (fz_RequestKey x) j)),
      (ascii ''limit'', \<lambda>x j. map_option (\<lambda>v. x\<lparr>fz_Limit := v\<rparr>) (dec_int (fz_Limit x) j))]"

definition zero_ingestRequest :: ingestRequest where
  "zero_ingestRequest = \<lparr>ir_Tenant = [], ir_IdempotencyKey = [],
     ir_Source = \<lparr>sj_Instance = [], sj_Object = [], sj_Version = []\<rparr>,
     ir_Representation = [], ir_DocumentBase64 = []\<rparr>"

definition zero_freezeRequest :: freezeRequest where
  "zero_freezeRequest = \<lparr>fz_Tenant = [], fz_RequestKey = [], fz_Limit = 0\<rparr>"

section \<open>Handlers\<close>

definition ingest_handler :: "'s engine \<Rightarrow> 's handler" where
  "ingest_handler e rq s =
     (case readJSON (dec_struct_strict ingestRequest_fields zero_ingestRequest) rq of
        Inl rs \<Rightarrow> (rs, s)
      | Inr req \<Rightarrow>
          let (rep, ok) = server_representation (ir_Representation req) in
          if \<not> ok then
            (errorJSON 400 ''invalid_request'' ''representation must be original or derived'', s)
          else case b64_decode_strict (ir_DocumentBase64 req) of
              None \<Rightarrow> (errorJSON 400 ''invalid_request''
                ''document_base64 is invalid or exceeds the byte limit'', s)
            | Some document \<Rightarrow>
                if sint maxDocumentBytes < int (length document) then
                  (errorJSON 400 ''invalid_request''
                    ''document_base64 is invalid or exceeds the byte limit'', s)
                else (case en_IngestDocument e
                    \<lparr>d_Tenant = ir_Tenant req, d_Key = ir_IdempotencyKey req,
                     d_Source = \<lparr>s_Instance = sj_Instance (ir_Source req),
                       s_Object = sj_Object (ir_Source req), s_Version = sj_Version (ir_Source req)\<rparr>,
                     d_Representation = rep, d_Document = Some (bytes_reader document),
                     d_MaxBytes = maxDocumentBytes\<rparr> s of
                  (Inl err, s) \<Rightarrow> (writeStorageError err, s)
                | (Inr (evidence, created), s) \<Rightarrow>
                    (writeJSON (if created then 201 else 200) (JObject
                      [member ''batch_id'' (emptyNil (e_BatchID evidence)),
                       member ''created'' (JBool created),
                       member ''evidence_id'' (JString (e_ID evidence)),
                       member ''sequence'' (uint_json (e_Sequence evidence))]), s)))"

definition freeze_handler :: "'s engine \<Rightarrow> 's handler" where
  "freeze_handler e rq s =
     (case readJSON (dec_struct_strict freezeRequest_fields zero_freezeRequest) rq of
        Inl rs \<Rightarrow> (rs, s)
      | Inr req \<Rightarrow>
          (case en_Freeze e (fz_Tenant req) (fz_RequestKey req) (fz_Limit req) s of
             (Inl err, s) \<Rightarrow> (writeStorageError err, s)
           | (Inr b, s) \<Rightarrow> (writeJSON 201 (batchResponse b), s)))"

definition batchStatus :: "'s engine \<Rightarrow> gostring \<Rightarrow> 's handler" where
  "batchStatus e ident rq s =
     ((case en_Batch e (rq_Query rq (ascii ''tenant'')) ident s of
         Inl err \<Rightarrow> writeStorageError err
       | Inr b \<Rightarrow> writeJSON 200 (batchResponse b)), s)"

definition submission_item :: "submission \<Rightarrow> json" where
  "submission_item x = JObject
     [member ''batch_id'' (JString (o_BatchID x)),
      member ''manifest_hex'' (JString (hex_encode (o_Manifest x))),
      member ''state'' (text_json (batchState (o_State x))),
      member ''anchor_status'' (text_json (anchorStatus (o_State x))),
      member ''reference'' (emptyNil (o_Ref x))]"

definition outbox_handler :: "'s engine \<Rightarrow> 's handler" where
  "outbox_handler e rq s =
     ((case queryLimit rq MaxBatchEntries of
         Inl rs \<Rightarrow> rs
       | Inr limit \<Rightarrow>
           (case en_Outbox e (rq_Query rq (ascii ''tenant'')) limit s of
              Inl err \<Rightarrow> writeStorageError err
            | Inr items \<Rightarrow>
                writeJSON 200 (JObject [member ''submissions'' (JArray (map submission_item items))]))), s)"

definition evidenceStatus :: "'s engine \<Rightarrow> gostring \<Rightarrow> 's handler" where
  "evidenceStatus e ident rq s =
     ((case en_Evidence e (rq_Query rq (ascii ''tenant'')) ident s of
         Inl err \<Rightarrow> writeStorageError err
       | Inr record \<Rightarrow>
           let state = (if e_BatchID record \<noteq> [] then ''pending_submission'' else ''pending_batch'') in
           writeJSON 200 (JObject
             [member ''batch_id'' (emptyNil (e_BatchID record)),
              member ''batch_index'' (batchIndex record),
              member ''evidence_id'' (JString (e_ID record)),
              member ''representation'' (text_json (representationName (w_Representation (e_Witness record)))),
              member ''sequence'' (uint_json (e_Sequence record)),
              member ''source'' (JObject
                [member ''instance'' (JString (s_Instance (e_Source record))),
                 member ''object'' (JString (s_Object (e_Source record))),
                 member ''version'' (JString (s_Version (e_Source record)))]),
              member ''state'' (text_json state)])), s)"

definition packageExport :: "'s engine \<Rightarrow> gostring \<Rightarrow> 's handler" where
  "packageExport e ident rq s =
     ((case bindE (en_UnanchoredPackage e (rq_Query rq (ascii ''tenant'')) ident s) MarshalBinary_package of
         Inl err \<Rightarrow> writeStorageError err
       | Inr data \<Rightarrow>
           \<lparr>rs_Status = 200,
            rs_Header = [(ascii ''Content-Type'', ascii ''application/vnd.sigmaproof''),
              (ascii ''Cache-Control'', ascii ''no-store'')],
            rs_Body = data\<rparr>), s)"

text \<open>
  The routes; a literal segment has precedence over the wildcard \<^verbatim>\<open>{id}\<close>, which matches one
  non-empty segment.
\<close>

definition handlerWithEngine :: "'s engine \<Rightarrow> 's handler" where
  "handlerWithEngine e rq s =
     (let p = rq_Path rq; v1 = ascii ''v1''; batches = ascii ''batches''; evidence = ascii ''evidence'' in
      if p = [ascii ''healthz''] then
        requireMethod ''GET'' (\<lambda>rq s. (writeJSON 200 (JObject [member ''status'' (text_json ''alive'')]), s)) rq s
      else if p = [ascii ''readyz''] then
        requireMethod ''GET'' (\<lambda>rq s. (writeJSON 200 (JObject [member ''status'' (text_json ''ready'')]), s)) rq s
      else if p = [v1, ascii ''ingest''] then requireMethod ''POST'' (ingest_handler e) rq s
      else if p = [v1, batches, ascii ''freeze''] then requireMethod ''POST'' (freeze_handler e) rq s
      else if length p = 3 \<and> take 2 p = [v1, batches] \<and> p ! 2 \<noteq> [] then
        requireMethod ''GET'' (batchStatus e (p ! 2)) rq s
      else if p = [v1, ascii ''outbox''] then requireMethod ''GET'' (outbox_handler e) rq s
      else if length p = 3 \<and> take 2 p = [v1, evidence] \<and> p ! 2 \<noteq> [] then
        requireMethod ''GET'' (evidenceStatus e (p ! 2)) rq s
      else if length p = 4 \<and> take 2 p = [v1, evidence] \<and> p ! 2 \<noteq> [] \<and> p ! 3 = ascii ''package'' then
        requireMethod ''GET'' (packageExport e (p ! 2)) rq s
      else (errorJSON 404 ''not_found'' ''endpoint was not found'', s))"

text \<open>
  \<^verbatim>\<open>Handler\<close>, the skeleton without an engine, whose routes are for \<^verbatim>\<open>GET\<close>: the multiplexer takes
  \<^verbatim>\<open>HEAD\<close> for them too, and answers other methods and paths itself.
\<close>

definition mux_error :: "nat \<Rightarrow> (gostring \<times> gostring) list \<Rightarrow> string \<Rightarrow> http_response" where
  "mux_error status headers message = \<lparr>rs_Status = status,
     rs_Header = headers @ [(ascii ''Content-Type'', ascii ''text/plain; charset=utf-8''),
       (ascii ''X-Content-Type-Options'', ascii ''nosniff'')],
     rs_Body = ascii message @ [10]\<rparr>"

definition Handler :: "http_request \<Rightarrow> http_response" where
  "Handler rq =
     (if rq_Path rq \<noteq> [ascii ''healthz''] \<and> rq_Path rq \<noteq> [ascii ''readyz''] then
        mux_error 404 [] ''404 page not found''
      else if rq_Method rq \<noteq> ascii ''GET'' \<and> rq_Method rq \<noteq> ascii ''HEAD'' then
        mux_error 405 [(ascii ''Allow'', ascii ''GET, HEAD'')] ''Method Not Allowed''
      else if rq_Path rq = [ascii ''healthz''] then
        writeJSON 200 (JObject [member ''status'' (text_json ''alive'')])
      else writeJSON 503 (JObject [member ''status'' (text_json ''unavailable''),
        member ''reason'' (text_json ''evidence engine not implemented'')]))"

text \<open>
  The store as an engine: the state is the database, the entropy left, and what else its clients
  work on, as for \<open>store_upload\<close>.
\<close>

definition store_engine :: "'d bolt \<Rightarrow> ('d \<Rightarrow> 'd) \<Rightarrow> ('d \<Rightarrow> 'd) \<Rightarrow> ('d \<times> entropy \<times> 'x) engine" where
  "store_engine B between1 between2 =
     \<lparr>en_IngestDocument = store_upload B between1 between2,
      en_Evidence = (\<lambda>n ident s. Store_Evidence B n ident (fst s)),
      en_Batch = (\<lambda>n ident s. Store_Batch B n ident (fst s)),
      en_Freeze = (\<lambda>n key limit s. case s of (d, rnd, x) \<Rightarrow>
        (case Freeze B n key limit d rnd of (r, d', rnd') \<Rightarrow> (r, d', rnd', x))),
      en_Outbox = (\<lambda>n limit s. Outbox B n limit (fst s)),
      en_UnanchoredPackage = (\<lambda>n ident s. UnanchoredPackage B n ident (fst s))\<rparr>"

definition HandlerWithStore :: "'d bolt \<Rightarrow> ('d \<Rightarrow> 'd) \<Rightarrow> ('d \<Rightarrow> 'd) \<Rightarrow> ('d \<times> entropy \<times> 'x) handler" where
  "HandlerWithStore B between1 between2 = handlerWithEngine (store_engine B between1 between2)"

section \<open>Reading a request\<close>

lemma readJSON_Inr:
  "readJSON dec rq = Inr x \<longleftrightarrow>
     ParseMediaType (rq_Header rq (ascii ''Content-Type'')) = Some (ascii ''application/json'') \<and>
     ending (rq_Body rq) = Eof \<and> length (content (rq_Body rq)) \<le> 100663296 \<and>
     Option.bind (json_parse (content (rq_Body rq))) dec = Some x"
proof -
  let ?body = "max_bytes_reader (rq_Body rq) maxJSONBytes"
  have lim: "nat (sint maxJSONBytes) = 100663296" by (simp add: maxJSONBytes_def)
  have "readJSON dec rq = Inr x \<longleftrightarrow>
      ParseMediaType (rq_Header rq (ascii ''Content-Type'')) = Some (ascii ''application/json'') \<and>
      (\<exists>rest. decode_first dec ?body = Some (x, rest) \<and> decode_ends rest ?body)"
    unfolding readJSON_def by (auto simp del: ascii_Cons simp: Let_def split: option.splits)
  also have "\<dots> \<longleftrightarrow> ParseMediaType (rq_Header rq (ascii ''Content-Type'')) = Some (ascii ''application/json'') \<and>
      ending ?body = Eof \<and> Option.bind (json_parse (content ?body)) dec = Some x"
    unfolding decode_body ..
  also have "\<dots> \<longleftrightarrow> ParseMediaType (rq_Header rq (ascii ''Content-Type'')) = Some (ascii ''application/json'') \<and>
      ending (rq_Body rq) = Eof \<and> length (content (rq_Body rq)) \<le> 100663296 \<and>
      Option.bind (json_parse (content (rq_Body rq))) dec = Some x"
    using max_bytes_reader_Eof [of "rq_Body rq" maxJSONBytes] unfolding lim by metis
  finally show ?thesis .
qed

text \<open>The request for the engine that an ingest request amounts to, and the response to it.\<close>

definition upload_of_request :: "http_request \<Rightarrow> http_response + document_request" where
  "upload_of_request rq =
     (case readJSON (dec_struct_strict ingestRequest_fields zero_ingestRequest) rq of
        Inl rs \<Rightarrow> Inl rs
      | Inr req \<Rightarrow>
          if \<not> snd (server_representation (ir_Representation req))
          then Inl (errorJSON 400 ''invalid_request'' ''representation must be original or derived'')
          else case b64_decode_strict (ir_DocumentBase64 req) of
              None \<Rightarrow> Inl (errorJSON 400 ''invalid_request'' ''document_base64 is invalid or exceeds the byte limit'')
            | Some document \<Rightarrow>
                if 67108864 < length document
                then Inl (errorJSON 400 ''invalid_request'' ''document_base64 is invalid or exceeds the byte limit'')
                else Inr
                  \<lparr>d_Tenant = ir_Tenant req, d_Key = ir_IdempotencyKey req,
                   d_Source = \<lparr>s_Instance = sj_Instance (ir_Source req),
                     s_Object = sj_Object (ir_Source req), s_Version = sj_Version (ir_Source req)\<rparr>,
                   d_Representation = fst (server_representation (ir_Representation req)),
                   d_Document = Some (bytes_reader document), d_MaxBytes = maxDocumentBytes\<rparr>)"

definition ingest_response :: "evidence \<Rightarrow> bool \<Rightarrow> http_response" where
  "ingest_response e created = writeJSON (if created then 201 else 200) (JObject
     [member ''batch_id'' (emptyNil (e_BatchID e)), member ''created'' (JBool created),
      member ''evidence_id'' (JString (e_ID e)), member ''sequence'' (uint_json (e_Sequence e))])"

lemma maxDocumentBytes_sint [simp]: "sint maxDocumentBytes = 67108864" "maxDocumentBytes \<noteq> max_int64"
  by (simp_all add: maxDocumentBytes_def max_int64_def)

lemma ingest_handler_eq:
  "ingest_handler e rq s =
    (case upload_of_request rq of
       Inl rs \<Rightarrow> (rs, s)
     | Inr req \<Rightarrow>
         (case en_IngestDocument e req s of
            (Inl err, s) \<Rightarrow> (writeStorageError err, s)
          | (Inr (ev, c), s) \<Rightarrow> (ingest_response ev c, s)))"
  unfolding ingest_handler_def upload_of_request_def ingest_response_def maxDocumentBytes_sint
  by (simp split: sum.split option.split prod.split del: ascii_Cons)

lemma upload_of_request_Inr:
  assumes "upload_of_request rq = Inr req"
  obtains r doc where
    "ParseMediaType (rq_Header rq (ascii ''Content-Type'')) = Some (ascii ''application/json'')"
    "ending (rq_Body rq) = Eof" "length (content (rq_Body rq)) \<le> 100663296"
    "Option.bind (json_parse (content (rq_Body rq)))
       (dec_struct_strict ingestRequest_fields zero_ingestRequest) = Some r"
    "b64_decode_strict (ir_DocumentBase64 r) = Some doc" "length doc \<le> 67108864"
    "server_representation (ir_Representation r) = (d_Representation req, True)"
    "d_Tenant req = ir_Tenant r" "d_Key req = ir_IdempotencyKey r"
    "s_Instance (d_Source req) = sj_Instance (ir_Source r)" "s_Object (d_Source req) = sj_Object (ir_Source r)"
    "s_Version (d_Source req) = sj_Version (ir_Source r)"
    "d_Document req = Some (bytes_reader doc)" "d_MaxBytes req = maxDocumentBytes"
proof -
  obtain r where r: "readJSON (dec_struct_strict ingestRequest_fields zero_ingestRequest) rq = Inr r"
    using assms by (auto simp: upload_of_request_def split: sum.splits)
  note assms' = assms [unfolded upload_of_request_def r sum.case]
  obtain doc where doc: "b64_decode_strict (ir_DocumentBase64 r) = Some doc"
    using assms' by (auto split: if_splits option.splits)
  show thesis
    by (rule that [of r doc])
      (use r [unfolded readJSON_Inr] assms' doc in \<open>auto simp: prod_eq_iff split: if_splits\<close>)
qed

section \<open>Statuses\<close>

lemma errorJSON_status [simp]: "rs_Status (errorJSON n c m) = n"
  by (simp add: errorJSON_def writeJSON_def)

lemma writeJSON_status [simp]: "rs_Status (writeJSON n j) = n"
  by (simp add: writeJSON_def)

lemma writeStorageError_status: "rs_Status (writeStorageError err) \<in> {400, 404, 409, 500}"
  by (simp add: writeStorageError_def)

lemma ingest_response_status [simp]: "rs_Status (ingest_response e c) = (if c then 201 else 200)"
  by (simp add: ingest_response_def)

lemma readJSON_status: "readJSON dec rq = Inl rs \<Longrightarrow> rs_Status rs \<in> {400, 415}"
  by (auto simp: readJSON_def Let_def split: if_splits option.splits)

lemma upload_of_request_status: "upload_of_request rq = Inl rs \<Longrightarrow> rs_Status rs \<in> {400, 415}"
  by (auto simp: upload_of_request_def dest: readJSON_status split: if_splits option.splits sum.splits)

lemma requireMethod_other: "rq_Method rq \<noteq> ascii m \<Longrightarrow>
   rs_Status (fst (requireMethod m next rq s)) = 405 \<and> snd (requireMethod m next rq s) = s"
  by (simp add: requireMethod_def Let_def)

lemma requireMethod_same [simp]: "rq_Method rq = ascii m \<Longrightarrow> requireMethod m next rq s = next rq s"
  by (simp add: requireMethod_def)

lemma store_engine_sel:
  "en_IngestDocument (store_engine B b1 b2) = store_upload B b1 b2"
  "en_Evidence (store_engine B b1 b2) n i s = Store_Evidence B n i (fst s)"
  "en_Batch (store_engine B b1 b2) n i s = Store_Batch B n i (fst s)"
  "en_Outbox (store_engine B b1 b2) n limit s = Outbox B n limit (fst s)"
  "en_UnanchoredPackage (store_engine B b1 b2) n i s = UnanchoredPackage B n i (fst s)"
  by (simp_all add: store_engine_def)

section \<open>Routes\<close>

abbreviation "v1_ingest \<equiv> [ascii ''v1'', ascii ''ingest'']"
abbreviation "v1_package i \<equiv> [ascii ''v1'', ascii ''evidence'', i, ascii ''package'']"

lemma route_ingest: "rq_Path rq = v1_ingest \<Longrightarrow>
   handlerWithEngine e rq s = requireMethod ''POST'' (ingest_handler e) rq s"
  by (simp add: handlerWithEngine_def Let_def)

lemma route_package: "rq_Path rq = v1_package i \<Longrightarrow> i \<noteq> [] \<Longrightarrow>
   handlerWithEngine e rq s = requireMethod ''GET'' (packageExport e i) rq s"
  by (simp add: handlerWithEngine_def Let_def)

abbreviation "v1_freeze \<equiv> [ascii ''v1'', ascii ''batches'', ascii ''freeze'']"

lemma handler_routes:
  assumes leaf: "\<And>j. P (writeJSON 200 j, s)" "\<And>c m. P (errorJSON 404 c m, s)"
    and get: "\<And>h. P (h rq s) \<Longrightarrow> P (requireMethod ''GET'' h rq s)"
    and post: "rq_Path rq = v1_ingest \<Longrightarrow> P (requireMethod ''POST'' (ingest_handler e) rq s)"
      "rq_Path rq = v1_freeze \<Longrightarrow> P (requireMethod ''POST'' (freeze_handler e) rq s)"
    and read: "\<And>i. P (batchStatus e i rq s)" "P (outbox_handler e rq s)" "\<And>i. P (evidenceStatus e i rq s)"
      "\<And>i. P (packageExport e i rq s)"
  shows "P (handlerWithEngine e rq s)"
proof -
  have branch: "(c \<Longrightarrow> P x) \<Longrightarrow> P y \<Longrightarrow> P (if c then x else y)" for c x y by simp
  show ?thesis
    unfolding handlerWithEngine_def Let_def
    by (intro branch; (rule get)?; (rule leaf read)?; (rule post; assumption)?)
qed

lemma ingest_succeeded:
  assumes "handlerWithEngine e rq s = (rs, s')" and "rq_Path rq = v1_ingest"
    and "rs_Status rs = 200 \<or> rs_Status rs = 201"
  obtains req ev c where "rq_Method rq = ascii ''POST''" "upload_of_request rq = Inr req"
    "en_IngestDocument e req s = (Inr (ev, c), s')" "rs = ingest_response ev c" "c \<longleftrightarrow> rs_Status rs = 201"
proof -
  have m: "rq_Method rq = ascii ''POST''"
  proof (rule ccontr)
    assume "rq_Method rq \<noteq> ascii ''POST''"
    from requireMethod_other [OF this, of "ingest_handler e" s] show False
      using assms(1,3) unfolding route_ingest [OF assms(2)] by simp
  qed
  have run: "ingest_handler e rq s = (rs, s')"
    using assms(1) unfolding route_ingest [OF assms(2)] requireMethod_same [OF m] .
  obtain req where req: "upload_of_request rq = Inr req"
    using run assms(3) by (cases "upload_of_request rq") (auto simp: ingest_handler_eq dest!: upload_of_request_status)
  note run' = run [unfolded ingest_handler_eq req sum.case]
  obtain ev c where up: "en_IngestDocument e req s = (Inr (ev, c), s')" "rs = ingest_response ev c"
  proof (cases "en_IngestDocument e req s")
    case (Pair res t)
    show thesis
    proof (cases res)
      case (Inl err)
      then show thesis using run' assms(3) writeStorageError_status [of err] by (auto simp: Pair)
    next
      case (Inr evc)
      then show thesis using run' that by (cases evc) (auto simp: Pair)
    qed
  qed
  show thesis by (rule that [OF m req up]) (simp add: up(2))
qed

end
