(* ===== verification/Server_Props.thy ===== *)
theory Server_Props
  imports Server Storage_Export Storage_Example
begin

text \<open>
  What the HTTP server promises over the store: what an ingest request that is answered with success
  was and left behind, that it can be repeated, the way of a document from its upload to the export
  of a package that verifies it, and what no request can do.
\<close>

section \<open>Ingestion over HTTP\<close>

lemma IngestDocument_valid: "IngestDocument B b1 b2 req d rnd = (Inr r, d', rnd') \<Longrightarrow> validText (d_Tenant req)"
  by (auto simp: IngestDocument_def split: if_splits)

lemma store_upload_valid: "store_upload B b1 b2 req s = (Inr r, s') \<Longrightarrow> validText (d_Tenant req)"
  by (auto simp: store_upload_def split: prod.splits dest: IngestDocument_valid)

text \<open>What an ingest request answered with 200 or 201 was, and what it did.\<close>

lemma ingest_answered:
  assumes laws: "bolt_laws B" and ok: "store_ok B (fst s)" and oth: "others B between1" "others B between2"
    and path: "rq_Path rq = [ascii ''v1'', ascii ''ingest'']"
    and run: "HandlerWithStore B between1 between2 rq s = (rs, s')"
    and status: "rs_Status rs = 200 \<or> rs_Status rs = 201"
  obtains req doc e where "rq_Method rq = ascii ''POST''" "length (content (rq_Body rq)) \<le> 100663296"
    "Option.bind (json_parse (content (rq_Body rq)))
       (dec_struct_strict ingestRequest_fields zero_ingestRequest) = Some req"
    "b64_decode_strict (ir_DocumentBase64 req) = Some doc" "length doc \<le> 67108864"
    "rs = ingest_response e (rs_Status rs = 201)"
    "v_evidence (tenant_view B (fst s') (ir_Tenant req)) (e_ID e) = Inr e"
    "s_Instance (e_Source e) = sj_Instance (ir_Source req)"
    "s_Object (e_Source e) = sj_Object (ir_Source req)"
    "s_Version (e_Source e) = sj_Version (ir_Source req)"
    "server_representation (ir_Representation req) = (w_Representation (e_Witness e), True)"
    "w_DocumentDigest (e_Witness e) = sha256 doc"
    "store_run B (fst s) (fst s')" "validText (ir_Tenant req)"
proof -
  note contract = store_contract [OF laws oth]
  obtain dreq e c where run2: "rq_Method rq = ascii ''POST''" "upload_of_request rq = Inr dreq"
    "en_IngestDocument (store_engine B between1 between2) dreq s = (Inr (e, c), s')" "rs = ingest_response e c"
    "c \<longleftrightarrow> rs_Status rs = 201"
    by (rule ingest_succeeded [OF run [unfolded HandlerWithStore_def] path status])
  obtain r doc where r:
    "ParseMediaType (rq_Header rq (ascii ''Content-Type'')) = Some (ascii ''application/json'')"
    "ending (rq_Body rq) = Eof" "length (content (rq_Body rq)) \<le> 100663296"
    "Option.bind (json_parse (content (rq_Body rq)))
       (dec_struct_strict ingestRequest_fields zero_ingestRequest) = Some r"
    "b64_decode_strict (ir_DocumentBase64 r) = Some doc" "length doc \<le> 67108864"
    "server_representation (ir_Representation r) = (d_Representation dreq, True)"
    "d_Tenant dreq = ir_Tenant r" "d_Key dreq = ir_IdempotencyKey r"
    "s_Instance (d_Source dreq) = sj_Instance (ir_Source r)" "s_Object (d_Source dreq) = sj_Object (ir_Source r)"
    "s_Version (d_Source dreq) = sj_Version (ir_Source r)"
    "d_Document dreq = Some (bytes_reader doc)" "d_MaxBytes dreq = maxDocumentBytes"
    using upload_of_request_Inr [OF run2(2)] .
  note st = document_ingester.upload_stored [OF contract ok run2(3) [unfolded store_engine_sel]]
  have "w_DocumentDigest (e_Witness e) = sha256 doc"
    using st unfolding r(13,14) by (simp add: hashDocument_eq_Inr)
  moreover have "rs = ingest_response e (rs_Status rs = 201)" by (subst run2(4)) (simp add: run2(5))
  moreover have "store_run B (fst s) (fst s')"
    using document_ingester.upload_later [OF contract run2(3) [unfolded store_engine_sel]] .
  moreover have "validText (ir_Tenant r)"
    using store_upload_valid [OF run2(3) [unfolded store_engine_sel]] r(8) by simp
  ultimately show thesis
    using that [of r doc e] run2(1) r(3-8,10-12) st by simp
qed

text \<open>
  C8. An ingest response of status 200 or 201 is truthful: the request was a POST of JSON of at
  most 96 MiB that is one value with known members only, its document is the strict base64 of at
  most 64 MiB, and after the request the store holds evidence for the tenant, under the source and
  the representation of the request, with the SHA-256 digest of exactly this document; the response
  carries the identifier of this evidence. Meanwhile other requests may commit any runs.
\<close>

theorem server_ingest_captures:
  assumes "bolt_laws B" and "reachable B (fst s)" and "others B between1" and "others B between2"
    and "rq_Path rq = [ascii ''v1'', ascii ''ingest'']"
    and "HandlerWithStore B between1 between2 rq s = (rs, s')"
    and "rs_Status rs = 200 \<or> rs_Status rs = 201"
  shows "\<exists>req doc e. rq_Method rq = ascii ''POST'' \<and> length (content (rq_Body rq)) \<le> 100663296 \<and>
    Option.bind (json_parse (content (rq_Body rq)))
      (dec_struct_strict ingestRequest_fields zero_ingestRequest) = Some req \<and>
    b64_decode_strict (ir_DocumentBase64 req) = Some doc \<and> length doc \<le> 67108864 \<and>
    rs = ingest_response e (rs_Status rs = 201) \<and>
    v_evidence (tenant_view B (fst s') (ir_Tenant req)) (e_ID e) = Inr e \<and>
    s_Instance (e_Source e) = sj_Instance (ir_Source req) \<and>
    s_Object (e_Source e) = sj_Object (ir_Source req) \<and>
    s_Version (e_Source e) = sj_Version (ir_Source req) \<and>
    server_representation (ir_Representation req) = (w_Representation (e_Witness e), True) \<and>
    w_DocumentDigest (e_Witness e) = sha256 doc"
proof -
  have ok: "store_ok B (fst s)" by (rule bolt_laws.reachable_ok [OF assms(1,2)])
  from ingest_answered [OF assms(1) ok assms(3-7)] show ?thesis by metis
qed

text \<open>
  C24. Ingestion over HTTP is idempotent: when two ingest requests of the same tenant, source version
  and representation are both answered with 200 or 201, whatever is committed before, during and
  between them, the second is answered with 200 and the evidence of the first.
\<close>

theorem server_ingest_idempotent:
  fixes s s1 s2 s3 :: "'d \<times> entropy \<times> 'x"
  assumes "bolt_laws B" and "reachable B (fst s)" and "others B between1" and "others B between2"
    and "rq_Path rq = [ascii ''v1'', ascii ''ingest'']" and "rq_Path rq' = [ascii ''v1'', ascii ''ingest'']"
    and "HandlerWithStore B between1 between2 rq s = (rs, s1)"
    and "rs_Status rs = 200 \<or> rs_Status rs = 201"
    and "store_run B (fst s1) (fst s2)"
    and "HandlerWithStore B between1 between2 rq' s2 = (rs', s3)"
    and "rs_Status rs' = 200 \<or> rs_Status rs' = 201"
    and "upload_of_request rq = Inr req" and "upload_of_request rq' = Inr req'"
    and "d_Tenant req' = d_Tenant req" and "d_Source req' = d_Source req"
    and "d_Representation req' = d_Representation req"
  shows "rs_Status rs' = 200 \<and> (\<exists>e e' c. rs = ingest_response e c \<and> rs' = ingest_response e' False \<and>
    e_ID e' = e_ID e \<and> e_Witness e' = e_Witness e)"
proof -
  note contract = store_contract [OF assms(1,3,4)]
  have ok: "store_ok B (fst s)" by (rule bolt_laws.reachable_ok [OF assms(1,2)])
  obtain q e c where run: "upload_of_request rq = Inr q"
    "en_IngestDocument (store_engine B between1 between2) q s = (Inr (e, c), s1)" "rs = ingest_response e c"
    using ingest_succeeded [OF assms(7) [unfolded HandlerWithStore_def] assms(5,8)] by metis
  obtain q' e' c' where run': "upload_of_request rq' = Inr q'"
    "en_IngestDocument (store_engine B between1 between2) q' s2 = (Inr (e', c'), s3)" "rs' = ingest_response e' c'"
    using ingest_succeeded [OF assms(10) [unfolded HandlerWithStore_def] assms(6,11)] by metis
  have q: "q = req" "q' = req'" using run(1) run'(1) assms(12,13) by simp_all
  have "e_ID e' = e_ID e \<and> e_Witness e' = e_Witness e \<and> \<not> c'"
    by (rule document_ingester.uploads_return_same [OF contract ok run(2) [unfolded store_engine_sel q]
          assms(9) run'(2) [unfolded store_engine_sel q] assms(14-16)])
  then show ?thesis using run(3) run'(3) by auto
qed

section \<open>Export over HTTP\<close>

definition package_response :: "bytes \<Rightarrow> http_response" where
  "package_response bs = \<lparr>rs_Status = 200,
     rs_Header = [(ascii ''Content-Type'', ascii ''application/vnd.sigmaproof''),
       (ascii ''Cache-Control'', ascii ''no-store'')], rs_Body = bs\<rparr>"

lemma validID_nonempty: "validID i \<Longrightarrow> i \<noteq> []"
  by (auto simp: validID_def)

lemma UnanchoredPackage_invalid:
  "\<not> validText n \<or> \<not> validID i \<Longrightarrow> UnanchoredPackage B n i d = Inl (Sent ErrInvalid)"
  by (simp add: UnanchoredPackage_def)

lemma packageExport_outcome:
  assumes "bolt_laws B" and "reachable B (fst s)" and "bk_begin B (fst s) = None"
    and "rq_Query rq (ascii ''tenant'') = n"
  shows "\<exists>rs. packageExport (store_engine B b1 b2) i rq s = (rs, s) \<and>
    (if \<not> validText n \<or> \<not> validID i
     then rs = errorJSON 400 ''invalid_request'' ''request violates input limits or required fields''
     else case v_evidence (tenant_view B (fst s) n) i of
         Inl _ \<Rightarrow> rs = errorJSON 404 ''not_found'' ''record was not found for this tenant''
       | Inr e \<Rightarrow>
           if e_BatchID e = [] then rs = errorJSON 409 ''not_batched'' ''evidence has no frozen batch yet''
           else rs = package_response (rs_Body rs) \<and>
             (\<forall>doc k. hashDocument doc k = Inr (w_DocumentDigest (e_Witness e)) \<longrightarrow>
                IntegrityVerified (Verify_package doc (Some (bytes_reader (rs_Body rs))) k)))"
proof (cases "\<not> validText n \<or> \<not> validID i")
  case True
  then show ?thesis
    by (simp add: packageExport_def store_engine_sel assms(4) UnanchoredPackage_invalid writeStorageError_def
        del: ascii_Cons)
next
  case False
  then have arg: "validText n" "validID i" by auto
  note ok = bolt_laws.reachable_ok [OF assms(1,2)]
  note err = bolt_laws.UnanchoredPackage_error [OF assms(1) ok assms(3) arg]
  show ?thesis
  proof (cases "v_evidence (tenant_view B (fst s) n) i")
    case (Inl x)
    then have "UnanchoredPackage B n i (fst s) = Inl (Sent ErrNotFound)" using err by blast
    then show ?thesis using Inl arg
      by (simp add: packageExport_def store_engine_sel assms(4) writeStorageError_def del: ascii_Cons)
  next
    case (Inr e)
    show ?thesis
    proof (cases "e_BatchID e = []")
      case True
      then have "UnanchoredPackage B n i (fst s) = Inl (Sent ErrNotBatched)" using err Inr by blast
      then show ?thesis using Inr arg True
        by (simp add: packageExport_def store_engine_sel assms(4) writeStorageError_def del: ascii_Cons)
    next
      case False
      obtain p bs where p: "UnanchoredPackage B n i (fst s) = Inr p" "MarshalBinary_package p = Inr bs"
        "\<forall>doc k. hashDocument doc k = Inr (w_DocumentDigest (e_Witness e)) \<longrightarrow>
           IntegrityVerified (Verify_package doc (Some (bytes_reader bs)) k)"
        using bolt_laws.member_exports [OF assms(1) ok assms(3) arg(1) Inr False] by blast
      have "packageExport (store_engine B b1 b2) i rq s = (package_response bs, s)"
        by (simp add: packageExport_def store_engine_sel assms(4) p package_response_def del: ascii_Cons)
      then show ?thesis using Inr arg False p(3) by (auto simp: package_response_def)
    qed
  qed
qed


text \<open>
  The export over HTTP answers exactly: 400 for an invalid tenant or identifier, 404 for evidence
  that the tenant does not have, 409 for evidence that has no batch yet, and otherwise 200 with a
  package, marked as not to be cached, that verifies together with every document of the
  evidence's digest. It never changes the store.
\<close>

theorem server_export_exact:
  assumes "bolt_laws B" and "reachable B (fst s)" and "accepting B"
    and "rq_Method rq = ascii ''GET''" and "rq_Path rq = [ascii ''v1'', ascii ''evidence'', i, ascii ''package'']"
    and "i \<noteq> []" and "rq_Query rq (ascii ''tenant'') = n"
  shows "\<exists>rs. HandlerWithStore B between1 between2 rq s = (rs, s) \<and>
    (if \<not> validText n \<or> \<not> validID i
     then rs = errorJSON 400 ''invalid_request'' ''request violates input limits or required fields''
     else case v_evidence (tenant_view B (fst s) n) i of
         Inl _ \<Rightarrow> rs = errorJSON 404 ''not_found'' ''record was not found for this tenant''
       | Inr e \<Rightarrow>
           if e_BatchID e = [] then rs = errorJSON 409 ''not_batched'' ''evidence has no frozen batch yet''
           else rs = package_response (rs_Body rs) \<and>
             (\<forall>doc k. hashDocument doc k = Inr (w_DocumentDigest (e_Witness e)) \<longrightarrow>
                IntegrityVerified (Verify_package doc (Some (bytes_reader (rs_Body rs))) k)))"
  unfolding HandlerWithStore_def route_package [OF assms(5,6)] requireMethod_same [OF assms(4)]
  by (rule packageExport_outcome [OF assms(1,2) accepting_simps(1) [OF assms(3)] assms(7)])

text \<open>The package of stored evidence verifies its document, or there is no batch yet.\<close>

lemma stored_exports:
  assumes "bolt_laws B" and "reachable B (fst s)" and "accepting B" and "validText n" and id: "validID i"
    and "v_evidence (tenant_view B (fst s) n) i = Inr e" and "w_DocumentDigest (e_Witness e) = sha256 doc"
    and "rq_Method rq = ascii ''GET''"
    and path: "rq_Path rq = [ascii ''v1'', ascii ''evidence'', i, ascii ''package'']"
    and "rq_Query rq (ascii ''tenant'') = n"
  shows "\<exists>rs. HandlerWithStore B between1 between2 rq s = (rs, s) \<and>
    (rs = errorJSON 409 ''not_batched'' ''evidence has no frozen batch yet'' \<or>
     rs_Status rs = 200 \<and>
     (\<forall>k. int (length doc) \<le> sint k \<longrightarrow> k \<noteq> max_int64 \<longrightarrow>
        IntegrityVerified (Verify_package (Some (bytes_reader doc)) (Some (bytes_reader (rs_Body rs))) k)))"
proof -
  obtain rs where rs: "HandlerWithStore B between1 between2 rq s = (rs, s)"
    "if e_BatchID e = [] then rs = errorJSON 409 ''not_batched'' ''evidence has no frozen batch yet''
     else rs = package_response (rs_Body rs) \<and>
       (\<forall>doc k. hashDocument doc k = Inr (w_DocumentDigest (e_Witness e)) \<longrightarrow>
          IntegrityVerified (Verify_package doc (Some (bytes_reader (rs_Body rs))) k))"
    using packageExport_outcome [OF assms(1,2) accepting_simps(1) [OF assms(3)] assms(10), of between1 between2 i] assms(4,5)
    unfolding HandlerWithStore_def route_package [OF path validID_nonempty [OF id]]
      requireMethod_same [OF assms(8)]
    by (auto simp: assms(6))
  have "hashDocument (Some (bytes_reader doc)) k = Inr (w_DocumentDigest (e_Witness e))"
    if "int (length doc) \<le> sint k" "k \<noteq> max_int64" for k
    using that by (simp add: hashDocument_eq_Inr assms(7))
  moreover have "rs_Status (package_response bs) = 200" for bs by (simp add: package_response_def)
  ultimately show ?thesis using rs by (metis (full_types))
qed

text \<open>From the answer to an ingest request to a later export.\<close>

lemma ingested_exports:
  fixes s s1 :: "'d \<times> entropy \<times> 'x"
  assumes "bolt_laws B" and "reachable B (fst s)" and "accepting B"
    and "others B between1" and "others B between2"
    and "rq_Path rq = [ascii ''v1'', ascii ''ingest'']"
    and "HandlerWithStore B between1 between2 rq s = (rs, s1)"
    and "rs_Status rs = 200 \<or> rs_Status rs = 201"
  obtains req doc e where "Option.bind (json_parse (content (rq_Body rq)))
      (dec_struct_strict ingestRequest_fields zero_ingestRequest) = Some req"
    "b64_decode_strict (ir_DocumentBase64 req) = Some doc" "rs = ingest_response e (rs_Status rs = 201)"
    "\<And>s2 :: 'd \<times> entropy \<times> 'x. \<And>rq'. store_run B (fst s1) (fst s2) \<Longrightarrow> rq_Method rq' = ascii ''GET'' \<Longrightarrow>
       rq_Path rq' = [ascii ''v1'', ascii ''evidence'', e_ID e, ascii ''package''] \<Longrightarrow>
       rq_Query rq' (ascii ''tenant'') = ir_Tenant req \<Longrightarrow>
       \<exists>rs'. HandlerWithStore B between1 between2 rq' s2 = (rs', s2) \<and>
         (rs' = errorJSON 409 ''not_batched'' ''evidence has no frozen batch yet'' \<or>
          rs_Status rs' = 200 \<and>
          (\<forall>k. int (length doc) \<le> sint k \<longrightarrow> k \<noteq> max_int64 \<longrightarrow> IntegrityVerified
            (Verify_package (Some (bytes_reader doc)) (Some (bytes_reader (rs_Body rs'))) k)))"
proof -
  have ok: "store_ok B (fst s)" by (rule bolt_laws.reachable_ok [OF assms(1,2)])
  obtain req doc e where r: "Option.bind (json_parse (content (rq_Body rq)))
      (dec_struct_strict ingestRequest_fields zero_ingestRequest) = Some req"
    "b64_decode_strict (ir_DocumentBase64 req) = Some doc" "rs = ingest_response e (rs_Status rs = 201)"
    "v_evidence (tenant_view B (fst s1) (ir_Tenant req)) (e_ID e) = Inr e"
    "w_DocumentDigest (e_Witness e) = sha256 doc" "store_run B (fst s) (fst s1)"
    and tenant: "validText (ir_Tenant req)"
    using ingest_answered [OF assms(1) ok assms(4-8)] by metis
  have ok1: "store_ok B (fst s1)" using bolt_laws.store_run_ok [OF assms(1) r(6) ok] by blast
  have id: "validID (e_ID e)"
    using wf_evidenceD(1) [OF tenant_view_wf [OF ok1] r(4)] by (simp add: good_evidence_def)
  show thesis
  proof (rule that [OF r(1-3)])
    fix s2 :: "'d \<times> entropy \<times> 'x" and rq' :: http_request
    assume later: "store_run B (fst s1) (fst s2)" and get: "rq_Method rq' = ascii ''GET''"
      "rq_Path rq' = [ascii ''v1'', ascii ''evidence'', e_ID e, ascii ''package'']"
      "rq_Query rq' (ascii ''tenant'') = ir_Tenant req"
    have reach2: "reachable B (fst s2)" using reachable_run [OF run_trans [OF later r(6)] assms(2)] .
    obtain e2 where e2: "v_evidence (tenant_view B (fst s2) (ir_Tenant req)) (e_ID e) = Inr e2"
      "e_Witness e2 = e_Witness e"
      using extendsD_evidence [OF _ r(4)] bolt_laws.store_run_ok [OF assms(1) later ok1] by metis
    have digest: "w_DocumentDigest (e_Witness e2) = sha256 doc" using e2(2) r(5) by simp
    show "\<exists>rs'. HandlerWithStore B between1 between2 rq' s2 = (rs', s2) \<and>
         (rs' = errorJSON 409 ''not_batched'' ''evidence has no frozen batch yet'' \<or>
          rs_Status rs' = 200 \<and>
          (\<forall>k. int (length doc) \<le> sint k \<longrightarrow> k \<noteq> max_int64 \<longrightarrow> IntegrityVerified
            (Verify_package (Some (bytes_reader doc)) (Some (bytes_reader (rs_Body rs'))) k)))"
      using stored_exports [OF assms(1) reach2 assms(3) tenant id e2(1)] digest get by blast
  qed
qed

text \<open>
  C3. The way of a document through the server: when an ingest request to a working
  database in a reachable state was answered with 200 or 201, then at any later time, whatever was committed meanwhile, a request for the package of the
  evidence named in the response is answered with 409, no batch yet, or with 200 and a package that
  verifies the very bytes that were uploaded, under every limit that admits them.
\<close>

theorem server_document_exports:
  fixes s s1 s2 :: "'d \<times> entropy \<times> 'x"
  assumes "bolt_laws B" and "reachable B (fst s)" and "accepting B"
    and "others B between1" and "others B between2"
    and "rq_Path rq = [ascii ''v1'', ascii ''ingest'']"
    and "HandlerWithStore B between1 between2 rq s = (rs, s1)"
    and "rs_Status rs = 200 \<or> rs_Status rs = 201"
    and "store_run B (fst s1) (fst s2)"
  shows "\<exists>req doc e c. Option.bind (json_parse (content (rq_Body rq)))
      (dec_struct_strict ingestRequest_fields zero_ingestRequest) = Some req \<and>
    b64_decode_strict (ir_DocumentBase64 req) = Some doc \<and> rs = ingest_response e c \<and>
    (\<forall>rq'. rq_Method rq' = ascii ''GET'' \<longrightarrow>
       rq_Path rq' = [ascii ''v1'', ascii ''evidence'', e_ID e, ascii ''package''] \<longrightarrow>
       rq_Query rq' (ascii ''tenant'') = ir_Tenant req \<longrightarrow>
       (\<exists>rs'. HandlerWithStore B between1 between2 rq' s2 = (rs', s2) \<and>
         (rs' = errorJSON 409 ''not_batched'' ''evidence has no frozen batch yet'' \<or>
          rs_Status rs' = 200 \<and>
          (\<forall>k. int (length doc) \<le> sint k \<longrightarrow> k \<noteq> max_int64 \<longrightarrow> IntegrityVerified
            (Verify_package (Some (bytes_reader doc)) (Some (bytes_reader (rs_Body rs'))) k)))))"
  by (rule ingested_exports [OF assms(1-8)]) (use assms(9) in blast)

section \<open>What cannot happen\<close>

lemma Store_Evidence_error:
  assumes "bolt_laws B" and "store_ok B d" and "bk_begin B d = None" and err: "Store_Evidence B n i d = Inl err"
  shows "err = Sent ErrInvalid \<or> err = Sent ErrNotFound"
proof (cases "\<not> validText n \<or> \<not> validID i")
  case True
  then show ?thesis using err by (auto simp: Store_Evidence_def)
next
  case False
  then have "v_evidence (tenant_view B d n) i = Inl err"
    using err unfolding bolt_laws.Store_Evidence_eq [OF assms(1-3)] by simp
  then show ?thesis using wf_absent [OF tenant_view_wf [OF assms(2)]] by simp
qed

lemma Store_Batch_error:
  assumes "bolt_laws B" and "store_ok B d" and "bk_begin B d = None" and err: "Store_Batch B n i d = Inl err"
  shows "err = Sent ErrInvalid \<or> err = Sent ErrNotFound"
proof (cases "\<not> validText n \<or> \<not> validID i")
  case True
  then show ?thesis using err by (auto simp: Store_Batch_def)
next
  case False
  then have "v_batch (tenant_view B d n) i = Inl err"
    using err unfolding bolt_laws.Store_Batch_eq [OF assms(1-3)] by simp
  then show ?thesis using wf_batch_absent [OF tenant_view_wf [OF assms(2)]] by simp
qed

lemma Outbox_status:
  assumes "bolt_laws B" and "store_ok B d" and "bk_begin B d = None" and "1 \<le> limit" and "limit \<le> 1024"
    and "Outbox B n limit d = Inl err"
  shows "errors_is err ErrInvalid \<or> errors_is err ErrNotFound"
proof (cases "validText n")
  case True
  from bolt_laws.Outbox_eq [OF assms(1-3) this assms(4,5)] assms(6) show ?thesis by (auto split: if_splits)
next
  case False
  then have "err = Sent ErrInvalid" using assms(6) by (auto simp: Outbox_def)
  then show ?thesis by simp
qed

lemma queryLimit_Inr:
  "queryLimit rq 1024 = Inr limit \<Longrightarrow> 1 \<le> limit \<and> limit \<le> 1024"
  by (auto simp: queryLimit_def Let_def MaxBatchEntries_def split: if_splits option.splits)

lemma queryLimit_Inl: "queryLimit rq fallback = Inl rs \<Longrightarrow> rs_Status rs = 400"
  by (auto simp: queryLimit_def Let_def split: if_splits option.splits)

lemma writeStorageError_mild:
  "errors_is err ErrInvalid \<or> errors_is err ErrNotFound \<or> errors_is err ErrNotBatched \<Longrightarrow>
   rs_Status (writeStorageError err) \<in> {400, 404, 409}"
  by (auto simp: writeStorageError_def)

text \<open>
  The read handlers: an answer of 200 or of a refusal, and of 500 only if the transaction could
  not begin. \<open>mild\<close> are the statuses that a read handler may answer with.
\<close>

definition mild :: "'d bolt \<Rightarrow> 'd \<Rightarrow> nat \<Rightarrow> bool" where
  "mild B d status \<longleftrightarrow> status \<in> {200, 400, 404, 405, 409} \<or> status = 500 \<and> bk_begin B d \<noteq> None"

lemma mild_simps [simp]: "mild B d 200" "mild B d 404" "mild B d 405" "mild B d 400"
  by (simp_all add: mild_def)

lemma storage_error_mild:
  assumes "bk_begin B d = None \<Longrightarrow> errors_is err ErrInvalid \<or> errors_is err ErrNotFound \<or> errors_is err ErrNotBatched"
  shows "mild B d (rs_Status (writeStorageError err))"
  using writeStorageError_status [of err] writeStorageError_mild [OF assms]
  by (cases "bk_begin B d") (auto simp: mild_def)

lemma evidenceStatus_answers:
  assumes "bolt_laws B" and "store_ok B (fst s)"
  shows "\<exists>rs. evidenceStatus (store_engine B b1 b2) i rq s = (rs, s) \<and> mild B (fst s) (rs_Status rs)"
proof (cases "Store_Evidence B (rq_Query rq (ascii ''tenant'')) i (fst s)")
  case (Inl err)
  have "mild B (fst s) (rs_Status (writeStorageError err))"
    by (rule storage_error_mild) (use Store_Evidence_error [OF assms _ Inl] in fastforce)
  then show ?thesis by (simp add: evidenceStatus_def store_engine_sel Inl del: ascii_Cons)
qed (simp add: evidenceStatus_def store_engine_sel Let_def del: ascii_Cons)

lemma batchStatus_answers:
  assumes "bolt_laws B" and "store_ok B (fst s)"
  shows "\<exists>rs. batchStatus (store_engine B b1 b2) i rq s = (rs, s) \<and> mild B (fst s) (rs_Status rs)"
proof (cases "Store_Batch B (rq_Query rq (ascii ''tenant'')) i (fst s)")
  case (Inl err)
  have "mild B (fst s) (rs_Status (writeStorageError err))"
    by (rule storage_error_mild) (use Store_Batch_error [OF assms _ Inl] in fastforce)
  then show ?thesis by (simp add: batchStatus_def store_engine_sel Inl del: ascii_Cons)
qed (simp add: batchStatus_def store_engine_sel del: ascii_Cons)

lemma outbox_answers:
  assumes "bolt_laws B" and "store_ok B (fst s)"
  shows "\<exists>rs. outbox_handler (store_engine B b1 b2) rq s = (rs, s) \<and> mild B (fst s) (rs_Status rs)"
proof (cases "queryLimit rq MaxBatchEntries")
  case (Inl rs)
  then show ?thesis using queryLimit_Inl [OF Inl] by (simp add: outbox_handler_def)
next
  case (Inr limit)
  then have lim: "1 \<le> limit" "limit \<le> 1024"
    using queryLimit_Inr [of rq limit] by (simp_all add: MaxBatchEntries_def)
  show ?thesis
  proof (cases "Outbox B (rq_Query rq (ascii ''tenant'')) limit (fst s)")
    case (Inl err)
    have "mild B (fst s) (rs_Status (writeStorageError err))"
      by (rule storage_error_mild) (use Outbox_status [OF assms _ lim Inl] in blast)
    then show ?thesis by (simp add: outbox_handler_def store_engine_sel Inr Inl del: ascii_Cons)
  qed (simp add: outbox_handler_def store_engine_sel Inr del: ascii_Cons)
qed

lemma UnanchoredPackage_status:
  assumes "bolt_laws B" and "reachable B d" and "bk_begin B d = None"
    and "bindE (UnanchoredPackage B n i d) MarshalBinary_package = Inl err"
  shows "errors_is err ErrInvalid \<or> errors_is err ErrNotFound \<or> errors_is err ErrNotBatched"
proof (cases "validText n \<and> validID i")
  case True
  note ok = bolt_laws.reachable_ok [OF assms(1,2)]
  note outcome = bolt_laws.UnanchoredPackage_error [OF assms(1) ok assms(3) conjunct1 [OF True] conjunct2 [OF True]]
  show ?thesis
  proof (cases "UnanchoredPackage B n i d")
    case (Inl x)
    then have "err = x" using assms(4) by simp
    then show ?thesis using outcome [of x] Inl by auto
  next
    case (Inr p)
    then obtain e where e: "v_evidence (tenant_view B d n) i = Inr e" "e_BatchID e \<noteq> []"
      using outcome [of "Sent ErrNotFound"] outcome [of "Sent ErrNotBatched"]
      by (cases "v_evidence (tenant_view B d n) i") auto
    from bolt_laws.member_exports [OF assms(1) ok assms(3) conjunct1 [OF True] e] Inr assms(4)
    show ?thesis by auto
  qed
next
  case False
  then have "err = Sent ErrInvalid" using assms(4) UnanchoredPackage_invalid [of n i B d] by simp
  then show ?thesis by simp
qed

lemma packageExport_answers:
  assumes "bolt_laws B" and "reachable B (fst s)"
  shows "\<exists>rs. packageExport (store_engine B b1 b2) i rq s = (rs, s) \<and> mild B (fst s) (rs_Status rs)"
proof (cases "bindE (UnanchoredPackage B (rq_Query rq (ascii ''tenant'')) i (fst s)) MarshalBinary_package")
  case (Inl err)
  have "mild B (fst s) (rs_Status (writeStorageError err))"
    by (rule storage_error_mild) (rule UnanchoredPackage_status [OF assms _ Inl])
  then show ?thesis by (simp add: packageExport_def store_engine_sel Inl del: ascii_Cons)
qed (simp add: packageExport_def store_engine_sel del: ascii_Cons)

text \<open>
  C26. Reading over HTTP changes nothing and fails only with the database: on a reachable store every
  request with another method than POST leaves the state as it is and is answered with 200, 400,
  404, 405 or 409, or else with the internal error 500, which means that the database could not
  begin a transaction, as when it is closed. While transactions begin, no read is answered with 500.
\<close>

theorem server_reads_answered:
  assumes "bolt_laws B" and "reachable B (fst s)" and "rq_Method rq \<noteq> ascii ''POST''"
  shows "\<exists>rs. HandlerWithStore B between1 between2 rq s = (rs, s) \<and>
    (rs_Status rs \<in> {200, 400, 404, 405, 409} \<or> rs_Status rs = 500 \<and> bk_begin B (fst s) \<noteq> None)"
proof -
  let ?fine = "\<lambda>x. \<exists>rs. x = (rs, s) \<and> mild B (fst s) (rs_Status rs)"
  note ok = bolt_laws.reachable_ok [OF assms(1,2)]
  have post: "?fine (requireMethod ''POST'' h rq s)" for h
    using requireMethod_other [OF assms(3), of h s] by (cases "requireMethod ''POST'' h rq s") auto
  have get: "?fine (requireMethod ''GET'' h rq s)" if "?fine (h rq s)" for h
  proof (cases "rq_Method rq = ascii ''GET''")
    case False
    from requireMethod_other [OF this, of h s] show ?thesis
      by (cases "requireMethod ''GET'' h rq s") auto
  qed (use that in \<open>simp only: requireMethod_same\<close>)
  have read: "?fine (evidenceStatus (store_engine B between1 between2) i rq s)"
    "?fine (batchStatus (store_engine B between1 between2) i rq s)"
    "?fine (outbox_handler (store_engine B between1 between2) rq s)"
    "?fine (packageExport (store_engine B between1 between2) i rq s)" for i
    using evidenceStatus_answers [OF assms(1) ok] batchStatus_answers [OF assms(1) ok]
      outbox_answers [OF assms(1) ok] packageExport_answers [OF assms(1,2)] by blast+
  have "?fine (HandlerWithStore B between1 between2 rq s)"
    unfolding HandlerWithStore_def
    by (rule handler_routes; (rule post get read)?) (simp_all add: get)
  then show ?thesis by (simp add: mild_def)
qed

text \<open>
  C27. Only a well-formed POST reaches the engine: whenever a request changes the state of any engine,
  it was a POST of one bounded JSON value with known members only, to the path that ingests, with a
  known representation and a document of strict base64 within the limit, or to the path that
  freezes, and the change is the one that the engine's operation made on exactly these arguments.
\<close>

theorem server_state_change:
  assumes "handlerWithEngine e rq s = (rs, s')" and "s' \<noteq> s"
  shows "rq_Method rq = ascii ''POST'' \<and>
    ParseMediaType (rq_Header rq (ascii ''Content-Type'')) = Some (ascii ''application/json'') \<and>
    ending (rq_Body rq) = Eof \<and> length (content (rq_Body rq)) \<le> 100663296 \<and>
    (rq_Path rq = [ascii ''v1'', ascii ''ingest''] \<and>
       (\<exists>req. upload_of_request rq = Inr req \<and> s' = snd (en_IngestDocument e req s)) \<or>
     rq_Path rq = [ascii ''v1'', ascii ''batches'', ascii ''freeze''] \<and>
       (\<exists>req. Option.bind (json_parse (content (rq_Body rq)))
            (dec_struct_strict freezeRequest_fields zero_freezeRequest) = Some req \<and>
          s' = snd (en_Freeze e (fz_Tenant req) (fz_RequestKey req) (fz_Limit req) s)))"
proof -
  consider (ingest) "rq_Path rq = [ascii ''v1'', ascii ''ingest'']"
    | (freeze) "rq_Path rq = [ascii ''v1'', ascii ''batches'', ascii ''freeze'']"
    | (other) "rq_Path rq \<noteq> [ascii ''v1'', ascii ''ingest'']"
        "rq_Path rq \<noteq> [ascii ''v1'', ascii ''batches'', ascii ''freeze'']" by blast
  then show ?thesis
  proof cases
    case ingest
    note run = assms(1) [unfolded route_ingest [OF ingest]]
    have post: "rq_Method rq = ascii ''POST''"
      using requireMethod_other [of rq "''POST''" "ingest_handler e" s] run assms(2) by force
    note run' = run [unfolded requireMethod_same [OF post], unfolded ingest_handler_eq]
    obtain req where req: "upload_of_request rq = Inr req"
      using run' assms(2) by (cases "upload_of_request rq") auto
    have "s' = snd (en_IngestDocument e req s)"
      using run' by (auto simp: req split: prod.splits sum.splits)
    moreover have "ParseMediaType (rq_Header rq (ascii ''Content-Type'')) = Some (ascii ''application/json'') \<and>
        ending (rq_Body rq) = Eof \<and> length (content (rq_Body rq)) \<le> 100663296"
      by (rule upload_of_request_Inr [OF req]) blast
    ultimately show ?thesis using post ingest req by blast
  next
    case freeze
    have route: "handlerWithEngine e rq s = requireMethod ''POST'' (freeze_handler e) rq s"
      using freeze by (simp add: handlerWithEngine_def Let_def)
    note run = assms(1) [unfolded route]
    have post: "rq_Method rq = ascii ''POST''"
      using requireMethod_other [of rq "''POST''" "freeze_handler e" s] run assms(2) by force
    note run' = run [unfolded requireMethod_same [OF post], unfolded freeze_handler_def]
    obtain req where req: "readJSON (dec_struct_strict freezeRequest_fields zero_freezeRequest) rq = Inr req"
      using run' assms(2) by (cases "readJSON (dec_struct_strict freezeRequest_fields zero_freezeRequest) rq") auto
    have "s' = snd (en_Freeze e (fz_Tenant req) (fz_RequestKey req) (fz_Limit req) s)"
      using run' by (auto simp: req split: prod.splits sum.splits)
    then show ?thesis using post freeze req [unfolded readJSON_Inr] by blast
  next
    case other
    have "snd (handlerWithEngine e rq s) = s"
      by (rule handler_routes)
        (use other in \<open>simp_all add: requireMethod_def Let_def batchStatus_def outbox_handler_def
          evidenceStatus_def packageExport_def del: ascii_Cons\<close>)
    then show ?thesis using assms by simp
  qed
qed

section \<open>Requests that are accepted\<close>

text \<open>The body of an ingest request as a client writes it.\<close>

definition ingest_body :: "gostring \<Rightarrow> gostring \<Rightarrow> source \<Rightarrow> string \<Rightarrow> bytes \<Rightarrow> json" where
  "ingest_body tn key src rep doc = JObject
     [member ''tenant'' (JString tn), member ''idempotency_key'' (JString key),
      member ''source'' (JObject
        [member ''instance'' (JString (s_Instance src)), member ''object'' (JString (s_Object src)),
         member ''version'' (JString (s_Version src))]),
      member ''representation'' (text_json rep),
      member ''document_base64'' (JString (b64_encode doc))]"

lemma ingest_body_decodes:
  assumes "utf8_valid tn" "utf8_valid key" "utf8_source src" "utf8_valid (ascii rep)"
  shows "Option.bind (json_parse (json_text (ingest_body tn key src rep doc)))
      (dec_struct_strict ingestRequest_fields zero_ingestRequest) =
    Some \<lparr>ir_Tenant = tn, ir_IdempotencyKey = key,
      ir_Source = \<lparr>sj_Instance = s_Instance src, sj_Object = s_Object src, sj_Version = s_Version src\<rparr>,
      ir_Representation = ascii rep, ir_DocumentBase64 = b64_encode doc\<rparr>"
proof -
  have "utf8_valid (b64_encode doc)" using b64_encode_ascii [of doc] by (simp add: utf8_valid_ascii)
  then have "json_ok max_nesting (ingest_body tn key src rep doc)"
    using assms by (simp add: ingest_body_def max_nesting_def utf8_source_def ascii_utf8)
  then show ?thesis
    by (simp add: json_parse_text)
      (simp add: ingest_body_def ingestRequest_fields_def sourceJSON_fields_def zero_ingestRequest_def
        fold_name.simps(2))
qed

lemma b64_chars: "c \<in> set (b64_encode s) \<Longrightarrow> c \<le> 0x7F \<and> escape_ascii c = [c]"
proof -
  have dig: "escape_ascii (b64_digit n) = [b64_digit n]" if "n < 64" for n
  proof -
    have "\<forall>n \<in> set [0..<64]. escape_ascii (b64_digit n) = [b64_digit n]"
      by (simp add: upt_rec escape_ascii_def b64_digit_def)
    with that show ?thesis by simp
  qed
  have grp: "\<forall>c \<in> set (b64_group x). escape_ascii c = [c]" if "x < 16777216" for x
    using b64_parts [OF that] dig by (simp add: b64_group_def)
  have eq: "escape_ascii 61 = [61]" by (simp add: escape_ascii_def)
  have "\<forall>c \<in> set (b64_encode s). escape_ascii c = [c]"
  proof (induction s rule: b64_encode.induct)
    case (2 a)
    show ?case using grp [OF b64_less [of a 0 0]] eq by (auto dest: in_set_takeD)
  next
    case (3 a b)
    show ?case using grp [OF b64_less [of a b 0]] eq by (auto dest: in_set_takeD)
  next
    case (4 a b c r)
    then show ?case using grp [OF b64_less [of a b c]] by auto
  qed simp
  then show "c \<in> set (b64_encode s) \<Longrightarrow> ?thesis" using b64_encode_ascii [of s] by blast
qed

lemma escape_plain: "(\<And>c. c \<in> set s \<Longrightarrow> c \<le> 0x7F \<and> escape_ascii c = [c]) \<Longrightarrow> escape s = s"
  by (induction s) (simp_all add: escape.simps(2))

lemma length_ingest_body:
  assumes "validText tn" "validText key" "validSource src" "length rep \<le> 256" "length doc \<le> 67108864"
  shows "length (json_text (ingest_body tn key src rep doc)) \<le> 100663296"
proof -
  have q: "length (quote s) \<le> 1538" if "length s \<le> 256" for s
    using length_quote [of s] that by simp
  have t: "length tn \<le> 256" "length key \<le> 256" "length (s_Instance src) \<le> 256"
    "length (s_Object src) \<le> 256" "length (s_Version src) \<le> 256"
    using assms(1-3) by (simp_all add: validText_def validSource_def)
  have "length (b64_encode doc) \<le> 4 + 4 * length doc div 3" by (rule length_b64_encode)
  also have "\<dots> \<le> 89478490" using assms(5) by simp
  finally have d: "length (quote (b64_encode doc)) \<le> 89478492"
    using escape_plain [of "b64_encode doc"] b64_chars by (simp add: quote_def)
  have k: "length (quote (ascii s)) \<le> 2 + 6 * length s" for s
    using length_quote [of "ascii s"] by simp
  show ?thesis
    using q [OF t(1)] q [OF t(2)] q [OF t(3)] q [OF t(4)] q [OF t(5)] d q [of "ascii rep"] assms(4)
      k [of "''tenant''"] k [of "''idempotency_key''"] k [of "''source''"] k [of "''instance''"]
      k [of "''object''"] k [of "''version''"] k [of "''representation''"] k [of "''document_base64''"]
    by (simp add: ingest_body_def del: ascii_Cons)
qed


text \<open>
  The comparison ignores the case of the letters, although the published schema of the request
  only lists the two names in lower case. Even a dotted capital I passes for an i.
\<close>

lemma server_representation_any_case:
  "server_representation (ascii ''Original'') = (Original, True)"
  "server_representation (ascii ''DERIVED'') = (Derived, True)"
  "server_representation (ascii ''or'' @ [0xC4, 0xB0] @ ascii ''ginal'') = (Original, True)"
  by code_simp+

lemma server_representation_names:
  "server_representation (ascii ''original'') = (Original, True)"
  "server_representation (ascii ''derived'') = (Derived, True)"
  "utf8_valid (ascii ''original'')" "utf8_valid (ascii ''derived'')"
  by code_simp+

definition upload_of_fields :: "gostring \<Rightarrow> gostring \<Rightarrow> source \<Rightarrow> string \<Rightarrow> bytes \<Rightarrow> document_request" where
  "upload_of_fields tn key src rep doc =
     \<lparr>d_Tenant = tn, d_Key = key, d_Source = src,
      d_Representation = (if rep = ''original'' then Original else Derived),
      d_Document = Some (bytes_reader doc), d_MaxBytes = maxDocumentBytes\<rparr>"

lemma upload_of_fields_sel [simp]:
  "d_Tenant (upload_of_fields tn key src rep doc) = tn"
  "d_Key (upload_of_fields tn key src rep doc) = key"
  "d_Source (upload_of_fields tn key src rep doc) = src"
  "d_Representation (upload_of_fields tn key src rep doc) = (if rep = ''original'' then Original else Derived)"
  "d_Document (upload_of_fields tn key src rep doc) = Some (bytes_reader doc)"
  "d_MaxBytes (upload_of_fields tn key src rep doc) = maxDocumentBytes"
  by (simp_all add: upload_of_fields_def)

lemma ingest_body_upload:
  assumes "rq_Header rq (ascii ''Content-Type'') = ascii ''application/json''"
    and "rq_Body rq = bytes_reader (json_text (ingest_body tn key src rep doc))"
    and "validText tn" "validText key" "validSource src"
    and rep: "rep = ''original'' \<or> rep = ''derived''" and "length doc \<le> 67108864"
  shows "upload_of_request rq = Inr (upload_of_fields tn key src rep doc)"
proof -
  have utf8: "utf8_valid tn" "utf8_valid key" "utf8_source src"
    using assms(3-5) validSource_utf8 by (simp_all add: validText_def)
  have r: "utf8_valid (ascii rep)" "length rep \<le> 256"
    "server_representation (ascii rep) = ((if rep = ''original'' then Original else Derived), True)"
    using rep server_representation_names by auto
  note dec = ingest_body_decodes [OF utf8 r(1), of doc]
  note len = length_ingest_body [OF assms(3-5) r(2) assms(7)]
  have "readJSON (dec_struct_strict ingestRequest_fields zero_ingestRequest) rq =
      Inr \<lparr>ir_Tenant = tn, ir_IdempotencyKey = key,
        ir_Source = \<lparr>sj_Instance = s_Instance src, sj_Object = s_Object src, sj_Version = s_Version src\<rparr>,
        ir_Representation = ascii rep, ir_DocumentBase64 = b64_encode doc\<rparr>"
    unfolding readJSON_Inr assms(1,2) ParseMediaType_json bytes_reader_sel
    by (intro conjI refl len dec)
  then show ?thesis
    using r(3) assms(7) by (simp add: upload_of_request_def upload_of_fields_def)
qed

text \<open>An ingest request that creates evidence, and its repetition.\<close>

lemma ingest_creates:
  assumes "bolt_laws B" and "reachable B d" and "accepting B" and "others B between1" and "others B between2"
    and "rq_Method rq = ascii ''POST''" and "rq_Path rq = [ascii ''v1'', ascii ''ingest'']"
    and "rq_Header rq (ascii ''Content-Type'') = ascii ''application/json''"
    and "rq_Body rq = bytes_reader (json_text (ingest_body tn key src rep doc))"
    and "validText tn" and "validText key" and "validSource src"
    and "rep = ''original'' \<or> rep = ''derived''" and "length doc \<le> 67108864"
    and "\<forall>d0 \<in> {d, between1 d}. source_located (tenant_view B d0 tn) key src
      (if rep = ''original'' then Original else Derived) = None"
    and "fresh_id (v_evidence (tenant_view B (between1 d) tn)) raw"
    and "v_seq (tenant_view B (between1 d) tn) + 1 \<noteq> 0"
  obtains e d' where "HandlerWithStore B between1 between2 rq (d, Inr nonce # Inr raw # rnd, x) =
      (ingest_response e True, (d', rnd, x))"
    "e_Source e = src" "w_DocumentDigest (e_Witness e) = sha256 doc"
    "HandlerWithStore B between1 between2 rq (d', rnd, x) = (ingest_response e False, (d', rnd, x))"
    "upload_of_request rq = Inr (upload_of_fields tn key src rep doc)"
proof -
  let ?req = "upload_of_fields tn key src rep doc"
  note up = ingest_body_upload [OF assms(8-14)]
  note ok = bolt_laws.reachable_ok [OF assms(1,2)]
  have val: "valid_upload ?req" using assms(10-12) by (simp add: valid_upload_def)
  have h: "hashDocument (d_Document ?req) (d_MaxBytes ?req) = Inr (sha256 doc)"
    using assms(14) by (simp add: hashDocument_eq_Inr)
  obtain e d' where run: "IngestDocument B between1 between2 ?req d (Inr nonce # Inr raw # rnd) =
      (Inr (e, True), d', rnd)" "held (tenant_view B d' tn) ?req e" "w_DocumentDigest (e_Witness e) = sha256 doc"
    using bolt_laws.IngestDocument_creates [OF assms(1) ok assms(3) val assms(4) h] assms(15-17) by fastforce
  note sound = bolt_laws.IngestDocument_sound [OF assms(1) ok assms(4,5) run(1)]
  have ok': "store_ok B d'" using bolt_laws.store_run_ok [OF assms(1) _ ok] sound by blast
  have again: "IngestDocument B between1 between2 ?req d' rnd = (Inr (e, False), d', rnd)"
    using bolt_laws.IngestDocument_replay [OF assms(1) ok' assms(3) val h] run(2,3) by simp
  have handle: "HandlerWithStore B between1 between2 rq s =
      (case store_upload B between1 between2 ?req s of
         (Inl err, s) \<Rightarrow> (writeStorageError err, s) | (Inr (ev, c), s) \<Rightarrow> (ingest_response ev c, s))" for s
    unfolding HandlerWithStore_def route_ingest [OF assms(7)] requireMethod_same [OF assms(6)] ingest_handler_eq up
      store_engine_sel by simp
  have "e_Source e = src" using sound by simp
  then show thesis
    using run(3) up by (intro that [of e d']) (simp_all add: handle store_upload_def run(1) again)
qed

text \<open>
  C25. Every document of up to 64 MiB can be ingested: a JSON request as a client writes it, with valid
  texts and source, for a source version and key that the tenant does not have, is answered with 201
  by a working store whose random bytes give a new identifier; the evidence is that of the document,
  and repeating the request is answered with 200 and the same evidence and changes nothing.
\<close>

theorem server_ingest_accepts:
  assumes "bolt_laws B" and "reachable B d" and "accepting B" and "others B between1" and "others B between2"
    and "rq_Method rq = ascii ''POST''" and "rq_Path rq = [ascii ''v1'', ascii ''ingest'']"
    and "rq_Header rq (ascii ''Content-Type'') = ascii ''application/json''"
    and "rq_Body rq = bytes_reader (json_text (ingest_body tn key src rep doc))"
    and "validText tn" and "validText key" and "validSource src"
    and "rep = ''original'' \<or> rep = ''derived''" and "length doc \<le> 67108864"
    and "\<forall>d0 \<in> {d, between1 d}. source_located (tenant_view B d0 tn) key src
      (if rep = ''original'' then Original else Derived) = None"
    and "fresh_id (v_evidence (tenant_view B (between1 d) tn)) raw"
    and "v_seq (tenant_view B (between1 d) tn) + 1 \<noteq> 0"
  shows "\<exists>e d'. HandlerWithStore B between1 between2 rq (d, Inr nonce # Inr raw # rnd, x) =
      (ingest_response e True, (d', rnd, x)) \<and>
    e_Source e = src \<and> w_DocumentDigest (e_Witness e) = sha256 doc \<and>
    HandlerWithStore B between1 between2 rq (d', rnd, x) = (ingest_response e False, (d', rnd, x))"
  using ingest_creates [OF assms, of nonce rnd x] by metis

text \<open>A concrete request, and the state after it.\<close>

definition sample_post :: http_request where
  "sample_post = \<lparr>rq_Method = ascii ''POST'', rq_Path = [ascii ''v1'', ascii ''ingest''],
     rq_Query = (\<lambda>_. []), rq_Header = (\<lambda>_. ascii ''application/json''),
     rq_Body = bytes_reader (json_text (ingest_body (ascii ''t'') (ascii ''k'') (i_Source sample_request) ''original'' [1]))\<rparr>"

abbreviation "sample_server \<equiv> HandlerWithStore mem_bolt (\<lambda>d. d) (\<lambda>d. d) :: (memory \<times> entropy \<times> unit) handler"

lemma sample_post_sel:
  "rq_Method sample_post = ascii ''POST''" "rq_Path sample_post = [ascii ''v1'', ascii ''ingest'']"
  "rq_Header sample_post h = ascii ''application/json''"
  "rq_Body sample_post = bytes_reader (json_text
     (ingest_body (ascii ''t'') (ascii ''k'') (i_Source sample_request) ''original'' [1]))"
  by (simp_all add: sample_post_def)

lemma sample_texts: "validText (ascii ''t'')" "validText (ascii ''k'')" "validSource (i_Source sample_request)"
  by (simp_all add: validText_def validSource_def sample_request_def)

lemma sample_empty:
  assumes "tenant_view mem_bolt d0 (ascii ''t'') = empty_view"
  shows "source_located (tenant_view mem_bolt d0 (ascii ''t'')) k src r = None"
    "fresh_id (v_evidence (tenant_view mem_bolt d0 (ascii ''t''))) sample_raw"
    "v_seq (tenant_view mem_bolt d0 (ascii ''t'')) + 1 \<noteq> 0"
  using sample_fresh unfolding assms by (simp_all add: source_located_def empty_view_def)

theorem server_ingest_accepts_witness:
  "\<exists>d e d'. sample_server sample_post (d, [Inr [3], Inr sample_raw], ()) = (ingest_response e True, (d', [], ())) \<and>
     w_DocumentDigest (e_Witness e) = sha256 [1] \<and>
     sample_server sample_post (d', [], ()) = (ingest_response e False, (d', [], ()))"
proof -
  obtain d0 where d0: "reachable mem_bolt d0" "\<And>n. tenant_view mem_bolt d0 n = empty_view"
    using sample_open by metis
  show ?thesis
    using server_ingest_accepts [OF memory.bolt_laws_axioms d0(1) memory_accepting others_id others_id sample_post_sel
        sample_texts, of sample_raw "[3]" "[]" "()"] sample_empty [OF d0(2)] by auto
qed

lemma sample_served_from:
  assumes "reachable mem_bolt d" and "\<And>n. tenant_view mem_bolt d n = empty_view"
  obtains e d' where
    "sample_server sample_post (d, [Inr [3], Inr sample_raw], ()) = (ingest_response e True, (d', [], ()))"
    "sample_server sample_post (d', [], ()) = (ingest_response e False, (d', [], ()))"
    "upload_of_request sample_post =
      Inr (upload_of_fields (ascii ''t'') (ascii ''k'') (i_Source sample_request) ''original'' [1])"
  by (rule ingest_creates [OF memory.bolt_laws_axioms assms(1) memory_accepting others_id others_id sample_post_sel
        sample_texts, of sample_raw "[3]" "[]" "()"])
    (use sample_empty [OF assms(2)] that in auto)

lemma sample_served:
  obtains d e d' where "reachable mem_bolt d"
    "sample_server sample_post (d, [Inr [3], Inr sample_raw], ()) = (ingest_response e True, (d', [], ()))"
    "sample_server sample_post (d', [], ()) = (ingest_response e False, (d', [], ()))"
    "upload_of_request sample_post =
      Inr (upload_of_fields (ascii ''t'') (ascii ''k'') (i_Source sample_request) ''original'' [1])"
proof -
  obtain d0 where d0: "reachable mem_bolt d0" "\<And>n. tenant_view mem_bolt d0 n = empty_view"
    using sample_open by metis
  show thesis by (rule sample_served_from [OF d0]) (rule that [OF d0(1)])
qed

theorem server_ingest_captures_witness:
  "\<exists>s rs s' e. sample_server sample_post s = (rs, s') \<and> rs = ingest_response e True \<and>
     w_DocumentDigest (e_Witness e) = sha256 [1]"
proof -
  obtain d e d' where run: "reachable mem_bolt d"
    "sample_server sample_post (d, [Inr [3], Inr sample_raw], ()) = (ingest_response e True, (d', [], ()))"
    by (rule sample_served)
  let ?s = "(d, [Inr [3], Inr sample_raw], ())"
  from server_ingest_captures [OF memory.bolt_laws_axioms _ others_id others_id sample_post_sel(2) run(2)] run(1)
  obtain req doc e' where r: "Option.bind (json_parse (content (rq_Body sample_post)))
      (dec_struct_strict ingestRequest_fields zero_ingestRequest) = Some req"
    "b64_decode_strict (ir_DocumentBase64 req) = Some doc" "ingest_response e True = ingest_response e' True"
    "w_DocumentDigest (e_Witness e') = sha256 doc"
    by auto
  have "utf8_valid (ascii ''t'')" "utf8_valid (ascii ''k'')" "utf8_source (i_Source sample_request)"
    using sample_texts validSource_utf8 by (simp_all add: validText_def)
  from ingest_body_decodes [OF this server_representation_names(3), of "[1]"] have "doc = [1]"
    using r(1,2) by (auto simp: sample_post_sel simp del: ascii_Cons b64_encode.simps)
  then have "w_DocumentDigest (e_Witness e') = sha256 [1]" using r(4) by simp
  then show ?thesis using run(2) r(3) by blast
qed

theorem server_ingest_idempotent_witness:
  "\<exists>s s1 s2 rs rs'. sample_server sample_post s = (rs, s1) \<and> rs_Status rs = 201 \<and>
     sample_server sample_post s1 = (rs', s2) \<and> rs_Status rs' = 200"
proof -
  obtain d e d' where run: "reachable mem_bolt d"
    "sample_server sample_post (d, [Inr [3], Inr sample_raw], ()) = (ingest_response e True, (d', [], ()))"
    "sample_server sample_post (d', [], ()) = (ingest_response e False, (d', [], ()))"
    "upload_of_request sample_post =
      Inr (upload_of_fields (ascii ''t'') (ascii ''k'') (i_Source sample_request) ''original'' [1])"
    by (rule sample_served)
  have "rs_Status (ingest_response e False) = 200"
    using server_ingest_idempotent [OF memory.bolt_laws_axioms _ others_id others_id sample_post_sel(2,2) run(2) _ _
        run(3) _ run(4,4)] run(1) by (simp add: run_nil)
  then show ?thesis using run(2,3) by fastforce
qed

theorem server_state_change_witness:
  "\<exists>s rs s'. sample_server sample_post s = (rs, s') \<and> s' \<noteq> s \<and> rq_Method sample_post = ascii ''POST''"
proof -
  obtain d e d' where run:
    "sample_server sample_post (d, [Inr [3], Inr sample_raw], ()) = (ingest_response e True, (d', [], ()))"
    by (rule sample_served)
  have "(d', [], ()) \<noteq> (d, [Inr [3], Inr sample_raw], ())" by simp
  from server_state_change [OF run [unfolded HandlerWithStore_def] this] run show ?thesis by fastforce
qed


definition sample_get :: "gostring list \<Rightarrow> http_request" where
  "sample_get path = \<lparr>rq_Method = ascii ''GET'', rq_Path = path, rq_Query = (\<lambda>_. ascii ''t''),
     rq_Header = (\<lambda>_. []), rq_Body = bytes_reader []\<rparr>"

lemma sample_get_sel:
  "rq_Method (sample_get p) = ascii ''GET''" "rq_Path (sample_get p) = p" "rq_Query (sample_get p) q = ascii ''t''"
  by (simp_all add: sample_get_def)

theorem server_reads_answered_witness:
  "\<exists>s rs. sample_server (sample_get [ascii ''v1'', ascii ''outbox'']) s = (rs, s) \<and> rs_Status rs \<noteq> 500"
proof -
  obtain d where d: "reachable mem_bolt d" by (rule sample_freeze)
  have "rq_Method (sample_get [ascii ''v1'', ascii ''outbox'']) \<noteq> ascii ''POST''" by (simp add: sample_get_sel)
  from server_reads_answered [OF memory.bolt_laws_axioms _ this, of "(d, [], ())"] d
  show ?thesis using accepting_simps(1) [OF memory_accepting] by fastforce
qed

theorem server_export_exact_witness:
  "\<exists>s i rs. sample_server (sample_get [ascii ''v1'', ascii ''evidence'', i, ascii ''package'']) s = (rs, s) \<and>
     rs_Status rs = 200 \<and>
     IntegrityVerified (Verify_package (Some (bytes_reader [1])) (Some (bytes_reader (rs_Body rs))) 9)"
proof -
  obtain e and b :: frozen_batch and d2 where d: "e_Witness e = fst (sample_evidence ! 0)" "reachable mem_bolt d2"
    "v_evidence (tenant_view mem_bolt d2 (ascii ''t'')) (e_ID e) = Inr (bound_to (f_ID b) 0 e)"
    "validID (f_ID b)" "validID (e_ID e)"
    by (rule sample_freeze)
  have h: "hashDocument (Some (bytes_reader [1])) 9 = Inr (w_DocumentDigest (e_Witness e))"
    by (simp add: d(1) sample_evidence_def hashDocument_eq_Inr max_int64_def)
  have b: "e_BatchID (bound_to (f_ID b) 0 e) \<noteq> []" using validID_nonempty [OF d(4)] by simp
  from server_export_exact [OF memory.bolt_laws_axioms _ memory_accepting sample_get_sel(1,2)
      validID_nonempty [OF d(5)] sample_get_sel(3), of "(d2, [], ())" "\<lambda>d. d" "\<lambda>d. d"]
  obtain rs where rs: "sample_server (sample_get [ascii ''v1'', ascii ''evidence'', e_ID e, ascii ''package''])
      (d2, [], ()) = (rs, (d2, [], ()))"
    "rs = package_response (rs_Body rs)"
    "IntegrityVerified (Verify_package (Some (bytes_reader [1])) (Some (bytes_reader (rs_Body rs))) 9)"
    using d b h sample_texts(1) by (auto simp del: ascii_Cons)
  have "rs_Status rs = 200" by (subst rs(2)) (simp add: package_response_def)
  then show ?thesis using rs by blast
qed

theorem server_document_exports_witness:
  "\<exists>s s1 e rq rs. sample_server sample_post s = (ingest_response e True, s1) \<and>
     rq_Method rq = ascii ''GET'' \<and> sample_server rq s1 = (rs, s1) \<and> rs_Status rs \<in> {200, 409}"
proof -
  obtain d e d' where run: "reachable mem_bolt d"
    "sample_server sample_post (d, [Inr [3], Inr sample_raw], ()) = (ingest_response e True, (d', [], ()))"
    "upload_of_request sample_post =
      Inr (upload_of_fields (ascii ''t'') (ascii ''k'') (i_Source sample_request) ''original'' [1])"
    by (rule sample_served)
  obtain req e' c where r: "Option.bind (json_parse (content (rq_Body sample_post)))
      (dec_struct_strict ingestRequest_fields zero_ingestRequest) = Some req"
    "ingest_response e True = ingest_response e' c"
    "\<forall>rq'. rq_Method rq' = ascii ''GET'' \<longrightarrow>
       rq_Path rq' = [ascii ''v1'', ascii ''evidence'', e_ID e', ascii ''package''] \<longrightarrow>
       rq_Query rq' (ascii ''tenant'') = ir_Tenant req \<longrightarrow>
       (\<exists>rs'. sample_server rq' (d', [], ()) = (rs', (d', [], ())) \<and>
         (rs' = errorJSON 409 ''not_batched'' ''evidence has no frozen batch yet'' \<or> rs_Status rs' = 200))"
    using server_document_exports [OF memory.bolt_laws_axioms _ memory_accepting others_id others_id
        sample_post_sel(2) run(2), of "(d', [], ())"] run(1) by (auto simp: run_nil simp del: ascii_Cons) blast
  have "utf8_valid (ascii ''t'')" "utf8_valid (ascii ''k'')" "utf8_source (i_Source sample_request)"
    using sample_texts validSource_utf8 by (simp_all add: validText_def)
  from ingest_body_decodes [OF this server_representation_names(3), of "[1]"] have "ir_Tenant req = ascii ''t''"
    using r(1) by (auto simp: sample_post_sel simp del: ascii_Cons)
  then obtain rs where "sample_server (sample_get [ascii ''v1'', ascii ''evidence'', e_ID e', ascii ''package'']) (d', [], ()) =
      (rs, (d', [], ()))"
    "rs = errorJSON 409 ''not_batched'' ''evidence has no frozen batch yet'' \<or> rs_Status rs = 200"
    using r(3) sample_get_sel by metis
  then show ?thesis using run(2) sample_get_sel(1) by fastforce
qed

end
