(* ===== verification/Paperless_Webhook.thy ===== *)
theory Paperless_Webhook
  imports Paperless_Runner Go_Http
begin

text \<open>
  The webhook of the Paperless agent (\<^verbatim>\<open>integrations/paperless/agent/webhook.go\<close>): it
  authenticates a bounded body by HMAC-SHA256 with the operator's secret, decodes it strictly and
  hands the event to the runner. HMAC is computed from SHA-256. The lemmas say that nothing
  reaches the runner without the signature, and that a response of success is that of a captured
  event.
\<close>

section \<open>HMAC\<close>

text \<open>\<^verbatim>\<open>crypto/hmac\<close> over SHA-256, whose blocks have 64 bytes.\<close>

definition hmac_sha256 :: "bytes \<Rightarrow> bytes \<Rightarrow> bytes" where
  "hmac_sha256 key message =
     (let k = (if 64 < length key then b32_bytes (sha256 key) else key);
          block = k @ replicate (64 - length k) 0;
          ipad = map (\<lambda>b. xor b 0x36) block;
          opad = map (\<lambda>b. xor b 0x5C) block
      in b32_bytes (sha256 (opad @ b32_bytes (sha256 (ipad @ message)))))"

section \<open>The webhook\<close>

definition DefaultSignatureHeader :: gostring where
  "DefaultSignatureHeader = ascii ''X-SigmaProof-Signature''"

definition DefaultWebhookMaxBytes :: i64 where
  "DefaultWebhookMaxBytes = push_bit 10 64"

record 's webhook =
  wh_Runner :: "'s runner"
  wh_Secret :: bytes
  wh_SignatureHeader :: gostring
  wh_MaxBodyBytes :: i64

record webhook_payload =
  wp_Tenant :: gostring
  wp_Instance :: gostring
  wp_DocumentID :: gostring
  wp_Version :: gostring
  wp_EventID :: gostring
  wp_Representation :: gostring
  wp_ChangedFields :: "gostring list"

definition payload_fields :: "webhook_payload field_decoder list" where
  "payload_fields =
     [(ascii ''tenant'', \<lambda>x j. map_option (\<lambda>v. x\<lparr>wp_Tenant := v\<rparr>) (dec_string (wp_Tenant x) j)),
      (ascii ''instance'', \<lambda>x j. map_option (\<lambda>v. x\<lparr>wp_Instance := v\<rparr>) (dec_string (wp_Instance x) j)),
      (ascii ''document_id'',
        \<lambda>x j. map_option (\<lambda>v. x\<lparr>wp_DocumentID := v\<rparr>) (dec_string (wp_DocumentID x) j)),
      (ascii ''version'', \<lambda>x j. map_option (\<lambda>v. x\<lparr>wp_Version := v\<rparr>) (dec_string (wp_Version x) j)),
      (ascii ''event_id'', \<lambda>x j. map_option (\<lambda>v. x\<lparr>wp_EventID := v\<rparr>) (dec_string (wp_EventID x) j)),
      (ascii ''representation'',
        \<lambda>x j. map_option (\<lambda>v. x\<lparr>wp_Representation := v\<rparr>) (dec_string (wp_Representation x) j)),
      (ascii ''changed_fields'',
        \<lambda>x j. map_option (\<lambda>v. x\<lparr>wp_ChangedFields := v\<rparr>) (dec_strings_over (wp_ChangedFields x) j))]"

definition zero_payload :: webhook_payload where
  "zero_payload = \<lparr>wp_Tenant = [], wp_Instance = [], wp_DocumentID = [], wp_Version = [],
     wp_EventID = [], wp_Representation = [], wp_ChangedFields = []\<rparr>"

definition event_of_payload :: "webhook_payload \<Rightarrow> event" where
  "event_of_payload p = \<lparr>ev_Tenant = wp_Tenant p, ev_Instance = wp_Instance p,
     ev_DocumentID = wp_DocumentID p, ev_Version = wp_Version p, ev_EventID = wp_EventID p,
     ev_Representation = wp_Representation p, ev_ChangedFields = wp_ChangedFields p\<rparr>"

definition signatureHeader :: "gostring \<Rightarrow> gostring" where
  "signatureHeader value =
     (let value = trim_space value in if value = [] then DefaultSignatureHeader else value)"

definition trim_prefix :: "gostring \<Rightarrow> gostring \<Rightarrow> gostring" where
  "trim_prefix s prefix = (if take (length prefix) s = prefix then drop (length prefix) s else s)"

text \<open>\<open>get\<close> is \<^verbatim>\<open>Header.Get\<close> of the request; \<^verbatim>\<open>hmac.Equal\<close> compares the bytes.\<close>

definition validSignature :: "gostring \<Rightarrow> (gostring \<Rightarrow> gostring) \<Rightarrow> bytes \<Rightarrow> bytes \<Rightarrow> bool" where
  "validSignature header get body secret =
     (let got = trim_space (get header) in
      if got = [] then False
      else case hex_decode (trim_prefix got (ascii ''sha256='')) of
          None \<Rightarrow> False
        | Some signature \<Rightarrow> signature = hmac_sha256 secret body)"

definition Handle_webhook :: "'s webhook \<Rightarrow> http_request \<Rightarrow> 's \<Rightarrow> handled result \<times> 's" where
  "Handle_webhook w rq s =
     (if wh_Secret w = [] then (Inl (Sent ErrWebhookNotConfigured), s)
      else
        let maxBytes = (if wh_MaxBodyBytes w = 0 then DefaultWebhookMaxBytes else wh_MaxBodyBytes w) in
        if sint maxBytes < 0 then (Inl (Sent ErrWebhookNotConfigured), s)
        else case read_all (max_bytes_reader (rq_Body rq) maxBytes) of
            Inl _ \<Rightarrow> (Inl (Sent ErrWebhookBody), s)
          | Inr body \<Rightarrow>
              if \<not> validSignature (signatureHeader (wh_SignatureHeader w)) (rq_Header rq) body (wh_Secret w)
              then (Inl (Sent ErrWebhookSignature), s)
              else case decode_first (dec_struct_strict payload_fields zero_payload) (bytes_reader body) of
                  None \<Rightarrow> (Inl (Sent ErrWebhookBody), s)
                | Some (payload, rest) \<Rightarrow>
                    if \<not> decode_ends rest (bytes_reader body) then (Inl (Sent ErrWebhookBody), s)
                    else Handle (wh_Runner w) (event_of_payload payload) s)"

definition writeWebhookJSON :: "nat \<Rightarrow> json \<Rightarrow> http_response" where
  "writeWebhookJSON status j = \<lparr>rs_Status = status,
     rs_Header = [(ascii ''Content-Type'', ascii ''application/json'')], rs_Body = json_text j @ [10]\<rparr>"

definition ServeHTTP :: "'s webhook \<Rightarrow> http_request \<Rightarrow> 's \<Rightarrow> http_response \<times> 's" where
  "ServeHTTP w rq s =
     (if rq_Method rq \<noteq> ascii ''POST'' then
        let rs = writeWebhookJSON 405 (JObject [(ascii ''error'', JString (ascii ''method_not_allowed''))])
        in (rs\<lparr>rs_Header := (ascii ''Allow'', ascii ''POST'') # rs_Header rs\<rparr>, s)
      else case Handle_webhook w rq s of
          (Inl err, s) \<Rightarrow>
            let (status, code) =
              (if errors_is err ErrWebhookNotConfigured then (500, ''not_configured'')
               else if errors_is err ErrWebhookSignature then (401, ''invalid_signature'')
               else (400, ''invalid_request''))
            in (writeWebhookJSON status (JObject [(ascii ''error'', JString (ascii code))]), s)
        | (Inr result, s) \<Rightarrow>
            (writeWebhookJSON (if hr_Created result then 201 else 200) (JObject
               [(ascii ''created'', JBool (hr_Created result)),
                (ascii ''evidence_id'', JString (hr_EvidenceID result)),
                (ascii ''reason'', JString (pl_Reason (hr_Plan result))),
                (ascii ''skipped'', JBool (hr_Skipped result))]), s))"

section \<open>Runs of the webhook\<close>

text \<open>What a webhook request that reached the runner was.\<close>

lemma Handle_webhook_reached:
  assumes "Handle_webhook w rq s = (res, s')" and "s' \<noteq> s \<or> (\<exists>h. res = Inr h)"
  obtains p where "wh_Secret w \<noteq> []" "ending (rq_Body rq) = Eof"
    "int (length (content (rq_Body rq))) \<le>
       sint (if wh_MaxBodyBytes w = 0 then DefaultWebhookMaxBytes else wh_MaxBodyBytes w)"
    "validSignature (signatureHeader (wh_SignatureHeader w)) (rq_Header rq) (content (rq_Body rq)) (wh_Secret w)"
    "Option.bind (json_parse (content (rq_Body rq))) (dec_struct_strict payload_fields zero_payload) = Some p"
    "Handle (wh_Runner w) (event_of_payload p) s = (res, s')"
proof -
  let ?max = "if wh_MaxBodyBytes w = 0 then DefaultWebhookMaxBytes else wh_MaxBodyBytes w"
  let ?body = "max_bytes_reader (rq_Body rq) ?max"
  have c: "wh_Secret w \<noteq> []" "\<not> sint ?max < 0"
    using assms by (auto simp: Handle_webhook_def Let_def split: if_splits)
  note run = assms(1) [unfolded Handle_webhook_def if_not_P [OF c(1)] Let_def if_not_P [OF c(2)]]
  obtain body where body: "read_all ?body = Inr body"
    using run assms(2) by (cases "read_all ?body") auto
  note B = body [unfolded read_all_Inr]
  have len: "ending (rq_Body rq) = Eof" "length (content (rq_Body rq)) \<le> nat (sint ?max)"
    "body = content (rq_Body rq)"
    using max_bytes_reader_Eof [of "rq_Body rq" ?max] B by auto
  note run' = run [unfolded body sum.case len(3)]
  have sig: "validSignature (signatureHeader (wh_SignatureHeader w)) (rq_Header rq) (content (rq_Body rq)) (wh_Secret w)"
    using run' assms(2) by (auto split: if_splits)
  obtain p rest where dec: "decode_first (dec_struct_strict payload_fields zero_payload)
      (bytes_reader (content (rq_Body rq))) = Some (p, rest)"
    "decode_ends rest (bytes_reader (content (rq_Body rq)))"
    using run' assms(2) sig by (auto split: option.splits if_splits)
  then have "Option.bind (json_parse (content (rq_Body rq))) (dec_struct_strict payload_fields zero_payload) = Some p"
    using decode_body [of "dec_struct_strict payload_fields zero_payload" "bytes_reader (content (rq_Body rq))" p]
    by auto
  moreover have "Handle (wh_Runner w) (event_of_payload p) s = (res, s')"
    using run' sig dec by simp
  moreover have "int (length (content (rq_Body rq))) \<le> sint ?max" using len(2) c(2) by linarith
  ultimately show thesis using that c(1) len(1) sig by blast
qed

definition webhook_response :: "handled \<Rightarrow> http_response" where
  "webhook_response h = writeWebhookJSON (if hr_Created h then 201 else 200) (JObject
     [(ascii ''created'', JBool (hr_Created h)), (ascii ''evidence_id'', JString (hr_EvidenceID h)),
      (ascii ''reason'', JString (pl_Reason (hr_Plan h))), (ascii ''skipped'', JBool (hr_Skipped h))])"

lemma writeWebhookJSON_status [simp]: "rs_Status (writeWebhookJSON n j) = n"
  by (simp add: writeWebhookJSON_def)

lemma ServeHTTP_cases:
  assumes "ServeHTTP w rq s = (rs, s')"
  obtains (bad_method) "rq_Method rq \<noteq> ascii ''POST''" "rs_Status rs = 405" "s' = s"
  | (refused) err where "rq_Method rq = ascii ''POST''" "Handle_webhook w rq s = (Inl err, s')"
      "rs_Status rs \<in> {400, 401, 500}"
  | (handled) h where "rq_Method rq = ascii ''POST''" "Handle_webhook w rq s = (Inr h, s')"
      "rs = webhook_response h"
proof (cases "rq_Method rq = ascii ''POST''")
  case False
  then have "rs_Status rs = 405" "s' = s" using assms by (auto simp: ServeHTTP_def Let_def)
  with False bad_method show thesis by blast
next
  case True
  note run = assms [unfolded ServeHTTP_def, simplified True, simplified]
  obtain res t where h: "Handle_webhook w rq s = (res, t)" by (cases "Handle_webhook w rq s")
  show thesis
  proof (cases res)
    case (Inl err)
    show thesis
      by (rule refused [OF True, of err]) (use run Inl h in \<open>auto simp: Let_def split: if_splits\<close>)
  next
    case (Inr x)
    then show thesis using run h handled [OF True, of x] by (simp add: webhook_response_def)
  qed
qed

end
