(* ===== verification/Paperless_Webhook_Props.thy ===== *)
theory Paperless_Webhook_Props
  imports Paperless_Webhook Paperless_Props
begin

text \<open>
  What the Paperless webhook promises: only a request signed with the secret reaches the runner, a
  response of success is that of a captured event, and a later reconciliation finds what the
  webhook has captured.
\<close>

section \<open>Authentication\<close>

text \<open>
  C9. Only who knows the secret reaches the runner: a webhook request that changes anything or is
  answered with 200 or 201 was a POST, the operator has set a secret, the configured header carries
  in hexadecimal the HMAC-SHA256 of exactly the body under this secret, the body was within the
  limit and is one JSON value with known members only, and what happened is what the runner did
  with the event of this value.
\<close>

theorem webhook_authenticates:
  assumes "ServeHTTP w rq s = (rs, s')" and "s' \<noteq> s \<or> rs_Status rs = 200 \<or> rs_Status rs = 201"
  shows "rq_Method rq = ascii ''POST'' \<and> wh_Secret w \<noteq> [] \<and>
    int (length (content (rq_Body rq))) \<le>
      sint (if wh_MaxBodyBytes w = 0 then DefaultWebhookMaxBytes else wh_MaxBodyBytes w) \<and>
    hex_decode (trim_prefix (trim_space (rq_Header rq (signatureHeader (wh_SignatureHeader w)))) (ascii ''sha256='')) =
      Some (hmac_sha256 (wh_Secret w) (content (rq_Body rq))) \<and>
    (\<exists>p. Option.bind (json_parse (content (rq_Body rq))) (dec_struct_strict payload_fields zero_payload) = Some p \<and>
      snd (Handle (wh_Runner w) (event_of_payload p) s) = s')"
proof -
  obtain res where res: "rq_Method rq = ascii ''POST''" "Handle_webhook w rq s = (res, s')"
    "s' \<noteq> s \<or> (\<exists>h. res = Inr h)"
    using assms(1)
  proof (cases rule: ServeHTTP_cases)
    case bad_method
    then show thesis using assms(2) by simp
  next
    case (refused err)
    then show thesis using assms(2) that by auto
  next
    case (handled h)
    then show thesis using that by blast
  qed
  show ?thesis
  proof (rule Handle_webhook_reached [OF res(2,3)], goal_cases)
    case (1 p)
    have "hex_decode (trim_prefix (trim_space (rq_Header rq (signatureHeader (wh_SignatureHeader w)))) (ascii ''sha256='')) =
      Some (hmac_sha256 (wh_Secret w) (content (rq_Body rq)))"
      using 1(4) by (auto simp: validSignature_def Let_def simp del: ascii_Cons split: if_splits option.splits)
    then show ?case using 1 res(1) by (intro conjI exI [of _ p]) simp_all
  qed
qed


section \<open>Capturing\<close>

text \<open>
  C31. A webhook response of success is truthful: it either reports a skipped event, which only names
  evidence fields, and then nothing has changed, or the store holds the evidence named in the
  response, for the tenant of the payload, under the source and representation of its event, with
  the digest of the bytes that the fetcher delivered for it within the runner's limit.
\<close>

theorem webhook_captures:
  assumes "bolt_laws B" and "reachable B (fst s)" and "others B between1" and "others B between2"
    and "steady (\<lambda>s s'. store_run B (fst s) (fst s')) (wh_Runner w)"
    and "rn_Ingester (wh_Runner w) = Some (store_upload B between1 between2)"
    and "ServeHTTP w rq s = (rs, s')" and "rs_Status rs = 200 \<or> rs_Status rs = 201"
  shows "\<exists>p h. Option.bind (json_parse (content (rq_Body rq))) (dec_struct_strict payload_fields zero_payload) = Some p \<and>
    rs = webhook_response h \<and>
    (if hr_Skipped h then s' = s \<and> writebackOnly (wp_ChangedFields p) (rn_EvidenceFields (wh_Runner w))
     else \<exists>fetch fetched s1 doc e. rn_Fetcher (wh_Runner w) = Some fetch \<and>
       fetch (request_of_event (event_of_payload p)) s = (Inr fetched, s1) \<and>
       fr_Document fetched = Some doc \<and> int (length (content doc)) \<le> sint (runner_limit (wh_Runner w)) \<and>
       v_evidence (tenant_view B (fst s') (wp_Tenant p)) (hr_EvidenceID h) = Inr e \<and>
       e_Source e = source_of_event (event_of_payload p) \<and>
       w_Representation (e_Witness e) = representation_of_event (event_of_payload p) \<and>
       w_DocumentDigest (e_Witness e) = sha256 (content doc))"
proof -
  note contract = store_contract [OF assms(1,3,4)]
  have ok: "store_ok B (fst s)" by (rule bolt_laws.reachable_ok [OF assms(1,2)])
  obtain h where h: "Handle_webhook w rq s = (Inr h, s')" "rs = webhook_response h"
    using assms(7) by (cases rule: ServeHTTP_cases) (use assms(8) in auto)
  show ?thesis
  proof (rule Handle_webhook_reached [OF h(1)], goal_cases)
    case (2 p)
    note run = 2(6)
    show ?case
    proof (cases "hr_Skipped h")
      case True
      have "s' = s \<and> writebackOnly (wp_ChangedFields p) (rn_EvidenceFields (wh_Runner w))"
        using run by (cases rule: Handle_Inr) (use True in \<open>simp_all add: event_of_payload_def\<close>)
      then show ?thesis using 2(5) h(2) True by (intro exI [of _ p] exI [of _ h]) simp
    next
      case False
      have t: "ev_Tenant (event_of_payload p) = wp_Tenant p" by (simp add: event_of_payload_def)
      from document_ingester.Handle_stored [OF contract ok assms(5,6) run False]
      show ?thesis using 2(5) h(2) False unfolding t by (intro exI [of _ p] exI [of _ h]) auto
    qed
  qed blast
qed

text \<open>
  Webhook and reconciliation agree: when the webhook has handled an event and a later pass of a
  reconciliation over the same store reports evidence for an event of the same tenant and source
  version, it is the evidence that the webhook reported, and the pass has not created it.
\<close>

theorem webhook_reconcile_agree:
  fixes s s1 s2 s3 :: "'d \<times> entropy \<times> 'x"
  assumes "bolt_laws B" and "reachable B (fst s)" and "others B between1" and "others B between2"
    and "\<forall>r \<in> {wh_Runner w, rc_Runner c}. steady (\<lambda>s s'. store_run B (fst s) (fst s')) r \<and>
      rn_Ingester r = Some (store_upload B between1 between2)"
    and "\<forall>f limit t evs t'. rc_Source c = Some f \<longrightarrow> f limit t = (evs, t') \<longrightarrow> store_run B (fst t) (fst t')"
    and "Handle_webhook w rq s = (Inr h, s1)" and "\<not> hr_Skipped h"
    and "Option.bind (json_parse (content (rq_Body rq))) (dec_struct_strict payload_fields zero_payload) = Some p"
    and "store_run B (fst s1) (fst s2)"
    and "Reconcile c s2 = (Inr report, s3)" and "j < length (rr_Items report)"
    and "it_EvidenceID (rr_Items report ! j) \<noteq> []"
    and "ev_Tenant (it_Event (rr_Items report ! j)) = wp_Tenant p"
    and "source_of_event (it_Event (rr_Items report ! j)) = source_of_event (event_of_payload p)"
  shows "it_EvidenceID (rr_Items report ! j) = hr_EvidenceID h \<and> \<not> it_Created (rr_Items report ! j)"
proof -
  note contract = store_contract [OF assms(1,3,4)]
  have ok: "store_ok B (fst s)" by (rule bolt_laws.reachable_ok [OF assms(1,2)])
  have run: "Handle (wh_Runner w) (event_of_payload p) s = (Inr h, s1)"
    by (rule Handle_webhook_reached [OF assms(7)]) (use assms(9) in auto)
  have st: "steady (\<lambda>s s'. store_run B (fst s) (fst s')) (wh_Runner w)"
    "steady (\<lambda>s s'. store_run B (fst s) (fst s')) (rc_Runner c)"
    and up: "rn_Ingester (wh_Runner w) = Some (store_upload B between1 between2)"
    "rn_Ingester (rc_Runner c) = Some (store_upload B between1 between2)"
    using assms(5) by simp_all
  obtain u u' h' where u: "store_run B (fst s2) (fst u)"
    "Handle (rc_Runner c) (it_Event (rr_Items report ! j)) u = (Inr h', u')" "\<not> hr_Skipped h'"
    "it_EvidenceID (rr_Items report ! j) = hr_EvidenceID h'" "it_Created (rr_Items report ! j) = hr_Created h'"
    using document_ingester.reported_run [OF contract st(2) up(2) assms(6,11,12,13)] by metis
  have "store_run B (fst s1) (fst u)" using run_trans [OF u(1) assms(10)] .
  from document_ingester.Handle_again [OF contract ok st up run assms(8) this u(2,3)]
  have "hr_EvidenceID h' = hr_EvidenceID h \<and> \<not> hr_Created h'"
    using assms(14,15) by (simp add: event_of_payload_def)
  then show ?thesis using u(4,5) by simp
qed


section \<open>Witnesses\<close>

definition sample_payload :: json where
  "sample_payload = JObject
     [(ascii ''tenant'', JString (ascii ''t'')), (ascii ''instance'', JString (ascii ''i'')),
      (ascii ''document_id'', JString (ascii ''1'')), (ascii ''version'', JString (ascii ''v'')),
      (ascii ''event_id'', JString (ascii ''e'')), (ascii ''representation'', JString OriginalUpload)]"

definition sample_webhook :: "(memory \<times> entropy \<times> unit) webhook" where
  "sample_webhook = \<lparr>wh_Runner = sample_runner [], wh_Secret = [1], wh_SignatureHeader = [], wh_MaxBodyBytes = 0\<rparr>"

definition sample_hook :: http_request where
  "sample_hook = \<lparr>rq_Method = ascii ''POST'', rq_Path = [], rq_Query = (\<lambda>_. []),
     rq_Header = (\<lambda>_. ascii ''sha256='' @ hex_encode (hmac_sha256 [1] (json_text sample_payload))),
     rq_Body = bytes_reader (json_text sample_payload)\<rparr>"

lemma sample_payload_decodes:
  "\<exists>p. Option.bind (json_parse (json_text sample_payload)) (dec_struct_strict payload_fields zero_payload) = Some p \<and>
     event_of_payload p = sample_event"
proof -
  have "json_ok max_nesting sample_payload"
    by (simp add: sample_payload_def max_nesting_def ascii_utf8 representation_consts del: ascii_Cons)
  then show ?thesis
    by (simp add: json_parse_text)
      (simp add: sample_payload_def payload_fields_def zero_payload_def fold_name.simps(2)
        event_of_payload_def sample_event_def)
qed

lemma length_sample_payload: "length (json_text sample_payload) \<le> 65536"
proof -
  have q: "length (quote (ascii x)) \<le> 2 + 6 * length x" for x
    using length_quote [of "ascii x"] by simp
  show ?thesis
    using q [of "''tenant''"] q [of "''instance''"] q [of "''document_id''"] q [of "''version''"] q [of "''event_id''"]
      q [of "''representation''"] q [of "''t''"] q [of "''i''"] q [of "''1''"] q [of "''v''"] q [of "''e''"] q [of "''original''"]
    by (simp add: sample_payload_def OriginalUpload_def del: ascii_Cons)
qed

lemma hex_signature:
  "trim_space (ascii ''sha256='' @ hex_encode bs) = ascii ''sha256='' @ hex_encode bs"
proof (rule trim_space_plain)
  fix c assume c: "c \<in> set (ascii ''sha256='' @ hex_encode bs)"
  have dig: "\<forall>n \<in> set [0..<16]. 32 < hex_digit n \<and> hex_digit n < 127"
    by (simp add: upt_rec hex_digit_def)
  have "32 < x \<and> x < 127" if "x \<in> set (hex_encode bs)" for x
    using that
  proof (induction bs)
    case (Cons b bs)
    have "unat b < 256" using unsigned_less [of b, where ?'a = nat] by simp
    then have "unat b div 16 < 16" "unat b mod 16 < 16" by simp_all
    then have "32 < hex_digit (unat b div 16) \<and> hex_digit (unat b div 16) < 127"
      "32 < hex_digit (unat b mod 16) \<and> hex_digit (unat b mod 16) < 127" using dig by simp_all
    with Cons show ?case by auto
  qed simp
  with c show "32 < c \<and> c < 127" by auto
qed

lemma sample_hook_handled: "Handle_webhook sample_webhook sample_hook s = Handle (sample_runner []) sample_event s"
proof -
  have sig: "validSignature h (rq_Header sample_hook) (json_text sample_payload) [1]" for h
    by (simp add: validSignature_def sample_hook_def hex_signature trim_prefix_def Let_def del: ascii_Cons)
      (simp add: ascii_def)
  have lim: "sint DefaultWebhookMaxBytes = 65536" by (simp add: DefaultWebhookMaxBytes_def)
  have body: "read_all (max_bytes_reader (rq_Body sample_hook) DefaultWebhookMaxBytes) = Inr (json_text sample_payload)"
    using length_sample_payload by (simp add: read_all_def max_bytes_reader_def sample_hook_def lim)
  obtain p where p: "Option.bind (json_parse (json_text sample_payload)) (dec_struct_strict payload_fields zero_payload) = Some p"
    "event_of_payload p = sample_event"
    using sample_payload_decodes by blast
  then obtain rest where "decode_first (dec_struct_strict payload_fields zero_payload)
      (bytes_reader (json_text sample_payload)) = Some (p, rest)"
    "decode_ends rest (bytes_reader (json_text sample_payload))"
    using decode_body [of "dec_struct_strict payload_fields zero_payload" "bytes_reader (json_text sample_payload)" p]
    by auto
  then show ?thesis
    using sig lim body p(2) by (simp add: Handle_webhook_def sample_webhook_def Let_def)
qed

lemma sample_hook_served:
  obtains d h d1 where "reachable mem_bolt d" "\<not> hr_Skipped h"
    "Handle_webhook sample_webhook sample_hook (d, [Inr [3], Inr sample_raw], ()) = (Inr h, (d1, [], ()))"
    "ServeHTTP sample_webhook sample_hook (d, [Inr [3], Inr sample_raw], ()) = (webhook_response h, (d1, [], ()))"
    "\<exists>h'. Handle (sample_runner []) sample_event (d1, [], ()) = (Inr h', (d1, [], ())) \<and> hr_EvidenceID h' \<noteq> []"
proof -
  obtain d0 h d1 h' where h: "reachable mem_bolt d0"
    "Handle (sample_runner []) sample_event (d0, [Inr [3], Inr sample_raw], ()) = (Inr h, (d1, [], ()))"
    "\<not> hr_Skipped h"
    "Handle (sample_runner []) sample_event (d1, [], ()) = (Inr h', (d1, [], ()))" "hr_EvidenceID h' \<noteq> []"
    by (rule sample_handle)
  have "rq_Method sample_hook = ascii ''POST''" by (simp add: sample_hook_def)
  then have "ServeHTTP sample_webhook sample_hook (d0, [Inr [3], Inr sample_raw], ()) = (webhook_response h, (d1, [], ()))"
    by (simp add: ServeHTTP_def sample_hook_handled h(2) webhook_response_def)
  with h that show thesis by (simp add: sample_hook_handled)
qed

lemma webhook_response_status: "rs_Status (webhook_response h) = 200 \<or> rs_Status (webhook_response h) = 201"
  by (simp add: webhook_response_def)

lemma sample_hook_body: "rq_Body sample_hook = bytes_reader (json_text sample_payload)"
  by (simp add: sample_hook_def)

theorem webhook_authenticates_witness:
  "\<exists>s rs s'. ServeHTTP sample_webhook sample_hook s = (rs, s') \<and> s' \<noteq> s \<and>
     (\<exists>sig. hex_decode sig = Some (hmac_sha256 [1] (json_text sample_payload)))"
proof -
  obtain d h d1 where run: "ServeHTTP sample_webhook sample_hook (d, [Inr [3], Inr sample_raw], ()) =
      (webhook_response h, (d1, [], ()))"
    by (rule sample_hook_served)
  have "wh_Secret sample_webhook = [1]" by (simp add: sample_webhook_def)
  with webhook_authenticates [OF run] run webhook_response_status [of h] show ?thesis
    unfolding sample_hook_body bytes_reader_sel by fastforce
qed

theorem webhook_captures_witness:
  "\<exists>s h s'. ServeHTTP sample_webhook sample_hook s = (webhook_response h, s') \<and>
     (\<exists>p. Option.bind (json_parse (json_text sample_payload)) (dec_struct_strict payload_fields zero_payload) = Some p)"
proof -
  obtain d h d1 where run: "reachable mem_bolt d"
    "ServeHTTP sample_webhook sample_hook (d, [Inr [3], Inr sample_raw], ()) = (webhook_response h, (d1, [], ()))"
    by (rule sample_hook_served)
  have w: "wh_Runner sample_webhook = sample_runner []" by (simp add: sample_webhook_def)
  have up: "rn_Ingester (sample_runner []) = Some (store_upload mem_bolt (\<lambda>d. d) (\<lambda>d. d))"
    by (simp add: sample_runner_def)
  from webhook_captures [OF memory.bolt_laws_axioms _ others_id others_id _ _ run(2) webhook_response_status,
      unfolded w, OF _ sample_runner_steady up] run
  show ?thesis unfolding sample_hook_body bytes_reader_sel by fastforce
qed

theorem webhook_reconcile_agree_witness:
  "\<exists>s h s1 report s2. Handle_webhook sample_webhook sample_hook s = (Inr h, s1) \<and>
     Reconcile sample_reconciler s1 = (Inr report, s2) \<and>
     it_EvidenceID (rr_Items report ! 0) = hr_EvidenceID h \<and> \<not> it_Created (rr_Items report ! 0)"
proof -
  obtain d h d1 h' where run: "reachable mem_bolt d" "\<not> hr_Skipped h"
    "Handle_webhook sample_webhook sample_hook (d, [Inr [3], Inr sample_raw], ()) = (Inr h, (d1, [], ()))"
    "Handle (sample_runner []) sample_event (d1, [], ()) = (Inr h', (d1, [], ()))" "hr_EvidenceID h' \<noteq> []"
    by (rule sample_hook_served) blast
  obtain report where r: "Reconcile sample_reconciler (d1, [], ()) = (Inr report, (d1, [], ()))"
    "rr_Items report = [item_of sample_event (Inr h')]"
    using sample_reconcile [OF run(4)] by blast
  obtain p where p: "Option.bind (json_parse (json_text sample_payload)) (dec_struct_strict payload_fields zero_payload) = Some p"
    "event_of_payload p = sample_event"
    using sample_payload_decodes by blast
  have t: "ev_Tenant sample_event = wp_Tenant p" using arg_cong [OF p(2), of ev_Tenant] by (simp add: event_of_payload_def)
  have ups: "rn_Ingester (sample_runner []) = Some (store_upload mem_bolt (\<lambda>d. d) (\<lambda>d. d))"
    by (simp add: sample_runner_def)
  have w: "wh_Runner sample_webhook = sample_runner []" by (simp add: sample_webhook_def)
  have "it_EvidenceID (rr_Items report ! 0) = hr_EvidenceID h \<and> \<not> it_Created (rr_Items report ! 0)"
    by (rule webhook_reconcile_agree [OF memory.bolt_laws_axioms _ others_id others_id _ _ run(3,2) _ _ r(1)])
      (use run(1,5) sample_runner_steady ups p t in
        \<open>auto simp: r(2) w sample_reconciler_sel item_of_def run_nil sample_hook_body\<close>)
  then show ?thesis using run(3) r(1) by blast
qed

end
