(* ===== verification/Md5.thy ===== *)
theory Md5
  imports Sha256
begin

text \<open>
  The hash function of Go's \<^verbatim>\<open>crypto/md5\<close>, written after RFC 1321. The program compares it with
  the checksum that Paperless reports for an archive; nothing relies on its strength.
\<close>

definition md5_K :: "u32 list" where
  "md5_K =
    [3614090360, 3905402710, 606105819, 3250441966, 4118548399, 1200080426,
     2821735955, 4249261313, 1770035416, 2336552879, 4294925233, 2304563134,
     1804603682, 4254626195, 2792965006, 1236535329, 4129170786, 3225465664,
     643717713, 3921069994, 3593408605, 38016083, 3634488961, 3889429448,
     568446438, 3275163606, 4107603335, 1163531501, 2850285829, 4243563512,
     1735328473, 2368359562, 4294588738, 2272392833, 1839030562, 4259657740,
     2763975236, 1272893353, 4139469664, 3200236656, 681279174, 3936430074,
     3572445317, 76029189, 3654602809, 3873151461, 530742520, 3299628645,
     4096336452, 1126891415, 2878612391, 4237533241, 1700485571, 2399980690,
     4293915773, 2240044497, 1873313359, 4264355552, 2734768916, 1309151649,
     4149444226, 3174756917, 718787259, 3951481745]"

text \<open>The shift amounts, a row of four for each of the four passes of sixteen steps.\<close>

definition md5_shifts :: "nat list" where
  "md5_shifts = concat (map (\<lambda>r. concat (replicate 4 r))
     [[7, 12, 17, 22], [5, 9, 14, 20], [4, 11, 16, 23], [6, 10, 15, 21]])"

definition rotl :: "nat \<Rightarrow> u32 \<Rightarrow> u32" where
  "rotl n x = push_bit n x OR drop_bit (32 - n) x"

definition le_word_bytes :: "u32 \<Rightarrow> bytes" where
  "le_word_bytes w = rev (word_bytes w)"

fun le_words_of :: "bytes \<Rightarrow> u32 list" where
  "le_words_of (a # b # c # d # bs) = be_word d c b a # le_words_of bs"
| "le_words_of _ = []"

definition md5_pad :: "bytes \<Rightarrow> bytes" where
  "md5_pad m = m @ [0x80] @ replicate ((119 - length m mod 64) mod 64) 0
     @ rev (be_bytes 8 (8 * length m))"

datatype md5_state = Md5_state u32 u32 u32 u32

definition md5_mix :: "nat \<Rightarrow> u32 \<Rightarrow> u32 \<Rightarrow> u32 \<Rightarrow> u32 \<times> nat" where
  "md5_mix i b c d =
     (if i < 16 then ((b AND c) OR (NOT b AND d), i)
      else if i < 32 then ((d AND b) OR (NOT d AND c), (5 * i + 1) mod 16)
      else if i < 48 then (b XOR c XOR d, (3 * i + 5) mod 16)
      else (c XOR (b OR NOT d), (7 * i) mod 16))"

fun md5_step :: "u32 list \<Rightarrow> md5_state \<Rightarrow> nat \<Rightarrow> md5_state" where
  "md5_step ws (Md5_state a b c d) i =
     (let (f, g) = md5_mix i b c d
      in Md5_state d (b + rotl (md5_shifts ! i) (f + a + md5_K ! i + ws ! g)) b c)"

fun md5_add :: "md5_state \<Rightarrow> md5_state \<Rightarrow> md5_state" where
  "md5_add (Md5_state a b c d) (Md5_state a' b' c' d') = Md5_state (a + a') (b + b') (c + c') (d + d')"

definition md5_block :: "md5_state \<Rightarrow> bytes \<Rightarrow> md5_state" where
  "md5_block s block = md5_add s (foldl (md5_step (le_words_of block)) s [0..<64])"

function md5_blocks :: "md5_state \<Rightarrow> bytes \<Rightarrow> md5_state" where
  "md5_blocks s bs =
     (if length bs < 64 then s else md5_blocks (md5_block s (take 64 bs)) (drop 64 bs))"
  by pat_completeness auto
termination
  by (relation "measure (\<lambda>(s, bs). length bs)") auto

declare md5_blocks.simps [simp del]

fun md5_digest :: "md5_state \<Rightarrow> bytes" where
  "md5_digest (Md5_state a b c d) = concat (map le_word_bytes [a, b, c, d])"

definition md5 :: "bytes \<Rightarrow> bytes" where
  "md5 m = md5_digest (md5_blocks (Md5_state 1732584193 4023233417 2562383102 271733878) (md5_pad m))"

lemma length_md5 [simp]: "length (md5 m) = 16"
  by (cases "md5_blocks (Md5_state 1732584193 4023233417 2562383102 271733878) (md5_pad m)")
    (simp add: md5_def le_word_bytes_def word_bytes_def)

end
