(* ===== verification/Paperless_Fetcher.thy ===== *)
theory Paperless_Fetcher
  imports Paperless_Runner Go_Http Md5
begin

text \<open>
  The HTTP fetcher of the Paperless agent (\<^verbatim>\<open>integrations/paperless/agent/http_fetcher.go\<close>): it
  downloads the selected representation of a document and returns it only if its SHA-256 digest is
  the version asked for. The HTTP client and \<^verbatim>\<open>url.Parse\<close> are parameters: the client is a function
  on the state \<open>'s\<close> of the world, the parsed base URL a field of the fetcher. The lemmas say what a
  successful fetch has checked and that a refused one has not sent anything.
\<close>

section \<open>The client\<close>

text \<open>A parsed URL as far as it is inspected, and \<^verbatim>\<open>base.JoinPath\<close> of some elements with a query.\<close>

record url =
  url_Scheme :: gostring
  url_Host :: gostring
  url_Path :: gostring
  url_RawQuery :: gostring
  url_Fragment :: gostring
  url_User :: bool

record client_request =
  cq_Base :: url
  cq_JoinPath :: "gostring list"
  cq_RawQuery :: gostring
  cq_Header :: "(gostring \<times> gostring) list"

record 's client_response =
  cs_StatusCode :: int
  cs_Body :: reader
  cs_Close :: "'s \<Rightarrow> 's"

type_synonym 's client = "client_request \<Rightarrow> 's \<Rightarrow> 's client_response result \<times> 's"

text \<open>
  \<^verbatim>\<open>Client\<close> is what \<^verbatim>\<open>Do\<close> of the configured or default client does, with the errors of
  \<^verbatim>\<open>http.NewRequest\<close>; \<open>hf_BaseURL\<close> is what \<^verbatim>\<open>url.Parse\<close> makes of the configured text.
\<close>

record 's http_fetcher =
  hf_BaseURL :: "url option"
  hf_Token :: gostring
  hf_APIVersion :: gostring
  hf_Client :: "'s client"
  hf_MaxBytes :: i64

section \<open>The fetcher\<close>

definition status_text :: "int \<Rightarrow> string" where
  "status_text n = ''status '' @ (if n < 0 then ''-'' else []) @
     map (\<lambda>c. char_of (unat c)) (decimal (nat \<bar>n\<bar>))"

definition getBytes :: "'s http_fetcher \<Rightarrow> url \<Rightarrow> gostring list \<Rightarrow> gostring \<Rightarrow> i64 \<Rightarrow> 's \<Rightarrow> bytes result \<times> 's" where
  "getBytes f base path query maxBytes s =
     (case hf_Client f \<lparr>cq_Base = base, cq_JoinPath = path, cq_RawQuery = query,
         cq_Header = [(ascii ''Authorization'', ascii ''Token '' @ hf_Token f),
           (ascii ''Accept'', ascii ''application/json; version=5'')]\<rparr> s of
        (Inl err, s) \<Rightarrow> (Inl err, s)
      | (Inr resp, s) \<Rightarrow>
          (if cs_StatusCode resp \<noteq> 200 then
             Inl (if cs_StatusCode resp = 401 \<or> cs_StatusCode resp = 403
                  then Wrap ErrFetchUnauthorized (status_text (cs_StatusCode resp))
                  else if cs_StatusCode resp = 404
                  then Wrap ErrFetchNotFound (status_text (cs_StatusCode resp))
                  else Wrap ErrFetchFailed (status_text (cs_StatusCode resp)))
           else boundedBytes (cs_Body resp) maxBytes, cs_Close resp s))"

text \<open>The metadata; \<^verbatim>\<open>HasArchiveVersion\<close> is a pointer.\<close>

record archive_meta =
  am_HasArchiveVersion :: "bool option"
  am_ArchiveChecksum :: gostring

definition dec_bool_pointer :: "json \<Rightarrow> bool option option" where
  "dec_bool_pointer j = (case j of JNull \<Rightarrow> Some None | JBool b \<Rightarrow> Some (Some b) | _ \<Rightarrow> None)"

definition archive_meta_fields :: "archive_meta field_decoder list" where
  "archive_meta_fields =
     [(ascii ''has_archive_version'',
        \<lambda>x j. map_option (\<lambda>v. x\<lparr>am_HasArchiveVersion := v\<rparr>) (dec_bool_pointer j)),
      (ascii ''archive_checksum'',
        \<lambda>x j. map_option (\<lambda>v. x\<lparr>am_ArchiveChecksum := v\<rparr>) (dec_string (am_ArchiveChecksum x) j))]"

definition unmarshal_archive_meta :: "bytes \<Rightarrow> archive_meta option" where
  "unmarshal_archive_meta data = Option.bind (json_parse data)
     (dec_struct archive_meta_fields \<lparr>am_HasArchiveVersion = None, am_ArchiveChecksum = []\<rparr>)"

definition archiveChecksum :: "'s http_fetcher \<Rightarrow> url \<Rightarrow> gostring \<Rightarrow> 's \<Rightarrow> gostring result \<times> 's" where
  "archiveChecksum f base ident s =
     (case getBytes f base [ascii ''api'', ascii ''documents'', ident, ascii ''metadata/'']
         (url_RawQuery base) (push_bit 20 1) s of
        (Inl err, s) \<Rightarrow> (Inl err, s)
      | (Inr data, s) \<Rightarrow>
          (case unmarshal_archive_meta data of
             None \<Rightarrow> Inl (Wrap ErrFetchFailed ''invalid archive metadata'')
           | Some meta \<Rightarrow>
               (case am_HasArchiveVersion meta of
                  None \<Rightarrow> Inl (Wrap ErrFetchFailed ''invalid archive metadata'')
                | Some has \<Rightarrow>
                    if \<not> has then Inl (Sent ErrArchiveMissing)
                    else case hex_decode (am_ArchiveChecksum meta) of
                        None \<Rightarrow> Inl (Wrap ErrFetchFailed ''invalid archive checksum'')
                      | Some checksum \<Rightarrow>
                          if length checksum \<noteq> 16
                            \<or> am_ArchiveChecksum meta \<noteq> ascii_lower (am_ArchiveChecksum meta)
                          then Inl (Wrap ErrFetchFailed ''invalid archive checksum'')
                          else Inr (am_ArchiveChecksum meta)), s))"

text \<open>\<^verbatim>\<open>strconv.ParseUint(id, 10, 64)\<close> succeeds with a positive number.\<close>

definition positive_id :: "gostring \<Rightarrow> bool" where
  "positive_id s = (case parse_uint s of None \<Rightarrow> False | Some n \<Rightarrow> 0 < n \<and> n < 2 ^ 64)"

definition Fetch :: "'s http_fetcher \<Rightarrow> 's fetcher" where
  "Fetch f req s =
     (let maxBytes = (if hf_MaxBytes f = 0 then DefaultMaxDocumentBytes else hf_MaxBytes f);
          apiVersion = trim_space (hf_APIVersion f) in
      if length (fq_Version req) \<noteq> 64 then (Inl (Sent ErrInvalidConfig), s)
      else if \<not> agent_validText (fq_Instance req) \<or> \<not> positive_id (fq_DocumentID req)
        \<or> hex_decode (fq_Version req) = None \<or> fq_Version req \<noteq> ascii_lower (fq_Version req)
        \<or> hf_Token f = []
      then (Inl (Sent ErrInvalidConfig), s)
      else if fq_Representation req \<noteq> OriginalUpload \<and> fq_Representation req \<noteq> ArchiveOutput
      then (Inl (Sent ErrInvalidConfig), s)
      else if apiVersion \<noteq> [] \<and> apiVersion \<noteq> ascii ''5'' then (Inl (Sent ErrInvalidConfig), s)
      else if sint maxBytes < 0 \<or> maxBytes = max_int64 then (Inl (Sent ErrInvalidConfig), s)
      else case hf_BaseURL f of
          None \<Rightarrow> (Inl (Sent ErrInvalidConfig), s)
        | Some base \<Rightarrow>
            if (url_Scheme base \<noteq> ascii ''http'' \<and> url_Scheme base \<noteq> ascii ''https'') \<or> url_Host base = []
              \<or> url_RawQuery base \<noteq> [] \<or> url_Fragment base \<noteq> [] \<or> url_User base
            then (Inl (Sent ErrInvalidConfig), s)
            else
              (case (if fq_Representation req = ArchiveOutput then archiveChecksum f base (fq_DocumentID req) s
                     else (Inr [], s)) of
                 (Inl err, s) \<Rightarrow> (Inl err, s)
               | (Inr checksum, s) \<Rightarrow>
                   (case getBytes f base [ascii ''api'', ascii ''documents'', fq_DocumentID req, ascii ''download/'']
                       (if fq_Representation req = OriginalUpload then ascii ''original=true'' else url_RawQuery base)
                       maxBytes s of
                      (Inl err, s) \<Rightarrow> (Inl err, s)
                    | (Inr data, s) \<Rightarrow>
                        let observed = hex_encode (b32_bytes (sha256 data));
                            fetched = \<lparr>fr_Version = observed, fr_Document = Some (bytes_reader data), fr_Close = None\<rparr> in
                        if observed \<noteq> fq_Version req then (Inl (Sent ErrVersionChanged), s)
                        else if fq_Representation req = ArchiveOutput then
                          if hex_encode (md5 data) \<noteq> checksum then (Inl (Sent ErrVersionChanged), s)
                          else (case archiveChecksum f base (fq_DocumentID req) s of
                              (Inl err, s) \<Rightarrow> (Inl err, s)
                            | (Inr after, s) \<Rightarrow>
                                if after \<noteq> checksum then (Inl (Sent ErrVersionChanged), s)
                                else (Inr fetched, s))
                        else (Inr fetched, s))))"


section \<open>What a fetch has checked\<close>

text \<open>The configuration and the request that the fetcher acts on.\<close>

definition fetch_limit :: "'s http_fetcher \<Rightarrow> i64" where
  "fetch_limit f = (if hf_MaxBytes f = 0 then DefaultMaxDocumentBytes else hf_MaxBytes f)"

definition fetchable :: "'s http_fetcher \<Rightarrow> fetch_request \<Rightarrow> url \<Rightarrow> bool" where
  "fetchable f req base \<longleftrightarrow>
     length (fq_Version req) = 64 \<and> hex_decode (fq_Version req) \<noteq> None \<and>
     fq_Version req = ascii_lower (fq_Version req) \<and>
     agent_validText (fq_Instance req) \<and> positive_id (fq_DocumentID req) \<and> hf_Token f \<noteq> [] \<and>
     (fq_Representation req = OriginalUpload \<or> fq_Representation req = ArchiveOutput) \<and>
     (trim_space (hf_APIVersion f) = [] \<or> trim_space (hf_APIVersion f) = ascii ''5'') \<and>
     0 \<le> sint (fetch_limit f) \<and> fetch_limit f \<noteq> max_int64 \<and> hf_BaseURL f = Some base \<and>
     (url_Scheme base = ascii ''http'' \<or> url_Scheme base = ascii ''https'') \<and> url_Host base \<noteq> [] \<and>
     url_RawQuery base = [] \<and> url_Fragment base = [] \<and> \<not> url_User base"

lemma Fetch_refused:
  assumes "\<nexists>base. fetchable f req base"
  shows "Fetch f req s = (Inl (Sent ErrInvalidConfig), s)"
  using assms unfolding Fetch_def Let_def fetch_limit_def [symmetric] fetchable_def
  by (cases "hf_BaseURL f") (auto simp del: ascii_Cons)

lemma Fetch_fetchable:
  assumes "fetchable f req base"
  shows "Fetch f req s =
    (case (if fq_Representation req = ArchiveOutput then archiveChecksum f base (fq_DocumentID req) s
           else (Inr [], s)) of
       (Inl err, s) \<Rightarrow> (Inl err, s)
     | (Inr checksum, s) \<Rightarrow>
         (case getBytes f base [ascii ''api'', ascii ''documents'', fq_DocumentID req, ascii ''download/'']
             (if fq_Representation req = OriginalUpload then ascii ''original=true'' else []) (fetch_limit f) s of
            (Inl err, s) \<Rightarrow> (Inl err, s)
          | (Inr data, s) \<Rightarrow>
              let observed = hex_encode (b32_bytes (sha256 data));
                  fetched = \<lparr>fr_Version = observed, fr_Document = Some (bytes_reader data), fr_Close = None\<rparr> in
              if observed \<noteq> fq_Version req then (Inl (Sent ErrVersionChanged), s)
              else if fq_Representation req = ArchiveOutput then
                if hex_encode (md5 data) \<noteq> checksum then (Inl (Sent ErrVersionChanged), s)
                else (case archiveChecksum f base (fq_DocumentID req) s of
                    (Inl err, s) \<Rightarrow> (Inl err, s)
                  | (Inr after, s) \<Rightarrow>
                      if after \<noteq> checksum then (Inl (Sent ErrVersionChanged), s)
                      else (Inr fetched, s))
              else (Inr fetched, s)))"
proof -
  note F = assms [unfolded fetchable_def]
  have g: "\<not> length (fq_Version req) \<noteq> 64"
    "\<not> (\<not> agent_validText (fq_Instance req) \<or> \<not> positive_id (fq_DocumentID req) \<or>
       hex_decode (fq_Version req) = None \<or> fq_Version req \<noteq> ascii_lower (fq_Version req) \<or> hf_Token f = [])"
    "\<not> (fq_Representation req \<noteq> OriginalUpload \<and> fq_Representation req \<noteq> ArchiveOutput)"
    "\<not> (trim_space (hf_APIVersion f) \<noteq> [] \<and> trim_space (hf_APIVersion f) \<noteq> ascii ''5'')"
    "\<not> (sint (fetch_limit f) < 0 \<or> fetch_limit f = max_int64)" "hf_BaseURL f = Some base"
    "\<not> ((url_Scheme base \<noteq> ascii ''http'' \<and> url_Scheme base \<noteq> ascii ''https'') \<or> url_Host base = [] \<or>
       url_RawQuery base \<noteq> [] \<or> url_Fragment base \<noteq> [] \<or> url_User base)"
    "url_RawQuery base = []"
    using F by (simp_all del: ascii_Cons)
  show ?thesis
    unfolding Fetch_def Let_def fetch_limit_def [symmetric] if_not_P [OF g(1)] if_not_P [OF g(2)] if_not_P [OF g(3)]
      if_not_P [OF g(4)] if_not_P [OF g(5)] g(6) option.case if_not_P [OF g(7)]
    unfolding g(8) ..
qed

lemma getBytes_Inr:
  assumes "getBytes f base path query maxBytes s = (Inr data, s')"
  obtains resp t where "hf_Client f \<lparr>cq_Base = base, cq_JoinPath = path, cq_RawQuery = query,
      cq_Header = [(ascii ''Authorization'', ascii ''Token '' @ hf_Token f),
        (ascii ''Accept'', ascii ''application/json; version=5'')]\<rparr> s = (Inr resp, t)"
    "cs_StatusCode resp = 200" "content (cs_Body resp) = data" "int (length data) \<le> sint maxBytes"
    "s' = cs_Close resp t"
  using assms by (auto simp: getBytes_def boundedBytes_Inr simp del: ascii_Cons split: prod.splits sum.splits if_splits)

text \<open>The two kinds of successful fetches.\<close>

lemma Fetch_Inr:
  assumes run: "Fetch f req s = (Inr fetched, s')"
  obtains (original) base data where "fetchable f req base" "fq_Representation req = OriginalUpload"
      "getBytes f base [ascii ''api'', ascii ''documents'', fq_DocumentID req, ascii ''download/'']
        (ascii ''original=true'') (fetch_limit f) s = (Inr data, s')"
      "hex_encode (b32_bytes (sha256 data)) = fq_Version req"
      "fetched = \<lparr>fr_Version = fq_Version req, fr_Document = Some (bytes_reader data), fr_Close = None\<rparr>"
  | (archive) base data s1 s2 where "fetchable f req base" "fq_Representation req = ArchiveOutput"
      "archiveChecksum f base (fq_DocumentID req) s = (Inr (hex_encode (md5 data)), s1)"
      "getBytes f base [ascii ''api'', ascii ''documents'', fq_DocumentID req, ascii ''download/''] []
        (fetch_limit f) s1 = (Inr data, s2)"
      "archiveChecksum f base (fq_DocumentID req) s2 = (Inr (hex_encode (md5 data)), s')"
      "hex_encode (b32_bytes (sha256 data)) = fq_Version req"
      "fetched = \<lparr>fr_Version = fq_Version req, fr_Document = Some (bytes_reader data), fr_Close = None\<rparr>"
proof -
  obtain base where base: "fetchable f req base" using run Fetch_refused [of f req s] by fastforce
  have rep: "fq_Representation req = OriginalUpload \<or> fq_Representation req = ArchiveOutput"
    using base by (simp add: fetchable_def)
  have distinct: "ArchiveOutput \<noteq> OriginalUpload" using representation_consts(1) by simp
  note run' = run [unfolded Fetch_fetchable [OF base]]
  show thesis
  proof (cases "fq_Representation req = ArchiveOutput")
    case False
    then have o: "fq_Representation req = OriginalUpload" using rep by blast
    note run2 = run' [unfolded if_not_P [OF False] if_P [OF o] prod.case sum.case]
    obtain data s1 where d: "getBytes f base
        [ascii ''api'', ascii ''documents'', fq_DocumentID req, ascii ''download/'']
        (ascii ''original=true'') (fetch_limit f) s = (Inr data, s1)"
      using run2 by (auto split: prod.splits sum.splits)
    note run3 = run2 [unfolded d prod.case sum.case Let_def]
    show thesis
      by (rule original [OF base o, of data]) (use run3 d in \<open>auto split: if_splits\<close>)
  next
    case True
    have no: "fq_Representation req \<noteq> OriginalUpload" using True distinct by simp
    note run2 = run' [unfolded if_P [OF True] if_not_P [OF no]]
    obtain checksum s1 where c: "archiveChecksum f base (fq_DocumentID req) s = (Inr checksum, s1)"
      using run2 by (auto split: prod.splits sum.splits)
    note run3 = run2 [unfolded c prod.case sum.case]
    obtain data s2 where d: "getBytes f base [ascii ''api'', ascii ''documents'', fq_DocumentID req, ascii ''download/'']
        [] (fetch_limit f) s1 = (Inr data, s2)"
      using run3 by (auto split: prod.splits sum.splits)
    note run4 = run3 [unfolded d prod.case sum.case Let_def]
    have v: "hex_encode (b32_bytes (sha256 data)) = fq_Version req" "hex_encode (md5 data) = checksum"
      using run4 by (auto split: if_splits)
    note run5 = run4 [unfolded v, simplified]
    obtain after s3 where a: "archiveChecksum f base (fq_DocumentID req) s2 = (Inr after, s3)"
      using run5 by (auto split: prod.splits sum.splits)
    have "after = checksum" "s3 = s'"
      "fetched = \<lparr>fr_Version = fq_Version req, fr_Document = Some (bytes_reader data), fr_Close = None\<rparr>"
      using run5 by (auto simp: a split: if_splits)
    with c d v a show thesis by (intro archive [OF base True, of data s1 s2]) simp_all
  qed
qed

end
