(* ===== verification/Paperless_Fetcher_Props.thy ===== *)
theory Paperless_Fetcher_Props
  imports Paperless_Fetcher Paperless_Props
begin

text \<open>
  What the HTTP fetcher guarantees: how an answer of the Paperless server becomes the outcome of a
  fetch, what a successful fetch has checked, and that evidence captured through it is evidence of
  exactly the bytes whose digest the event names.
\<close>

section \<open>The outcome of a fetch\<close>

text \<open>The request for the original upload, and the outcome that a status other than 200 has.\<close>

definition original_request :: "'s http_fetcher \<Rightarrow> url \<Rightarrow> gostring \<Rightarrow> client_request" where
  "original_request f base ident = \<lparr>cq_Base = base,
     cq_JoinPath = [ascii ''api'', ascii ''documents'', ident, ascii ''download/''],
     cq_RawQuery = ascii ''original=true'',
     cq_Header = [(ascii ''Authorization'', ascii ''Token '' @ hf_Token f),
       (ascii ''Accept'', ascii ''application/json; version=5'')]\<rparr>"

definition status_error :: "int \<Rightarrow> sentinel" where
  "status_error n = (if n = 401 \<or> n = 403 then ErrFetchUnauthorized
     else if n = 404 then ErrFetchNotFound else ErrFetchFailed)"

lemma Fetch_original:
  assumes "fetchable f req base" and "fq_Representation req = OriginalUpload"
  shows "Fetch f req s =
    (case getBytes f base [ascii ''api'', ascii ''documents'', fq_DocumentID req, ascii ''download/'']
        (ascii ''original=true'') (fetch_limit f) s of
       (Inl err, s) \<Rightarrow> (Inl err, s)
     | (Inr data, s) \<Rightarrow>
         (if hex_encode (b32_bytes (sha256 data)) \<noteq> fq_Version req then Inl (Sent ErrVersionChanged)
          else Inr \<lparr>fr_Version = fq_Version req, fr_Document = Some (bytes_reader data), fr_Close = None\<rparr>, s))"
proof -
  have no: "fq_Representation req \<noteq> ArchiveOutput" using assms(2) representation_consts(1) by simp
  show ?thesis
    unfolding Fetch_fetchable [OF assms(1)] if_not_P [OF no] if_P [OF assms(2)] prod.case sum.case Let_def
    by (auto split: prod.splits sum.splits)
qed

text \<open>
  C35. The outcome of a fetch of an original upload. A request or configuration that the fetcher
  does not accept is refused as invalid, and nothing is sent. Otherwise one request is sent, with the
  token, and its answer decides: a failed request fails the fetch; a status other than 200 is
  reported as unauthorized (401 and 403), not found (404) or failed; a body that cannot be read
  or is longer than the limit fails; a body whose SHA-256 digest is not the version asked for is a
  changed version; and any other body is the document, of that version. The body of an answer
  is closed in every case.
\<close>

theorem fetch_original_outcome:
  assumes "fq_Representation req = OriginalUpload"
  shows "((\<nexists>base. fetchable f req base) \<longrightarrow> Fetch f req s = (Inl (Sent ErrInvalidConfig), s)) \<and>
    (\<forall>base. fetchable f req base \<longrightarrow>
      (case hf_Client f (original_request f base (fq_DocumentID req)) s of
         (Inl err, s1) \<Rightarrow> Fetch f req s = (Inl err, s1)
       | (Inr resp, s1) \<Rightarrow>
           snd (Fetch f req s) = cs_Close resp s1 \<and>
           (if cs_StatusCode resp \<noteq> 200
            then \<exists>msg. fst (Fetch f req s) = Inl (Wrap (status_error (cs_StatusCode resp)) msg)
            else case boundedBytes (cs_Body resp) (fetch_limit f) of
                Inl err \<Rightarrow> fst (Fetch f req s) = Inl err
              | Inr data \<Rightarrow> fst (Fetch f req s) =
                  (if hex_encode (b32_bytes (sha256 data)) = fq_Version req
                   then Inr \<lparr>fr_Version = fq_Version req, fr_Document = Some (bytes_reader data), fr_Close = None\<rparr>
                   else Inl (Sent ErrVersionChanged)))))"
proof -
  have "case hf_Client f (original_request f base (fq_DocumentID req)) s of
         (Inl err, s1) \<Rightarrow> Fetch f req s = (Inl err, s1)
       | (Inr resp, s1) \<Rightarrow>
           snd (Fetch f req s) = cs_Close resp s1 \<and>
           (if cs_StatusCode resp \<noteq> 200
            then \<exists>msg. fst (Fetch f req s) = Inl (Wrap (status_error (cs_StatusCode resp)) msg)
            else case boundedBytes (cs_Body resp) (fetch_limit f) of
                Inl err \<Rightarrow> fst (Fetch f req s) = Inl err
              | Inr data \<Rightarrow> fst (Fetch f req s) =
                  (if hex_encode (b32_bytes (sha256 data)) = fq_Version req
                   then Inr \<lparr>fr_Version = fq_Version req, fr_Document = Some (bytes_reader data), fr_Close = None\<rparr>
                   else Inl (Sent ErrVersionChanged)))"
    if "fetchable f req base" for base
    unfolding Fetch_original [OF that assms] getBytes_def original_request_def [symmetric]
    by (auto simp: status_error_def split: prod.splits sum.splits)
  then show ?thesis using Fetch_refused [of f req s] by blast
qed

section \<open>What a successful fetch has checked\<close>

text \<open>
  C34. A successful fetch binds the version: the request was acceptable, and the document delivered is
  complete, no longer than the limit, of the version asked for, and its SHA-256 digest is what that
  version denotes. For an archive output, the metadata of the document named the MD5 digest of the
  same bytes, in one request before and in another one after the download.
\<close>

theorem fetch_binds_version:
  assumes "Fetch f req s = (Inr fetched, s')"
  shows "\<exists>base data. fetchable f req base \<and> fr_Version fetched = fq_Version req \<and>
    fr_Document fetched = Some (bytes_reader data) \<and> fr_Close fetched = None \<and>
    int (length data) \<le> sint (fetch_limit f) \<and>
    hex_decode (fq_Version req) = Some (b32_bytes (sha256 data)) \<and>
    (fq_Representation req = ArchiveOutput \<longrightarrow>
      (\<exists>s1 s2. archiveChecksum f base (fq_DocumentID req) s = (Inr (hex_encode (md5 data)), s1) \<and>
        archiveChecksum f base (fq_DocumentID req) s2 = (Inr (hex_encode (md5 data)), s')))"
  using assms
proof (cases rule: Fetch_Inr)
  case (original base data)
  then show ?thesis
    using representation_consts(1)
    by (intro exI [of _ base] exI [of _ data]) (auto simp: original(4) [symmetric] elim: getBytes_Inr)
next
  case (archive base data s1 s2)
  then show ?thesis
    by (intro exI [of _ base] exI [of _ data]) (auto simp: archive(6) [symmetric] elim!: getBytes_Inr)
qed

section \<open>Capturing through the fetcher\<close>

text \<open>A client that lets time pass, as all that the agent needs to know of it.\<close>

definition steady_client :: "('s \<Rightarrow> 's \<Rightarrow> bool) \<Rightarrow> 's client \<Rightarrow> bool" where
  "steady_client later client \<longleftrightarrow>
     (\<forall>rq s res s'. client rq s = (res, s') \<longrightarrow>
        later s s' \<and> (\<forall>resp t. res = Inr resp \<longrightarrow> later t (cs_Close resp t)))"

context document_ingester
begin

lemma getBytes_later:
  assumes st: "steady_client later (hf_Client f)" and run: "getBytes f base path query m s = (res, s')"
  shows "later s s'"
proof -
  have steady: "later s t" "res = Inr resp \<Longrightarrow> later u (cs_Close resp u)"
    if "hf_Client f q s = (res, t)" for q s res t resp u
    using st that unfolding steady_client_def by blast+
  have step: "later s (cs_Close resp t)" if "hf_Client f q s = (Inr resp, t)" for q resp t
    by (rule later_trans [OF steady(1) [OF that] steady(2) [OF that refl]])
  show ?thesis
    using run unfolding getBytes_def
    by (auto simp del: ascii_Cons split: prod.splits sum.splits dest: steady(1) step)
qed

lemma archiveChecksum_later:
  assumes "steady_client later (hf_Client f)" "archiveChecksum f base ident s = (res, s')"
  shows "later s s'"
  using assms(2) getBytes_later [OF assms(1)] unfolding archiveChecksum_def
  by (auto simp del: ascii_Cons split: prod.splits sum.splits)

lemma Fetch_later:
  assumes st: "steady_client later (hf_Client f)" and run: "Fetch f req s = (res, s')"
  shows "later s s'"
proof (cases "\<exists>base. fetchable f req base")
  case False
  then show ?thesis using Fetch_refused [of f req s] run later_refl by auto
next
  case True
  then obtain base where base: "fetchable f req base" by blast
  have start: "later s s1"
    if "(if fq_Representation req = ArchiveOutput then archiveChecksum f base (fq_DocumentID req) s
      else (Inr [], s)) = (r, s1)" for r s1
    using that archiveChecksum_later [OF st] later_refl by (auto split: if_splits)
  show ?thesis
    using run unfolding Fetch_fetchable [OF base] Let_def
    by (auto simp del: ascii_Cons dest!: start getBytes_later [OF st] archiveChecksum_later [OF st]
      intro: later_trans split: prod.splits sum.splits if_splits)
qed

lemma Fetch_steady:
  assumes "steady_client later (hf_Client f)" "rn_Fetcher r = Some (Fetch f)"
  shows "steady later r"
proof -
  have "fr_Close fetched = None" if "Fetch f req s = (Inr fetched, s')" for req s fetched s'
    using that by (cases rule: Fetch_Inr) simp_all
  then show ?thesis
    using Fetch_later [OF assms(1)] assms(2) by (fastforce simp: steady_def)
qed

end

text \<open>
  C10. Evidence captured over HTTP is of the version its event names: when the runner, fetching with
  the HTTP fetcher and uploading to the store, reports evidence for an event, the event's version
  is a SHA-256 digest in hexadecimal, the store holds the evidence for the tenant of the event, under its source
  and representation, and the digest in its witness is exactly that version. This holds whatever
  the Paperless server answers, and while other users commit any runs of the store.
\<close>

theorem http_capture_versioned:
  assumes "bolt_laws B" and "reachable B (fst s)" and "others B between1" and "others B between2"
    and "steady_client (\<lambda>s s'. store_run B (fst s) (fst s')) (hf_Client f)"
    and "rn_Fetcher r = Some (Fetch f)" and "rn_Ingester r = Some (store_upload B between1 between2)"
    and "Handle r ev s = (Inr h, s')" and "\<not> hr_Skipped h"
  shows "\<exists>e. v_evidence (tenant_view B (fst s') (ev_Tenant ev)) (hr_EvidenceID h) = Inr e \<and>
    e_Source e = source_of_event ev \<and>
    w_Representation (e_Witness e) = representation_of_event ev \<and>
    hex_decode (ev_Version ev) = Some (b32_bytes (w_DocumentDigest (e_Witness e)))"
proof -
  note contract = store_contract [OF assms(1,3,4)]
  have ok: "store_ok B (fst s)" by (rule bolt_laws.reachable_ok [OF assms(1,2)])
  note st = document_ingester.Fetch_steady [OF contract assms(5,6)]
  obtain fetched s1 doc e where run: "Fetch f (request_of_event ev) s = (Inr fetched, s1)"
    "fr_Document fetched = Some doc"
    and e: "v_evidence (tenant_view B (fst s') (ev_Tenant ev)) (hr_EvidenceID h) = Inr e"
    "e_Source e = source_of_event ev" "w_Representation (e_Witness e) = representation_of_event ev"
    "w_DocumentDigest (e_Witness e) = sha256 (content doc)"
    using document_ingester.Handle_stored [OF contract ok st assms(7-9)] assms(6) by auto
  obtain data where "fr_Document fetched = Some (bytes_reader data)"
    "hex_encode (b32_bytes (sha256 data)) = fq_Version (request_of_event ev)"
    using run(1) by (cases rule: Fetch_Inr) simp_all
  then have "hex_encode (b32_bytes (w_DocumentDigest (e_Witness e))) = ev_Version ev"
    using run(2) e(4) by (simp add: request_of_event_def)
  then show ?thesis using e(1-3) hex_decode_encode by metis
qed


section \<open>Witnesses\<close>

definition sample_version :: gostring where
  "sample_version = hex_encode (b32_bytes (sha256 [1]))"

definition sample_base :: url where
  "sample_base = \<lparr>url_Scheme = ascii ''http'', url_Host = ascii ''h'', url_Path = [], url_RawQuery = [],
     url_Fragment = [], url_User = False\<rparr>"

definition sample_fetcher :: "'s http_fetcher" where
  "sample_fetcher = \<lparr>hf_BaseURL = Some sample_base, hf_Token = [65], hf_APIVersion = [],
     hf_Client = (\<lambda>rq s. (Inr \<lparr>cs_StatusCode = 200, cs_Body = bytes_reader [1], cs_Close = (\<lambda>s. s)\<rparr>, s)),
     hf_MaxBytes = 9\<rparr>"

definition sample_http_event :: event where
  "sample_http_event = sample_event\<lparr>ev_Version := sample_version\<rparr>"

definition sample_http_runner :: "(memory \<times> entropy \<times> unit) runner" where
  "sample_http_runner = (sample_runner [])\<lparr>rn_Fetcher := Some (Fetch sample_fetcher)\<rparr>"

lemma ascii_lower_plain: "\<forall>c \<in> set s. c < 128 \<and> \<not> (65 \<le> c \<and> c \<le> 90) \<Longrightarrow> ascii_lower s = s"
proof (induction s)
  case (Cons c s)
  then have "c \<noteq> 0xC4" "c \<noteq> 0xE2" by auto
  with Cons show ?case by (simp add: ascii_lower.simps(2))
qed simp

lemma ascii_lower_hex: "ascii_lower (hex_encode bs) = hex_encode bs"
proof (rule ascii_lower_plain)
  show "\<forall>c \<in> set (hex_encode bs). c < 128 \<and> \<not> (65 \<le> c \<and> c \<le> 90)"
  proof (induction bs)
    case (Cons b bs)
    have dig: "\<forall>n \<in> set [0..<16]. hex_digit n < 128 \<and> \<not> (65 \<le> hex_digit n \<and> hex_digit n \<le> 90)"
      by (simp add: upt_rec hex_digit_def)
    have "unat b < 256" using unsigned_less [of b, where ?'a = nat] by simp
    then have "unat b div 16 < 16" "unat b mod 16 < 16" by simp_all
    with Cons dig show ?case by auto
  qed simp
qed

lemma sample_version_sel:
  "length sample_version = 64" "hex_decode sample_version = Some (b32_bytes (sha256 [1]))"
  "ascii_lower sample_version = sample_version"
  by (simp_all add: sample_version_def ascii_lower_hex)

lemma sample_original:
  "request_of_event sample_http_event = \<lparr>fq_Instance = ascii ''i'', fq_DocumentID = ascii ''1'',
     fq_Version = sample_version, fq_Representation = OriginalUpload\<rparr>"
  by (simp add: request_of_event_def sample_http_event_def sample_event_def)

lemma sample_fetch_limit [simp]: "fetch_limit sample_fetcher = 9"
  by (simp add: fetch_limit_def sample_fetcher_def)

lemma sample_fetchable: "fetchable sample_fetcher (request_of_event sample_http_event) sample_base"
proof -
  have "trim_space [] = []" by (rule trim_space_plain) simp
  moreover have "positive_id (ascii ''1'')"
    by (simp add: positive_id_def parse_uint_def is_digit_def decimal_value_def)
  moreover have "agent_validText (ascii ''i'')" by (simp add: agent_validText_eq validText_def)
  moreover have "9 \<noteq> max_int64" by (simp add: max_int64_def)
  ultimately show ?thesis
    unfolding fetchable_def sample_original sample_fetch_limit
    by (simp add: sample_version_sel sample_fetcher_def sample_base_def del: ascii_Cons)
      (simp add: ascii_def)
qed

lemma sample_fetch: "Fetch sample_fetcher (request_of_event sample_http_event) s =
  (Inr \<lparr>fr_Version = sample_version, fr_Document = Some (bytes_reader [1]), fr_Close = None\<rparr>, s)"
proof -
  have "fq_Representation (request_of_event sample_http_event) = OriginalUpload" by (simp add: sample_original)
  note F = Fetch_original [OF sample_fetchable this]
  have "getBytes sample_fetcher base path query 9 s = (Inr [1], s)" for base path query
    by (simp add: getBytes_def sample_fetcher_def boundedBytes_Inr max_int64_def)
  then show ?thesis
    unfolding F sample_fetch_limit by (simp add: sample_original sample_version_def del: ascii_Cons)
qed

lemma sample_http_runner_sel:
  "rn_Fetcher sample_http_runner = Some (Fetch sample_fetcher)"
  "rn_Ingester sample_http_runner = Some (store_upload mem_bolt (\<lambda>d. d) (\<lambda>d. d))"
  "runner_limit sample_http_runner = 9"
  by (simp_all add: sample_http_runner_def sample_runner_def runner_limit_def)

lemma sample_http_capture:
  obtains d0 h d1 where "reachable mem_bolt d0" "\<not> hr_Skipped h"
    "Handle sample_http_runner sample_http_event (d0, [Inr [3], Inr sample_raw], ()) = (Inr h, (d1, [], ()))"
proof -
  have "length sample_version = 64" "0 \<notin> set sample_version" "utf8_valid sample_version"
    using hex_encode_ascii [of "b32_bytes (sha256 [1])"]
    by (auto simp: sample_version_def intro: utf8_valid_ascii)
  then have "validText sample_version" by (simp add: validText_def)
  moreover have "ev_Version sample_http_event = sample_version" "ev_Tenant sample_http_event = ascii ''t''"
    "ev_Instance sample_http_event = ascii ''i''" "ev_DocumentID sample_http_event = ascii ''1''"
    "ev_EventID sample_http_event = ascii ''e''" "ev_Representation sample_http_event = OriginalUpload"
    "ev_ChangedFields sample_http_event = []"
    by (simp_all add: sample_http_event_def sample_event_def)
  moreover have "validText (ascii ''t'')" "validText (ascii ''i'')" "validText (ascii ''1'')" "validText (ascii ''e'')"
    by (simp_all add: validText_def)
  moreover have "length OriginalUpload = 8" by (simp add: OriginalUpload_def)
  ultimately have acc: "acceptable sample_http_event" "\<not> writebackOnly (ev_ChangedFields sample_http_event) fs" for fs
    by (simp_all add: acceptable_def writebackOnly_def sample_version_sel(1) del: ascii_Cons)
  have "sample_version = ev_Version sample_http_event" by (simp add: sample_http_event_def)
  then show thesis
    using sample_capture [OF acc sample_http_runner_sel(1) sample_fetch _ sample_http_runner_sel(2,3)] that by metis
qed

lemma sample_client_steady:
  "steady_client (\<lambda>s s'. store_run mem_bolt (fst s) (fst s')) (hf_Client sample_fetcher)"
  by (auto simp: steady_client_def sample_fetcher_def run_nil)

theorem fetch_original_outcome_witness:
  "Fetch sample_fetcher (request_of_event (sample_http_event\<lparr>ev_DocumentID := ascii ''0''\<rparr>)) () =
     (Inl (Sent ErrInvalidConfig), ())"
proof -
  let ?req = "request_of_event (sample_http_event\<lparr>ev_DocumentID := ascii ''0''\<rparr>)"
  have req: "fq_Representation ?req = OriginalUpload" "fq_DocumentID ?req = ascii ''0''"
    by (simp_all add: request_of_event_def sample_http_event_def sample_event_def)
  have "\<not> positive_id (ascii ''0'')"
    by (simp add: positive_id_def parse_uint_def is_digit_def decimal_value_def)
  then have "\<nexists>base. fetchable sample_fetcher ?req base" by (simp add: fetchable_def req(2) del: ascii_Cons)
  then show ?thesis using fetch_original_outcome [OF req(1), of sample_fetcher "()"] by blast
qed

theorem fetch_binds_version_witness:
  "\<exists>fetched. Fetch sample_fetcher (request_of_event sample_http_event) () = (Inr fetched, ()) \<and>
     fr_Version fetched = sample_version"
  using fetch_binds_version [OF sample_fetch [of "()"]] sample_fetch [of "()"] by (simp add: sample_original)

theorem http_capture_versioned_witness:
  "\<exists>s h s' e. Handle sample_http_runner sample_http_event s = (Inr h, s') \<and>
     v_evidence (tenant_view mem_bolt (fst s') (ascii ''t'')) (hr_EvidenceID h) = Inr e \<and>
     hex_decode sample_version = Some (b32_bytes (w_DocumentDigest (e_Witness e)))"
proof -
  obtain d0 h d1 where run: "reachable mem_bolt d0" "\<not> hr_Skipped h"
    "Handle sample_http_runner sample_http_event (d0, [Inr [3], Inr sample_raw], ()) = (Inr h, (d1, [], ()))"
    by (rule sample_http_capture)
  have ev: "ev_Tenant sample_http_event = ascii ''t''" "ev_Version sample_http_event = sample_version"
    by (simp_all add: sample_http_event_def sample_event_def)
  from http_capture_versioned [OF memory.bolt_laws_axioms _ others_id others_id sample_client_steady
      sample_http_runner_sel(1,2) run(3,2)] run(1) ev
  have "\<exists>e. v_evidence (tenant_view mem_bolt d1 (ascii ''t'')) (hr_EvidenceID h) = Inr e \<and>
     hex_decode sample_version = Some (b32_bytes (w_DocumentDigest (e_Witness e)))"
    by auto
  then show ?thesis using run(3) by (intro exI [of _ "(d0, [Inr [3], Inr sample_raw], ())"]) auto
qed

end
