(* ===== verification/Go_Flag.thy ===== *)
theory Go_Flag
  imports Go_Json_Values
begin

text \<open>
  What the command line interface uses of the packages \<^verbatim>\<open>flag\<close>, \<^verbatim>\<open>strconv\<close> and \<^verbatim>\<open>path/filepath\<close>:
  a flag set that parses the arguments up to the first one that is not a flag, \<^verbatim>\<open>ParseBool\<close>,
  \<^verbatim>\<open>ParseInt(s, 0, 64)\<close>, and \<^verbatim>\<open>filepath.Dir\<close> of a Unix path.
\<close>

section \<open>Values\<close>

definition ParseBool :: "gostring \<Rightarrow> bool option" where
  "ParseBool s =
     (if s \<in> set (map ascii [''1'', ''t'', ''T'', ''TRUE'', ''true'', ''True'']) then Some True
      else if s \<in> set (map ascii [''0'', ''f'', ''F'', ''FALSE'', ''false'', ''False'']) then Some False
      else None)"

text \<open>The digits of a number: the value of one, the base a prefix selects, and the rest.\<close>

definition digit_of :: "u8 \<Rightarrow> nat option" where
  "digit_of c =
     (if 48 \<le> c \<and> c \<le> 57 then Some (unat c - 48)
      else if 97 \<le> or c 32 \<and> or c 32 \<le> 122 then Some (unat (or c 32) - 97 + 10)
      else None)"

definition number_base :: "gostring \<Rightarrow> nat \<times> gostring" where
  "number_base s =
     (case s of
        [] \<Rightarrow> (10, s)
      | c # cs \<Rightarrow>
          if c \<noteq> 48 then (10, s)
          else if 3 \<le> length s \<and> or (hd cs) 32 = 98 then (2, tl cs)
          else if 3 \<le> length s \<and> or (hd cs) 32 = 111 then (8, tl cs)
          else if 3 \<le> length s \<and> or (hd cs) 32 = 120 then (16, tl cs)
          else (8, cs))"

text \<open>
  Underscores must follow a digit or the base prefix and be followed by a digit; the first argument
  is the last character seen, of class \<open>48\<close> for a digit, \<open>95\<close> for an underscore, else other.
\<close>

fun underscores_ok :: "bool \<Rightarrow> u8 \<Rightarrow> gostring \<Rightarrow> bool" where
  "underscores_ok hex seen [] = (seen \<noteq> 95)"
| "underscores_ok hex seen (c # cs) =
     (if (48 \<le> c \<and> c \<le> 57) \<or> (hex \<and> 97 \<le> or c 32 \<and> or c 32 \<le> 102) then underscores_ok hex 48 cs
      else if c = 95 then seen = 48 \<and> underscores_ok hex 95 cs
      else seen \<noteq> 95 \<and> underscores_ok hex 33 cs)"

definition underscoreOK :: "gostring \<Rightarrow> bool" where
  "underscoreOK s =
     (if 2 \<le> length s \<and> hd s = 48 \<and> or (s ! 1) 32 \<in> {98, 111, 120}
      then underscores_ok (or (s ! 1) 32 = 120) 48 (drop 2 s)
      else underscores_ok False 94 s)"

definition parse_uint_base0 :: "gostring \<Rightarrow> nat option" where
  "parse_uint_base0 s =
     (if s = [] then None
      else let (base, digits) = number_base s;
               plain = filter (\<lambda>c. c \<noteq> 95) digits;
               n = foldl (\<lambda>a c. a * base + the (digit_of c)) 0 plain in
        if \<not> list_all (\<lambda>c. case digit_of c of None \<Rightarrow> False | Some d \<Rightarrow> d < base) plain \<or> 2 ^ 64 \<le> n
        then None
        else if 95 \<in> set digits \<and> \<not> underscoreOK s then None
        else Some n)"

definition ParseInt_base0 :: "gostring \<Rightarrow> i64 option" where
  "ParseInt_base0 s =
     (case s of
        [] \<Rightarrow> None
      | c # cs \<Rightarrow>
          if c = 45 then
            (case parse_uint_base0 cs of
               None \<Rightarrow> None
             | Some n \<Rightarrow> if n \<le> 2 ^ 63 then Some (- of_nat n) else None)
          else
            (case parse_uint_base0 (if c = 43 then cs else s) of
               None \<Rightarrow> None
             | Some n \<Rightarrow> if n < 2 ^ 63 then Some (of_nat n) else None))"

section \<open>Flag sets\<close>

text \<open>
  A flag set declares the kinds of its flags. Parsing yields the values set, the last one of each
  flag, and the remaining arguments, or \<^verbatim>\<open>flag.ErrHelp\<close>, or another error.
\<close>

datatype flag_kind = Bool_flag | Int64_flag | String_flag

datatype flag_value = Bool_value bool | Int64_value i64 | String_value gostring

type_synonym flag_set = "gostring \<rightharpoonup> flag_kind"
type_synonym flag_values = "gostring \<rightharpoonup> flag_value"

datatype flag_outcome = Flags_parsed flag_values "gostring list" | Flags_help | Flags_bad

definition flag_value_of :: "flag_kind \<Rightarrow> gostring \<Rightarrow> flag_value option" where
  "flag_value_of k s =
     (case k of
        Bool_flag \<Rightarrow> map_option Bool_value (ParseBool s)
      | Int64_flag \<Rightarrow> map_option Int64_value (ParseInt_base0 s)
      | String_flag \<Rightarrow> Some (String_value s))"

text \<open>\<^verbatim>\<open>-name=value\<close>: the name ends at the first equals sign, which cannot be its first character.\<close>

definition split_equals :: "gostring \<Rightarrow> gostring \<times> gostring option" where
  "split_equals name =
     (let n = takeWhile (\<lambda>c. c \<noteq> 61) name in
      (n, if n = name then None else Some (drop (length n + 1) name)))"

function Parse_flags :: "flag_set \<Rightarrow> flag_values \<Rightarrow> gostring list \<Rightarrow> flag_outcome" where
  "Parse_flags formal vals [] = Flags_parsed vals []"
| "Parse_flags formal vals (s # args) =
     (if length s < 2 \<or> hd s \<noteq> 45 then Flags_parsed vals (s # args)
      else if s = ascii ''--'' then Flags_parsed vals args
      else let text = drop (if s ! 1 = 45 then 2 else 1) s in
        if text = [] \<or> hd text = 45 \<or> hd text = 61 then Flags_bad
        else let (name, value) = split_equals text in
          (case formal name of
             None \<Rightarrow> if name = ascii ''help'' \<or> name = ascii ''h'' then Flags_help else Flags_bad
           | Some kind \<Rightarrow>
               (case (if kind = Bool_flag \<and> value = None then Some (ascii ''true'', args)
                      else case value of
                          Some v \<Rightarrow> Some (v, args)
                        | None \<Rightarrow> (case args of [] \<Rightarrow> None | v # rest \<Rightarrow> Some (v, rest))) of
                  None \<Rightarrow> Flags_bad
                | Some (v, rest) \<Rightarrow>
                    (case flag_value_of kind v of
                       None \<Rightarrow> Flags_bad
                     | Some x \<Rightarrow> Parse_flags formal (vals(name \<mapsto> x)) rest))))"
  by pat_completeness auto
termination
  by (relation "measure (\<lambda>(formal, vals, args). length args)") (auto split: if_splits option.splits list.splits)

text \<open>The variables behind the flags, with their default values.\<close>

definition bool_flag :: "flag_values \<Rightarrow> gostring \<Rightarrow> bool" where
  "bool_flag vals name = (vals name = Some (Bool_value True))"

definition int64_flag :: "flag_values \<Rightarrow> gostring \<Rightarrow> i64 \<Rightarrow> i64" where
  "int64_flag vals name def = (case vals name of Some (Int64_value i) \<Rightarrow> i | _ \<Rightarrow> def)"

definition string_flag :: "flag_values \<Rightarrow> gostring \<Rightarrow> gostring \<Rightarrow> gostring" where
  "string_flag vals name def = (case vals name of Some (String_value v) \<Rightarrow> v | _ \<Rightarrow> def)"

section \<open>Paths\<close>

text \<open>\<^verbatim>\<open>filepath.Clean\<close> and \<^verbatim>\<open>filepath.Dir\<close> on Unix; the elements kept so far are reversed.\<close>

fun split_path :: "gostring \<Rightarrow> gostring list" where
  "split_path [] = [[]]"
| "split_path (c # cs) =
     (if c = 47 then [] # split_path cs
      else (case split_path cs of [] \<Rightarrow> [[c]] | e # es \<Rightarrow> (c # e) # es))"

fun clean_elements :: "bool \<Rightarrow> gostring list \<Rightarrow> gostring list \<Rightarrow> gostring list" where
  "clean_elements rooted kept [] = rev kept"
| "clean_elements rooted kept (e # es) =
     (if e = [] \<or> e = ascii ''.'' then clean_elements rooted kept es
      else if e = ascii ''..'' then
        (if kept \<noteq> [] \<and> hd kept \<noteq> ascii ''..'' then clean_elements rooted (tl kept) es
         else if rooted then clean_elements rooted kept es
         else clean_elements rooted (e # kept) es)
      else clean_elements rooted (e # kept) es)"

fun join_path :: "gostring list \<Rightarrow> gostring" where
  "join_path [] = []"
| "join_path [e] = e"
| "join_path (e # es) = e @ [47] @ join_path es"

definition filepath_Clean :: "gostring \<Rightarrow> gostring" where
  "filepath_Clean path =
     (if path = [] then ascii ''.''
      else let rooted = (hd path = 47);
               cleaned = (if rooted then [47] else []) @ join_path (clean_elements rooted [] (split_path path)) in
        if cleaned = [] then ascii ''.'' else cleaned)"

definition filepath_Dir :: "gostring \<Rightarrow> gostring" where
  "filepath_Dir path = filepath_Clean (rev (dropWhile (\<lambda>c. c \<noteq> 47) (rev path)))"

section \<open>Lemmas\<close>

lemma Parse_flags_operand:
  "length s < 2 \<or> hd s \<noteq> 45 \<Longrightarrow> Parse_flags formal vals (s # args) = Flags_parsed vals (s # args)"
  by simp

lemma Parse_flags_end: "Parse_flags formal vals (ascii ''--'' # args) = Flags_parsed vals args"
  by (simp add: ascii_def)

end
