(* ===== verification/Cli.thy ===== *)
theory Cli
  imports Proof_Verify Go_Flag
begin

text \<open>
  The command line interface (\<^verbatim>\<open>internal/cli/run.go\<close>): \<open>Run\<close> with the commands \<open>verify\<close> and
  \<open>create\<close>, \<open>openRegular\<close> and \<open>writePrivateFile\<close>. What the operating system does is a parameter:
  \<open>env\<close> holds its operations and the two writers, on a state \<open>'s\<close> of the world.
\<close>

section \<open>The environment\<close>

text \<open>
  An opened file: whether its own \<^verbatim>\<open>Stat\<close> calls it regular, what reading it delivers, and its
  \<^verbatim>\<open>Close\<close>. What is printed on the error writer is kept in outline: \<open>Line\<close> is a line of text,
  \<open>Flag_usage\<close> the message and usage text that a flag set of that name prints.
\<close>

record 's opened_file =
  of_Regular :: "bool result"
  of_Reader :: reader
  of_Close :: "'s \<Rightarrow> 's"

datatype diagnostic = Line string | Flag_usage gostring

record 's environment =
  os_Stat :: "gostring \<Rightarrow> 's \<Rightarrow> bool result \<times> 's"
  os_Open :: "gostring \<Rightarrow> 's \<Rightarrow> 's opened_file result \<times> 's"
  os_CreateTemp :: "gostring \<Rightarrow> gostring \<Rightarrow> 's \<Rightarrow> gostring result \<times> 's"
  file_Write :: "gostring \<Rightarrow> bytes \<Rightarrow> 's \<Rightarrow> go_error option \<times> 's"
  file_Sync :: "gostring \<Rightarrow> 's \<Rightarrow> go_error option \<times> 's"
  file_Close :: "gostring \<Rightarrow> 's \<Rightarrow> go_error option \<times> 's"
  os_Link :: "gostring \<Rightarrow> gostring \<Rightarrow> 's \<Rightarrow> go_error option \<times> 's"
  os_Remove :: "gostring \<Rightarrow> 's \<Rightarrow> 's"
  out_Write :: "bytes \<Rightarrow> 's \<Rightarrow> go_error option \<times> 's"
  err_Write :: "diagnostic \<Rightarrow> 's \<Rightarrow> 's"

section \<open>Files\<close>

definition openRegular :: "'s environment \<Rightarrow> gostring \<Rightarrow> 's \<Rightarrow> 's opened_file result \<times> 's" where
  "openRegular env path s =
     (case os_Stat env path s of
        (Inl err, s) \<Rightarrow> (Inl err, s)
      | (Inr regular, s) \<Rightarrow>
          if \<not> regular then (Inl (New ''input must be a regular file''), s)
          else (case os_Open env path s of
             (Inl err, s) \<Rightarrow> (Inl err, s)
           | (Inr f, s) \<Rightarrow>
               if of_Regular f = Inr True then (Inr f, s)
               else (Inl (New ''input must be a readable regular file''), of_Close f s)))"

text \<open>The deferred calls close the file, a second time after success, and remove it.\<close>

definition writePrivateFile :: "'s environment \<Rightarrow> gostring \<Rightarrow> bytes \<Rightarrow> 's \<Rightarrow> go_error option \<times> 's" where
  "writePrivateFile env path data s =
     (case os_CreateTemp env (filepath_Dir path) (ascii ''.sigmaproof-*'') s of
        (Inl err, s) \<Rightarrow> (Some err, s)
      | (Inr name, s) \<Rightarrow>
          let (res, s) =
            (case file_Write env name data s of
               (Some err, s) \<Rightarrow> (Some err, s)
             | (None, s) \<Rightarrow>
               (case file_Sync env name s of
                  (Some err, s) \<Rightarrow> (Some err, s)
                | (None, s) \<Rightarrow>
                  (case file_Close env name s of
                     (Some err, s) \<Rightarrow> (Some err, s)
                   | (None, s) \<Rightarrow> os_Link env name path s)))
          in (res, os_Remove env name (snd (file_Close env name s))))"

section \<open>Verification\<close>

definition defaultDocumentLimit :: i64 where
  "defaultDocumentLimit = push_bit 20 64"

definition verify_flags :: flag_set where
  "verify_flags = [ascii ''offline'' \<mapsto> Bool_flag, ascii ''json'' \<mapsto> Bool_flag,
     ascii ''max-document-bytes'' \<mapsto> Int64_flag]"

fun status_string :: "status \<Rightarrow> string" where
  "status_string Verified = ''verified''"
| "status_string Failed = ''failed''"
| "status_string Unavailable = ''unavailable''"
| "status_string Unsupported = ''unsupported''"

definition check_json :: "check \<Rightarrow> json" where
  "check_json c = JObject [(ascii ''status'', JString (ascii (status_string (c_Status c)))),
     (ascii ''reason'', JString (ascii (c_Reason c)))]"

definition report_json :: "report \<Rightarrow> json" where
  "report_json r = JObject [(ascii ''format'', check_json (r_Format r)),
     (ascii ''document'', check_json (r_Document r)),
     (ascii ''batch_inclusion'', check_json (r_Inclusion r)),
     (ascii ''anchor'', check_json (r_Anchor r))]"

text \<open>A line of the report: \<^verbatim>\<open>"%s: %s - %s\n"\<close> with an em dash for the hyphen.\<close>

definition check_line :: "string \<Rightarrow> check \<Rightarrow> bytes" where
  "check_line name c = ascii (name @ '': '' @ status_string (c_Status c) @ '' '') @ [0xE2, 0x80, 0x94] @
     ascii ('' '' @ c_Reason c) @ [10]"

fun write_all :: "'s environment \<Rightarrow> bytes list \<Rightarrow> 's \<Rightarrow> bool \<times> 's" where
  "write_all env [] s = (True, s)"
| "write_all env (l # ls) s =
     (case out_Write env l s of (Some err, s) \<Rightarrow> (False, s) | (None, s) \<Rightarrow> write_all env ls s)"

text \<open>The report is written as JSON or as one line per check; the result says whether it was written.\<close>

definition write_report :: "'s environment \<Rightarrow> bool \<Rightarrow> report \<Rightarrow> 's \<Rightarrow> bool \<times> 's" where
  "write_report env asJSON result s =
     (if asJSON then
        (case out_Write env (json_text (report_json result) @ [10]) s of
           (Some err, s) \<Rightarrow> (False, err_Write env (Line (''cannot write result: '' @ error_text err)) s)
         | (None, s) \<Rightarrow> (True, s))
      else write_all env [check_line ''format'' (r_Format result), check_line ''document'' (r_Document result),
        check_line ''batch inclusion'' (r_Inclusion result), check_line ''anchor'' (r_Anchor result)] s)"

definition cli_verify :: "'s environment \<Rightarrow> gostring list \<Rightarrow> 's \<Rightarrow> int \<times> 's" where
  "cli_verify env args s =
     (case Parse_flags verify_flags Map.empty args of
        Flags_help \<Rightarrow> (0, err_Write env (Flag_usage (ascii ''verify'')) s)
      | Flags_bad \<Rightarrow> (2, err_Write env (Flag_usage (ascii ''verify'')) s)
      | Flags_parsed vals rest \<Rightarrow>
          let offline = bool_flag vals (ascii ''offline''); asJSON = bool_flag vals (ascii ''json'');
              limit = int64_flag vals (ascii ''max-document-bytes'') defaultDocumentLimit in
          if length rest \<noteq> 2 \<or> sint limit < 0 \<or> limit = max_int64
          then (2, err_Write env
            (Line ''verify requires DOCUMENT PACKAGE and a valid byte limit; flags precede paths'') s)
          else (case openRegular env (rest ! 0) s of
             (Inl err, s) \<Rightarrow> (1, err_Write env (Line (''cannot open document: '' @ error_text err)) s)
           | (Inr document, s) \<Rightarrow>
               (case openRegular env (rest ! 1) s of
                  (Inl err, s) \<Rightarrow> (1, of_Close document
                    (err_Write env (Line (''cannot open package: '' @ error_text err)) s))
                | (Inr pkg, s) \<Rightarrow>
                    let result = Verify_package (Some (of_Reader document)) (Some (of_Reader pkg)) limit;
                        (written, s) = write_report env asJSON result s
                    in (if \<not> written then 1
                        else if c_Status (r_Format result) = Unsupported then 3
                        else if \<not> IntegrityVerified result then 1
                        else if \<not> offline then 3
                        else 0,
                        of_Close document (of_Close pkg s)))))"

section \<open>Creation\<close>

definition create_flags :: flag_set where
  "create_flags = [ascii ''unanchored'' \<mapsto> Bool_flag, ascii ''representation'' \<mapsto> String_flag,
     ascii ''max-document-bytes'' \<mapsto> Int64_flag]"

definition cli_create :: "'s environment \<Rightarrow> gostring list \<Rightarrow> 's \<Rightarrow> entropy \<Rightarrow> int \<times> 's \<times> entropy" where
  "cli_create env args s rnd =
     (case Parse_flags create_flags Map.empty args of
        Flags_help \<Rightarrow> (0, err_Write env (Flag_usage (ascii ''create'')) s, rnd)
      | Flags_bad \<Rightarrow> (2, err_Write env (Flag_usage (ascii ''create'')) s, rnd)
      | Flags_parsed vals rest \<Rightarrow>
          let unanchored = bool_flag vals (ascii ''unanchored'');
              representation = string_flag vals (ascii ''representation'') [];
              limit = int64_flag vals (ascii ''max-document-bytes'') defaultDocumentLimit in
          if length rest \<noteq> 2 \<or> \<not> unanchored \<or> sint limit < 0 \<or> limit = max_int64
          then (2, err_Write env
            (Line ''create requires --unanchored, --representation, DOCUMENT PACKAGE and a valid byte limit'') s, rnd)
          else if representation \<noteq> ascii ''original'' \<and> representation \<noteq> ascii ''derived''
          then (2, err_Write env (Line ''representation must be original or derived'') s, rnd)
          else let rep = (if representation = ascii ''original'' then Original else Derived) in
            (case openRegular env (rest ! 0) s of
               (Inl err, s) \<Rightarrow> (1, err_Write env (Line (''cannot open document: '' @ error_text err)) s, rnd)
             | (Inr document, s) \<Rightarrow>
                 (case CreateUnanchored (Some (of_Reader document)) rep limit rnd of
                    (Inl err, rnd) \<Rightarrow>
                      (1, of_Close document (err_Write env (Line (''cannot create package: '' @ error_text err)) s), rnd)
                  | (Inr p, rnd) \<Rightarrow>
                      (case MarshalBinary_package p of
                         Inl err \<Rightarrow>
                           (1, of_Close document (err_Write env (Line (''cannot encode package: '' @ error_text err)) s), rnd)
                       | Inr data \<Rightarrow>
                           (case writePrivateFile env (rest ! 1) data s of
                              (Some err, s) \<Rightarrow>
                                (1, of_Close document (err_Write env (Line (''cannot save package: '' @ error_text err)) s), rnd)
                            | (None, s) \<Rightarrow>
                                (0, of_Close document (snd (out_Write env (ascii (''Created experimental unanchored package. '' @
                                  ''No independent publication, timestamp or provenance has been established.'') @ [10]) s)), rnd))))))"

section \<open>The command\<close>

definition buildinfo_Version :: gostring where
  "buildinfo_Version = ascii ''0.1.0-dev''"

definition usage_text :: bytes where
  "usage_text = ascii ''Usage:'' @ [10] @
     ascii ''  sigmaproof version'' @ [10] @
     ascii ''  sigmaproof create --unanchored --representation original|derived [--max-document-bytes N] DOCUMENT PACKAGE'' @ [10] @
     ascii ''  sigmaproof verify [--offline] [--json] [--max-document-bytes N] DOCUMENT PACKAGE'' @ [10] @
     ascii ''Experimental format. Offline success establishes local integrity only; anchors are unavailable.'' @ [10]"

definition Run :: "'s environment \<Rightarrow> gostring list \<Rightarrow> 's \<Rightarrow> entropy \<Rightarrow> int \<times> 's \<times> entropy" where
  "Run env args s rnd =
     (if args = [] \<or> length args = 1 \<and>
        (args ! 0 = ascii ''help'' \<or> args ! 0 = ascii ''--help'' \<or> args ! 0 = ascii ''-h'')
      then (0, snd (out_Write env usage_text s), rnd)
      else if length args = 1 \<and> args ! 0 = ascii ''version''
      then (0, snd (out_Write env (buildinfo_Version @ [10]) s), rnd)
      else if args ! 0 = ascii ''verify'' then
        (let (code, s) = cli_verify env (drop 1 args) s in (code, s, rnd))
      else if args ! 0 = ascii ''create'' then cli_create env (drop 1 args) s rnd
      else (2, err_Write env (Line ''invalid command; use sigmaproof help'') s, rnd))"

end
