(* ===== verification/Cli_Files.thy ===== *)
theory Cli_Files
  imports Cli
begin

text \<open>
  The file system as the command line interface relies on it: the locale \<open>file_system\<close> states
  what the operations of an environment do to the directory entries, each of which may fail, and
  its lemmas say what \<open>writePrivateFile\<close> and the commands do. A file system in memory with
  failing operations is an instance.
\<close>

section \<open>The contract\<close>

text \<open>
  An entry is a regular file with its mode and its bytes, or something else: a directory, a symbolic
  link, a device. \<open>loc path\<close> is the place that a path names, without following a link at
  its end, so that two paths may name one place. A path of a new temporary file, of mode 0600, is
  fresh; linking never replaces an entry, and it makes a second one of the same file, which is not
  written to any more. Opening a regular file gives its bytes, unless reading fails.
\<close>

datatype file_entry = Regular int bytes | Irregular

definition private_mode :: int where
  "private_mode = 384"

text \<open>
  A temporary file is left over only if files cannot be removed, and it is a new one.
\<close>

definition removals_work :: "'s environment \<Rightarrow> ('s \<Rightarrow> 'l \<rightharpoonup> file_entry) \<Rightarrow> (gostring \<Rightarrow> 'l) \<Rightarrow> bool" where
  "removals_work env entries loc \<longleftrightarrow>
     (\<forall>n s. entries (os_Remove env n s) = (entries s)(loc n := None))"

definition leftover :: "'s environment \<Rightarrow> ('s \<Rightarrow> 'l \<rightharpoonup> file_entry) \<Rightarrow> (gostring \<Rightarrow> 'l) \<Rightarrow>
    ('l \<rightharpoonup> file_entry) \<Rightarrow> ('l \<rightharpoonup> file_entry) \<Rightarrow> bool" where
  "leftover env entries loc saved after \<longleftrightarrow> after = saved \<or>
     \<not> removals_work env entries loc \<and>
     (\<exists>n m. saved (loc n) = None \<and> after = saved(loc n \<mapsto> Regular private_mode m))"

lemma leftover_keeps: "leftover env entries loc saved after \<Longrightarrow> saved l = Some x \<Longrightarrow> after l = Some x"
  by (auto simp: leftover_def)

locale file_system =
  fixes env :: "'s environment" and entries :: "'s \<Rightarrow> 'l \<rightharpoonup> file_entry" and loc :: "gostring \<Rightarrow> 'l"
  assumes stat_keeps: "os_Stat env p s = (r, s') \<Longrightarrow> entries s' = entries s"
    and open_keeps: "os_Open env p s = (ro, s') \<Longrightarrow> entries s' = entries s"
    and close_opened_keeps: "os_Open env p s = (Inr f, s') \<Longrightarrow> entries (of_Close f t) = entries t"
    and open_reads: "os_Open env p s = (Inr f, s') \<Longrightarrow> entries s (loc p) = Some (Regular m data) \<Longrightarrow>
      ending (of_Reader f) = Eof \<Longrightarrow> content (of_Reader f) = data"
    and create_temp_new: "os_CreateTemp env d pat s = (Inr n, s') \<Longrightarrow>
      entries s (loc n) = None \<and> entries s' = (entries s)(loc n \<mapsto> Regular private_mode [])"
    and create_temp_fails: "os_CreateTemp env d pat s = (Inl err, s') \<Longrightarrow> entries s' = entries s"
    and write_appends: "entries s (loc n) = Some (Regular m old) \<Longrightarrow> file_Write env n data s = (rw, s') \<Longrightarrow>
      \<exists>new. entries s' = (entries s)(loc n \<mapsto> Regular m (old @ new)) \<and> (rw = None \<longrightarrow> new = data)"
    and sync_keeps: "file_Sync env n s = (rw, s') \<Longrightarrow> entries s' = entries s"
    and close_keeps: "file_Close env n s = (rw, s') \<Longrightarrow> entries s' = entries s"
    and link_new: "os_Link env n p s = (None, s') \<Longrightarrow>
      entries s (loc p) = None \<and> entries s' = (entries s)(loc p := entries s (loc n))"
    and link_fails: "os_Link env n p s = (Some err, s') \<Longrightarrow> entries s' = entries s"
    and remove_one: "entries (os_Remove env n s) = entries s \<or>
      entries (os_Remove env n s) = (entries s)(loc n := None)"
    and out_keeps: "out_Write env bs s = (rw, s') \<Longrightarrow> entries s' = entries s"
    and err_keeps: "entries (err_Write env e s) = entries s"
begin

lemma openRegular_keeps:
  assumes "openRegular env p s = (r, s')"
  shows "entries s' = entries s" and "r = Inr f \<Longrightarrow> entries (of_Close f t) = entries t"
proof -
  obtain regular s1 where st: "os_Stat env p s = (regular, s1)" by (cases "os_Stat env p s")
  obtain opened s2 where op: "os_Open env p s1 = (opened, s2)" by (cases "os_Open env p s1")
  have close: "entries (of_Close g t) = entries t" if "opened = Inr g" for g t
    by (rule close_opened_keeps) (use op that in simp)
  show "entries s' = entries s"
    using assms stat_keeps [OF st] open_keeps [OF op] close
    by (auto simp: openRegular_def st op split: sum.splits if_splits)
  show "r = Inr f \<Longrightarrow> entries (of_Close f t) = entries t"
    using assms close by (auto simp: openRegular_def st op split: sum.splits if_splits)
qed

lemma openRegular_reads:
  assumes "openRegular env p s = (Inr f, s')" "entries s (loc p) = Some (Regular m data)"
    and "ending (of_Reader f) = Eof"
  shows "content (of_Reader f) = data"
proof -
  obtain regular s1 where st: "os_Stat env p s = (regular, s1)" by (cases "os_Stat env p s")
  have op: "os_Open env p s1 = (Inr f, s')"
    using assms(1) by (auto simp: openRegular_def st split: prod.splits sum.splits if_splits)
  show ?thesis by (rule open_reads [OF op _ assms(3)]) (use assms(2) stat_keeps [OF st] in simp)
qed

text \<open>What has happened to the entries when a private file was written, or not.\<close>

lemma writePrivateFile_run:
  assumes "writePrivateFile env path data s = (res, s')"
  shows "(\<exists>err. res = Some err \<and> entries s' = entries s) \<or>
    (\<exists>n m. entries s (loc n) = None \<and>
      (res = None \<longrightarrow> entries s (loc path) = None \<and> loc path \<noteq> loc n) \<and>
      (let saved = (if res = None then (entries s)(loc path \<mapsto> Regular private_mode data) else entries s) in
       entries s' = saved(loc n := None) \<or> \<not> removals_work env entries loc \<and> entries s' = saved(loc n \<mapsto> Regular private_mode m)))"
proof (cases "os_CreateTemp env (filepath_Dir path) (ascii ''.sigmaproof-*'') s")
  case (Pair r s1)
  show ?thesis
  proof (cases r)
    case (Inl err)
    then show ?thesis
      using assms create_temp_fails [of "filepath_Dir path" "ascii ''.sigmaproof-*''" s err s1] Pair
      by (auto simp add: writePrivateFile_def simp del: ascii_Cons)
  next
    case (Inr n)
    note new = create_temp_new [OF Pair [unfolded Inr]]
    then have s1: "entries s1 (loc n) = Some (Regular private_mode [])" by simp
    obtain w s2 where w: "file_Write env n data s1 = (w, s2)" by (cases "file_Write env n data s1")
    obtain m where m: "entries s2 = (entries s)(loc n \<mapsto> Regular private_mode m)" "w = None \<Longrightarrow> m = data"
      using write_appends [OF s1 w] new by auto
    obtain y s3 where sy: "file_Sync env n s2 = (y, s3)" by (cases "file_Sync env n s2")
    obtain c s4 where cl: "file_Close env n s3 = (c, s4)" by (cases "file_Close env n s3")
    obtain l s5 where li: "os_Link env n path s4 = (l, s5)" by (cases "os_Link env n path s4")
    define core where "core = (case w of Some err \<Rightarrow> (Some err, s2)
       | None \<Rightarrow> (case file_Sync env n s2 of (Some err, s) \<Rightarrow> (Some err, s)
         | (None, s) \<Rightarrow> (case file_Close env n s of (Some err, s) \<Rightarrow> (Some err, s)
           | (None, s) \<Rightarrow> os_Link env n path s)))"
    have run: "res = fst core" "s' = os_Remove env n (snd (file_Close env n (snd core)))"
      using assms w unfolding writePrivateFile_def Pair Inr core_def
      by (auto simp: Let_def split: prod.splits option.splits)
    have "entries (snd core) = (if fst core = None then (entries s2)(loc path := entries s2 (loc n)) else entries s2)
        \<and> (fst core = None \<longrightarrow> w = None \<and> entries s2 (loc path) = None)"
      unfolding core_def using sy cl li sync_keeps [OF sy] close_keeps [OF cl] link_new [of n path s4 s5]
        link_fails [of n path s4 _ s5]
      by (auto split: option.splits)
    then have core: "entries (snd core) =
        (if res = None then (entries s)(loc n \<mapsto> Regular private_mode m, loc path \<mapsto> Regular private_mode data)
         else (entries s)(loc n \<mapsto> Regular private_mode m))"
      "res = None \<Longrightarrow> entries s (loc path) = None \<and> loc path \<noteq> loc n"
      using m run(1) by (auto split: if_splits)
    define saved where "saved = (if res = None then (entries s)(loc path \<mapsto> Regular private_mode data) else entries s)"
    have "entries (snd core) = saved(loc n \<mapsto> Regular private_mode m)"
      using core by (auto simp: saved_def fun_upd_twist)
    moreover have "entries (snd (file_Close env n (snd core))) = entries (snd core)"
      by (rule close_keeps) (rule surjective_pairing)
    ultimately have "entries s' = saved(loc n := None) \<or> entries s' = saved(loc n \<mapsto> Regular private_mode m)"
      and "removals_work env entries loc \<Longrightarrow> entries s' = saved(loc n := None)"
      using remove_one [of n "snd (file_Close env n (snd core))"] by (auto simp: run(2) removals_work_def)
    then show ?thesis
      using new core(2) unfolding saved_def Let_def by blast
  qed
qed


text \<open>What the commands do to the entries.\<close>

lemma writePrivateFile_entries:
  assumes "writePrivateFile env path data s = (res, s')"
  shows "(res = None \<longrightarrow> entries s (loc path) = None) \<and>
    leftover env entries loc (if res = None then (entries s)(loc path \<mapsto> Regular private_mode data) else entries s) (entries s')"
  using writePrivateFile_run [OF assms]
proof (elim disjE exE conjE)
  fix n m assume n: "entries s (loc n) = None"
    and new: "res = None \<longrightarrow> entries s (loc path) = None \<and> loc path \<noteq> loc n"
    and after: "let saved = (if res = None then (entries s)(loc path \<mapsto> Regular private_mode data) else entries s) in
       entries s' = saved(loc n := None) \<or> \<not> removals_work env entries loc \<and> entries s' = saved(loc n \<mapsto> Regular private_mode m)"
  define saved where "saved = (if res = None then (entries s)(loc path \<mapsto> Regular private_mode data) else entries s)"
  have "saved (loc n) = None" using n new by (auto simp: saved_def)
  then have "saved(loc n := None) = saved" by auto
  then show ?thesis
    using new after \<open>saved (loc n) = None\<close> unfolding leftover_def saved_def [symmetric] Let_def by auto
qed (auto simp: leftover_def)

lemma write_all_keeps: "write_all env ls s = (b, s') \<Longrightarrow> entries s' = entries s"
proof (induction ls arbitrary: s)
  case (Cons l ls)
  then show ?case
    using out_keeps [of l s] by (auto split: prod.splits option.splits)
qed simp

lemma write_report_keeps: "write_report env asJSON result s = (b, s') \<Longrightarrow> entries s' = entries s"
  using out_keeps [of "json_text (report_json result) @ [10]" s]
  by (auto simp: write_report_def err_keeps write_all_keeps simp del: write_all.simps ascii_Cons
      split: if_splits prod.splits option.splits)

text \<open>The files that \<open>verify\<close> works on, and its report.\<close>

lemma cli_verify_run:
  assumes "cli_verify env args s = (code, s')"
  obtains (usage) "code = 0 \<and> Parse_flags verify_flags Map.empty args = Flags_help \<or> code = 2" "entries s' = entries s"
      "\<And>vals doc path limit. Parse_flags verify_flags Map.empty args = Flags_parsed vals [doc, path] \<Longrightarrow>
        limit = int64_flag vals (ascii ''max-document-bytes'') defaultDocumentLimit \<Longrightarrow> sint limit < 0 \<or> limit = max_int64"
  | (unopened) "code = 1" "entries s' = entries s"
      "\<And>vals doc path d s1 p s2. Parse_flags verify_flags Map.empty args = Flags_parsed vals [doc, path] \<Longrightarrow>
        openRegular env doc s = (Inr d, s1) \<Longrightarrow> openRegular env path s1 = (Inr p, s2) \<Longrightarrow> False"
  | (report) vals doc path d s1 p s2 result where
      "Parse_flags verify_flags Map.empty args = Flags_parsed vals [doc, path]"
      "openRegular env doc s = (Inr d, s1)" "openRegular env path s1 = (Inr p, s2)"
      "result = Verify_package (Some (of_Reader d)) (Some (of_Reader p))
        (int64_flag vals (ascii ''max-document-bytes'') defaultDocumentLimit)"
      "code = (if \<not> fst (write_report env (bool_flag vals (ascii ''json'')) result s2) then 1
        else if c_Status (r_Format result) = Unsupported then 3
        else if \<not> IntegrityVerified result then 1
        else if \<not> bool_flag vals (ascii ''offline'') then 3 else 0)"
      "entries s' = entries s"
proof (cases "Parse_flags verify_flags Map.empty args")
  case (Flags_parsed vals rest)
  define limit where "limit = int64_flag vals (ascii ''max-document-bytes'') defaultDocumentLimit"
  note run = assms [unfolded cli_verify_def Flags_parsed flag_outcome.case Let_def, folded limit_def]
  show thesis
  proof (cases "length rest \<noteq> 2 \<or> sint limit < 0 \<or> limit = max_int64")
    case True
    then show ?thesis using usage run by (auto simp: err_keeps Flags_parsed limit_def simp del: ascii_Cons)
  next
    case False
    then obtain doc path where rest: "rest = [doc, path]" by (auto simp: length_Suc_conv numeral_2_eq_2)
    then have nth: "rest ! 0 = doc" "rest ! 1 = path" by simp_all
    note run2 = run [unfolded if_not_P [OF False] nth]
    obtain rd s1 where d: "openRegular env doc s = (rd, s1)" by (cases "openRegular env doc s")
    show ?thesis
    proof (cases rd)
      case (Inl err)
      then show ?thesis using unopened run2 openRegular_keeps(1) [OF d]
        by (auto simp: d err_keeps Flags_parsed rest simp del: ascii_Cons)
    next
      case (Inr doc_file)
      obtain rp s2 where p: "openRegular env path s1 = (rp, s2)" by (cases "openRegular env path s1")
      note run3 = run2 [unfolded d Inr prod.case sum.case p]
      have e1: "entries s1 = entries s" "\<And>t. entries (of_Close doc_file t) = entries t"
        using openRegular_keeps [OF d] Inr by auto
      show ?thesis
      proof (cases rp)
        case (Inl err)
        then show ?thesis using unopened run3 e1 openRegular_keeps(1) [OF p]
          by (auto simp: err_keeps Flags_parsed rest d p simp del: ascii_Cons)
      next
        case (Inr pkg_file)
        have e2: "entries s2 = entries s" "\<And>t. entries (of_Close pkg_file t) = entries t"
          using openRegular_keeps [OF p] Inr e1 by auto
        define result where "result = Verify_package (Some (of_Reader doc_file)) (Some (of_Reader pkg_file)) limit"
        obtain b s3 where w: "write_report env (bool_flag vals (ascii ''json'')) result s2 = (b, s3)"
          by (cases "write_report env (bool_flag vals (ascii ''json'')) result s2")
        note run4 = run3 [unfolded Inr sum.case, folded result_def, unfolded w prod.case]
        show ?thesis
          by (rule report [OF Flags_parsed [unfolded rest] d [unfolded \<open>rd = Inr doc_file\<close>] p [unfolded Inr]
              result_def [unfolded limit_def]])
            (use run4 e1 e2 write_report_keeps [OF w] in \<open>auto simp: w simp del: ascii_Cons\<close>)
      qed
    qed
  qed
qed (use usage assms in \<open>auto simp: cli_verify_def err_keeps simp del: ascii_Cons\<close>)

lemma cli_verify_keeps: "cli_verify env args s = (code, s') \<Longrightarrow> entries s' = entries s"
  by (erule cli_verify_run)

lemma cli_create_run:
  assumes "cli_create env args s rnd = (code, s', rnd')"
  obtains (usage) "code = 0 \<and> Parse_flags create_flags Map.empty args = Flags_help \<or> code = 2" "entries s' = entries s"
  | (failed) "code = 1" "leftover env entries loc (entries s) (entries s')"
  | (created) vals doc path d s1 p data where
      "Parse_flags create_flags Map.empty args = Flags_parsed vals [doc, path]" "code = 0"
      "bool_flag vals (ascii ''unanchored'')" "openRegular env doc s = (Inr d, s1)"
      "string_flag vals (ascii ''representation'') [] = ascii ''original'' \<or>
       string_flag vals (ascii ''representation'') [] = ascii ''derived''"
      "CreateUnanchored (Some (of_Reader d))
        (if string_flag vals (ascii ''representation'') [] = ascii ''original'' then Original else Derived)
        (int64_flag vals (ascii ''max-document-bytes'') defaultDocumentLimit) rnd = (Inr p, rnd')"
      "MarshalBinary_package p = Inr data" "entries s (loc path) = None"
      "leftover env entries loc ((entries s)(loc path \<mapsto> Regular private_mode data)) (entries s')"
proof (cases "Parse_flags create_flags Map.empty args")
  case (Flags_parsed vals rest)
  define limit where "limit = int64_flag vals (ascii ''max-document-bytes'') defaultDocumentLimit"
  define name where "name = string_flag vals (ascii ''representation'') []"
  define rep where "rep = (if name = ascii ''original'' then Original else Derived)"
  note run = assms [unfolded cli_create_def Flags_parsed flag_outcome.case Let_def,
      folded limit_def name_def, folded rep_def]
  have same: "leftover env entries loc (entries s) (entries s)" by (simp add: leftover_def)
  show thesis
  proof (cases "length rest \<noteq> 2 \<or> \<not> bool_flag vals (ascii ''unanchored'') \<or> sint limit < 0 \<or> limit = max_int64")
    case True
    then show ?thesis using usage run by (auto simp: err_keeps simp del: ascii_Cons)
  next
    case False
    note run1 = run [unfolded if_not_P [OF False]]
    show ?thesis
    proof (cases "name \<noteq> ascii ''original'' \<and> name \<noteq> ascii ''derived''")
      case True
      show ?thesis using usage run1 unfolding if_P [OF True] by (auto simp: err_keeps)
    next
      case rep: False
      obtain doc path where rest: "rest = [doc, path]" using False by (auto simp: length_Suc_conv numeral_2_eq_2)
      then have nth: "rest ! 0 = doc" "rest ! 1 = path" by simp_all
      note run2 = run1 [unfolded if_not_P [OF rep] nth]
      obtain rd s1 where d: "openRegular env doc s = (rd, s1)" by (cases "openRegular env doc s")
      show ?thesis
      proof (cases rd)
        case (Inl err)
        then show ?thesis using failed run2 same openRegular_keeps(1) [OF d]
          by (auto simp: d err_keeps simp del: ascii_Cons)
      next
        case (Inr f)
        have e: "entries s1 = entries s" "\<And>t. entries (of_Close f t) = entries t"
          using openRegular_keeps [OF d] Inr by auto
        obtain rp rnd1 where p: "CreateUnanchored (Some (of_Reader f)) rep limit rnd = (rp, rnd1)"
          by (cases "CreateUnanchored (Some (of_Reader f)) rep limit rnd")
        note run3 = run2 [unfolded d Inr prod.case sum.case p]
        consider (bad) "code = 1" "entries s' = entries s"
          | (save) q data where "rp = Inr q" "MarshalBinary_package q = Inr data"
          using run3 e by (cases rp; cases "MarshalBinary_package (projr rp)") (auto simp: err_keeps)
        then show ?thesis
        proof cases
          case bad
          then show ?thesis using failed same by simp
        next
          case save
          obtain res s2 where w: "writePrivateFile env path data s1 = (res, s2)"
            by (cases "writePrivateFile env path data s1")
          note run4 = run3 [unfolded save sum.case w prod.case]
          note W = writePrivateFile_entries [OF w, unfolded e(1)]
          have out: "entries (snd (out_Write env bs t)) = entries t" for bs t
            by (rule out_keeps) (rule surjective_pairing)
          show ?thesis
          proof (cases res)
            case (Some err)
            then show ?thesis using failed run4 W e by (auto simp: err_keeps)
          next
            case None
            note run5 = run4 [unfolded None option.case]
            have s': "entries s' = entries s2" "code = 0" "rnd1 = rnd'"
              using run5 by (auto simp: e(2) out simp del: ascii_Cons)
            show ?thesis
              by (rule created [OF Flags_parsed [unfolded rest] s'(2) _ d [unfolded Inr] _ _ save(2)])
                (use False rep p W None s' in \<open>auto simp: limit_def [symmetric] name_def [symmetric]
                  rep_def [symmetric] save(1) simp del: ascii_Cons\<close>)
          qed
        qed
      qed
    qed
  qed
qed (use usage assms in \<open>auto simp: cli_create_def err_keeps simp del: ascii_Cons\<close>)

end

section \<open>A file system in memory\<close>

text \<open>
  Every path is a place of its own. The operations fail as the list \<open>mf_Fails\<close> says, one entry
  per operation, and work once the list is used up; a failing write writes a half. The names of
  temporary files are numbered.
\<close>

record memory_files =
  mf_Entries :: "gostring \<rightharpoonup> file_entry"
  mf_Fails :: "bool list"
  mf_Temp :: nat
  mf_Out :: bytes
  mf_Err :: "diagnostic list"

definition failing :: "memory_files \<Rightarrow> bool" where
  "failing s \<longleftrightarrow> mf_Fails s \<noteq> [] \<and> hd (mf_Fails s)"

definition next_turn :: "memory_files \<Rightarrow> memory_files" where
  "next_turn s = s\<lparr>mf_Fails := tl (mf_Fails s)\<rparr>"

lemma next_turn_entries [simp]: "mf_Entries (next_turn s) = mf_Entries s"
  by (simp add: next_turn_def)

definition mem_files :: "memory_files environment" where
  "mem_files = \<lparr>
     os_Stat = (\<lambda>p s. (if failing s then Inl (New ''input/output error'')
       else case mf_Entries s p of
           None \<Rightarrow> Inl (New ''no such file or directory'')
         | Some e \<Rightarrow> Inr (e \<noteq> Irregular), next_turn s)),
     os_Open = (\<lambda>p s. (if failing s then Inl (New ''input/output error'')
       else case mf_Entries s p of
           None \<Rightarrow> Inl (New ''no such file or directory'')
         | Some Irregular \<Rightarrow> Inr \<lparr>of_Regular = Inr False, of_Reader = bytes_reader [], of_Close = (\<lambda>s. s)\<rparr>
         | Some (Regular m data) \<Rightarrow>
             Inr \<lparr>of_Regular = Inr True, of_Reader = bytes_reader data, of_Close = (\<lambda>s. s)\<rparr>, next_turn s)),
     os_CreateTemp = (\<lambda>d pat s. let n = d @ [47] @ butlast pat @ decimal (mf_Temp s) in
       if failing s \<or> mf_Entries s n \<noteq> None then (Inl (New ''file exists''), next_turn s)
       else (Inr n, (next_turn s)\<lparr>mf_Entries := (mf_Entries s)(n \<mapsto> Regular private_mode []), mf_Temp := mf_Temp s + 1\<rparr>)),
     file_Write = (\<lambda>n data s. case mf_Entries s n of
         Some (Regular m old) \<Rightarrow>
           let new = (if failing s then take (length data div 2) data else data) in
           (if failing s then Some (New ''no space left on device'') else None,
            (next_turn s)\<lparr>mf_Entries := (mf_Entries s)(n \<mapsto> Regular m (old @ new))\<rparr>)
       | _ \<Rightarrow> (Some (New ''bad file descriptor''), next_turn s)),
     file_Sync = (\<lambda>n s. (if failing s then Some (New ''input/output error'') else None, next_turn s)),
     file_Close = (\<lambda>n s. (if failing s then Some (New ''input/output error'') else None, next_turn s)),
     os_Link = (\<lambda>n p s. if failing s \<or> mf_Entries s n = None \<or> mf_Entries s p \<noteq> None
       then (Some (New ''file exists''), next_turn s)
       else (None, (next_turn s)\<lparr>mf_Entries := (mf_Entries s)(p := mf_Entries s n)\<rparr>)),
     os_Remove = (\<lambda>n s. if failing s then next_turn s
       else (next_turn s)\<lparr>mf_Entries := (mf_Entries s)(n := None)\<rparr>),
     out_Write = (\<lambda>bs s. (None, s\<lparr>mf_Out := mf_Out s @ bs\<rparr>)),
     err_Write = (\<lambda>e s. s\<lparr>mf_Err := mf_Err s @ [e]\<rparr>)\<rparr>"

interpretation memory_files: file_system mem_files mf_Entries "\<lambda>p. p"
  by unfold_locales
    (auto simp: mem_files_def Let_def split: if_splits option.splits file_entry.splits)

end
