(* ===== verification/Cli_Props.thy ===== *)
theory Cli_Props
  imports Cli_Files
begin

text \<open>
  What the command line promises: what its exit codes mean, what it may add to the file system, and
  that a package created from a document verifies exactly that document.
\<close>

section \<open>Running a command\<close>

lemma Run_verify: "Run env (ascii ''verify'' # args) s rnd = (let (code, s) = cli_verify env args s in (code, s, rnd))"
  by (simp add: Run_def)

lemma Run_create: "Run env (ascii ''create'' # args) s rnd = cli_create env args s rnd"
  by (simp add: Run_def)

lemma Run_other:
  assumes "args \<noteq> []" "hd args \<noteq> ascii ''verify''" "hd args \<noteq> ascii ''create''"
  shows "\<exists>bs e. Run env args s rnd \<in> {(0, snd (out_Write env bs s), rnd), (2, err_Write env e s, rnd)}"
  using assms by (auto simp: Run_def hd_conv_nth simp del: ascii_Cons)

lemma write_report_written:
  assumes "\<forall>bs u. fst (out_Write env bs u) = None"
  shows "fst (write_report env asJSON result s)"
proof -
  have "fst (write_all env ls s)" for ls s
  proof (induction ls arbitrary: s)
    case (Cons l ls)
    have "fst (out_Write env l s) = None" using assms by blast
    with Cons show ?case by (cases "out_Write env l s") simp
  qed simp
  moreover have "fst (case out_Write env bs s of (Some err, s) \<Rightarrow> (False, f err s) | (None, s) \<Rightarrow> (True, s))" for bs f
    using assms [rule_format, of bs s] by (cases "out_Write env bs s") simp
  ultimately show ?thesis by (simp add: write_report_def del: write_all.simps ascii_Cons)
qed

context file_system
begin

lemma Run_entries:
  assumes "Run env args s rnd = (code, s', rnd')"
  shows "leftover env entries loc (entries s) (entries s') \<or>
    (code = 0 \<and> (\<exists>cargs vals doc path d s1 p data. args = ascii ''create'' # cargs \<and>
      Parse_flags create_flags Map.empty cargs = Flags_parsed vals [doc, path] \<and>
      openRegular env doc s = (Inr d, s1) \<and>
      hashDocument (Some (of_Reader d)) (int64_flag vals (ascii ''max-document-bytes'') defaultDocumentLimit) =
        Inr (w_DocumentDigest (p_Witness p)) \<and>
      MarshalBinary_package p = Inr data \<and> entries s (loc path) = None \<and>
      leftover env entries loc ((entries s)(loc path \<mapsto> Regular private_mode data)) (entries s')))"
proof -
  have out: "entries (snd (out_Write env bs t)) = entries t" for bs t
    by (rule out_keeps) (rule surjective_pairing)
  consider (none) "args = []" | (verify) cargs where "args = ascii ''verify'' # cargs"
    | (create) cargs where "args = ascii ''create'' # cargs"
    | (other) "args \<noteq> []" "hd args \<noteq> ascii ''verify''" "hd args \<noteq> ascii ''create''"
    by (cases args) (auto simp del: ascii_Cons)
  then show ?thesis
  proof cases
    case none
    then show ?thesis using assms by (auto simp: Run_def leftover_def out)
  next
    case verify
    then show ?thesis
      using assms cli_verify_keeps [of cargs s]
      unfolding verify Run_verify by (auto simp: leftover_def split: prod.splits)
  next
    case create
    note run = assms [unfolded create Run_create]
    from run show ?thesis
    proof (cases rule: cli_create_run)
      case (created vals doc path d s1 p data)
      then show ?thesis using CreateUnanchored_Inr [OF created(6)] create by blast
    qed (auto simp: leftover_def)
  next
    case other
    then show ?thesis
      using Run_other [OF other, of env s rnd] assms by (auto simp: leftover_def out err_keeps)
  qed
qed

end

section \<open>What a command leaves behind\<close>

text \<open>
  C22. No command overwrites anything: whatever fails, every directory entry is still there with its
  bytes, also one that a symbolic link or a directory is. What may be new is one private file,
  left over when a temporary file could not be removed, and, only when \<open>create\<close> has exited
  with success, the package it was asked for: at a path that did not exist, private, complete, and made of the
  digest of the document.
\<close>

theorem cli_never_overwrites:
  assumes "file_system env entries loc" and "Run env args s rnd = (code, s', rnd')"
  shows "(\<forall>l e. entries s l = Some e \<longrightarrow> entries s' l = Some e) \<and>
    (leftover env entries loc (entries s) (entries s') \<or>
    (code = 0 \<and> (\<exists>cargs vals doc path d s1 p data. args = ascii ''create'' # cargs \<and>
      Parse_flags create_flags Map.empty cargs = Flags_parsed vals [doc, path] \<and>
      openRegular env doc s = (Inr d, s1) \<and>
      hashDocument (Some (of_Reader d)) (int64_flag vals (ascii ''max-document-bytes'') defaultDocumentLimit) =
        Inr (w_DocumentDigest (p_Witness p)) \<and>
      MarshalBinary_package p = Inr data \<and> entries s (loc path) = None \<and>
      leftover env entries loc ((entries s)(loc path \<mapsto> Regular private_mode data)) (entries s'))))"
proof -
  note E = file_system.Run_entries [OF assms]
  have "entries s' l = Some e" if "entries s l = Some e" for l e
    using E leftover_keeps that by (metis fun_upd_other option.distinct(1))
  with E show ?thesis by blast
qed

section \<open>Exit codes\<close>

text \<open>
  C23. The exit codes of \<open>verify\<close> are honest. It exits with 0 only when help was asked for, or
  when only local integrity was requested and the two files named, both regular, verified within the
  limit. It exits with 3 only when the package is of an unsupported format, or integrity was
  verified but an anchor would have been needed. There are no other codes than 0, 1, 2 and 3, and the file system
  is not changed.
\<close>

theorem cli_exit_codes:
  assumes "file_system env entries loc"
    and "Run env (ascii ''verify'' # args) s rnd = (code, s', rnd')"
  shows "code \<in> {0, 1, 2, 3} \<and> entries s' = entries s \<and>
    (code = 0 \<or> code = 3 \<longrightarrow> code = 0 \<and> Parse_flags verify_flags Map.empty args = Flags_help \<or>
      (\<exists>vals doc path d s1 p s2 result. Parse_flags verify_flags Map.empty args = Flags_parsed vals [doc, path] \<and>
        openRegular env doc s = (Inr d, s1) \<and> openRegular env path s1 = (Inr p, s2) \<and>
        result = Verify_package (Some (of_Reader d)) (Some (of_Reader p))
          (int64_flag vals (ascii ''max-document-bytes'') defaultDocumentLimit) \<and>
        (if code = 0 then IntegrityVerified result \<and> bool_flag vals (ascii ''offline'')
         else c_Status (r_Format result) = Unsupported \<or>
           IntegrityVerified result \<and> \<not> bool_flag vals (ascii ''offline''))))"
proof -
  have run: "cli_verify env args s = (code, s')"
    using assms(2) by (auto simp: Run_verify simp del: ascii_Cons split: prod.splits)
  show ?thesis
  proof (rule file_system.cli_verify_run [OF assms(1) run], goal_cases)
    case report: (3 vals doc path d s1 p s2 result)
    have "code \<in> {0, 1, 2, 3}" using report(5) by auto
    moreover have "code = 0 \<Longrightarrow> IntegrityVerified result \<and> bool_flag vals (ascii ''offline'')"
      "code = 3 \<Longrightarrow> c_Status (r_Format result) = Unsupported \<or>
         IntegrityVerified result \<and> \<not> bool_flag vals (ascii ''offline'')"
      using report(5) by (auto split: if_splits)
    ultimately show ?thesis using report(1-4,6) by (auto simp del: ascii_Cons)
  qed auto
qed

section \<open>From creation to verification\<close>

text \<open>Which documents a created package verifies.\<close>

lemma created_verifies_iff:
  assumes "CreateUnanchored (Some d) rep m rnd = (Inr p, rnd')" and "MarshalBinary_package p = Inr data"
  shows "IntegrityVerified (Verify_package (Some e) (Some (bytes_reader data)) k) \<longleftrightarrow>
    hashDocument (Some e) k = Inr (sha256 (content d))"
    and "c_Status (r_Format (Verify_package (Some e) (Some (bytes_reader data)) k)) = Verified"
proof -
  note C = CreateUnanchored_Inr [OF assms(1)]
  then have dig: "w_DocumentDigest (p_Witness p) = sha256 (content d)" and lim: "0 \<le> sint m" "m \<noteq> max_int64"
    and len: "int (length (content d)) \<le> sint m"
    by (auto simp: hashDocument_eq_Inr)
  have "IntegrityVerified (Verify_package (Some d) (Some (bytes_reader data)) m)"
    using created_package_verifies [OF assms(1) len lim(2)] assms(2) by (auto simp: Let_def)
  then show "IntegrityVerified (Verify_package (Some e) (Some (bytes_reader data)) k) \<longleftrightarrow>
      hashDocument (Some e) k = Inr (sha256 (content d))"
    unfolding IntegrityVerified_iff Read_bytes_reader [OF assms(2)] by (auto simp: dig)
  show "c_Status (r_Format (Verify_package (Some e) (Some (bytes_reader data)) k)) = Verified"
    by (rule report_read [OF Read_bytes_reader [OF assms(2)]])
qed

text \<open>What has been created, and what is read later.\<close>

lemma created_file:
  assumes fs: "file_system env entries loc"
    and run: "Run env (ascii ''create'' # cargs) s rnd = (0, s', rnd')"
    and flags: "Parse_flags create_flags Map.empty cargs = Flags_parsed cvals [doc, path]"
    and opened: "openRegular env doc s = (Inr d, s1)"
  obtains rep m p data where "CreateUnanchored (Some (of_Reader d)) rep m rnd = (Inr p, rnd')"
    "MarshalBinary_package p = Inr data" "entries s' (loc path) = Some (Regular private_mode data)"
proof (rule file_system.cli_create_run [OF fs run [unfolded Run_create]], goal_cases)
  case created: (3 vals doc1 path1 d1 s2 p data)
  then have same: "path1 = path" "d1 = d" using flags opened by auto
  have "entries s' (loc path) = Some (Regular private_mode data)"
    by (rule leftover_keeps [OF created(10)]) (simp add: same)
  then show thesis using that created(7,8) unfolding same by blast
qed (use flags in auto)

lemma verify_exit:
  assumes fs: "file_system env entries loc" and out: "\<forall>bs u. fst (out_Write env bs u) = None"
    and run: "Run env (ascii ''verify'' # args) t rnd = (code, t', rnd')"
    and flags: "Parse_flags verify_flags Map.empty args = Flags_parsed vals [doc, path]"
    and opened: "openRegular env doc t = (Inr e, t1)" "openRegular env path t1 = (Inr pkg, t2)"
    and limit: "limit = int64_flag vals (ascii ''max-document-bytes'') defaultDocumentLimit"
  shows "code = 2 \<and> (sint limit < 0 \<or> limit = max_int64) \<or>
    (let result = Verify_package (Some (of_Reader e)) (Some (of_Reader pkg)) limit in
     code = (if c_Status (r_Format result) = Unsupported then 3 else if \<not> IntegrityVerified result then 1
       else if \<not> bool_flag vals (ascii ''offline'') then 3 else 0))"
proof -
  have run': "cli_verify env args t = (code, t')"
    using run by (auto simp: Run_verify simp del: ascii_Cons split: prod.splits)
  show ?thesis
  proof (rule file_system.cli_verify_run [OF fs run'], goal_cases)
    case usage: 1
    from usage(3) [OF flags limit] usage(1) flags show ?case by auto
  next
    case unopened: 2
    from unopened(3) [OF flags opened] show ?case ..
  next
    case report: (3 vals1 doc1 path1 e1 t3 p1 t4 result)
    then have same: "vals1 = vals" "e1 = e" "p1 = pkg" using flags opened by auto
    show ?case
      using report(4,5) write_report_written [OF out] by (simp add: same limit Let_def del: ascii_Cons)
  qed
qed

text \<open>
  C11. A created package verifies its document, and no other one. After \<open>create\<close> has exited with
  success, as long as the package is still in place, and when output can be written, \<open>verify\<close> of any file with that package, read completely,
  exits with 0 or, without \<open>--offline\<close>, with 3 if the file has the bytes of the
  document created from, within the limit; and if it exits with either of these codes, the file has
  these bytes, or there is a SHA-256 collision between the two.
\<close>

theorem cli_create_verify:
  assumes "file_system env entries loc" and "\<forall>bs u. fst (out_Write env bs u) = None"
    and "Run env (ascii ''create'' # cargs) s rnd = (0, s', rnd')"
    and "Parse_flags create_flags Map.empty cargs = Flags_parsed cvals [doc, path]"
    and "openRegular env doc s = (Inr d, s1)"
    and "entries t (loc path) = entries s' (loc path)"
    and "Run env (ascii ''verify'' # vargs) t rnd1 = (code, t', rnd2)"
    and "Parse_flags verify_flags Map.empty vargs = Flags_parsed vals [doc', path]"
    and "openRegular env doc' t = (Inr e, t1)" and "openRegular env path t1 = (Inr pkg, t2)"
    and "ending (of_Reader pkg) = Eof" and "ending (of_Reader e) = Eof"
  shows "(content (of_Reader e) = content (of_Reader d) \<longrightarrow>
      int (length (content (of_Reader d))) \<le>
        sint (int64_flag vals (ascii ''max-document-bytes'') defaultDocumentLimit) \<longrightarrow>
      int64_flag vals (ascii ''max-document-bytes'') defaultDocumentLimit \<noteq> max_int64 \<longrightarrow>
      code = (if bool_flag vals (ascii ''offline'') then 0 else 3)) \<and>
    (code = 0 \<or> code = 3 \<longrightarrow> content (of_Reader e) = content (of_Reader d) \<or>
      collision_between {content (of_Reader e)} {content (of_Reader d)})"
proof -
  let ?limit = "int64_flag vals (ascii ''max-document-bytes'') defaultDocumentLimit"
  obtain rep m p data where c: "CreateUnanchored (Some (of_Reader d)) rep m rnd = (Inr p, rnd')"
    "MarshalBinary_package p = Inr data" "entries s' (loc path) = Some (Regular private_mode data)"
    by (rule created_file [OF assms(1,3-5)])
  have "entries t1 (loc path) = Some (Regular private_mode data)"
    using file_system.openRegular_keeps(1) [OF assms(1,9)] assms(6) c(3) by simp
  then have "of_Reader pkg = bytes_reader data"
    using file_system.openRegular_reads [OF assms(1,10) _ assms(11)] assms(11) by (simp add: bytes_reader_def)
  note V = created_verifies_iff [OF c(1,2), of "of_Reader e" ?limit, folded this]
  have "code = 2 \<and> (sint ?limit < 0 \<or> ?limit = max_int64) \<or>
      code = (if \<not> (hashDocument (Some (of_Reader e)) ?limit = Inr (sha256 (content (of_Reader d)))) then 1
        else if \<not> bool_flag vals (ascii ''offline'') then 3 else 0)"
    using verify_exit [OF assms(1,2,7-10) refl] by (simp add: V Let_def del: ascii_Cons)
  then show ?thesis
    unfolding hashDocument_eq_Inr
    using assms(12) sha256_eq_cases [of "content (of_Reader e)" "content (of_Reader d)"]
    by (auto simp del: ascii_Cons split: if_splits)
qed

section \<open>Witnesses\<close>

definition sample_files :: memory_files where
  "sample_files = \<lparr>mf_Entries = [ascii ''d'' \<mapsto> Regular 420 [1]], mf_Fails = [], mf_Temp = 0,
     mf_Out = [], mf_Err = []\<rparr>"

definition create_args :: "gostring list" where
  "create_args = map ascii [''--unanchored'', ''--representation'', ''original'', ''d'', ''p'']"

definition verify_args :: "gostring list" where
  "verify_args = map ascii [''-offline=true'', ''d'', ''p'']"

definition sample_opened :: "bytes \<Rightarrow> memory_files opened_file" where
  "sample_opened data = \<lparr>of_Regular = Inr True, of_Reader = bytes_reader data, of_Close = (\<lambda>s. s)\<rparr>"

lemma sample_create_flags:
  obtains vals where "Parse_flags create_flags Map.empty create_args = Flags_parsed vals [ascii ''d'', ascii ''p'']"
    "bool_flag vals (ascii ''unanchored'')" "string_flag vals (ascii ''representation'') [] = ascii ''original''"
    "int64_flag vals (ascii ''max-document-bytes'') defaultDocumentLimit = defaultDocumentLimit"
  by (rule that [of "[ascii ''unanchored'' \<mapsto> Bool_value True,
        ascii ''representation'' \<mapsto> String_value (ascii ''original'')]"])
    (simp_all add: create_args_def create_flags_def split_equals_def flag_value_of_def ParseBool_def
      bool_flag_def string_flag_def int64_flag_def)

lemma sample_verify_flags:
  obtains vals where "Parse_flags verify_flags Map.empty verify_args = Flags_parsed vals [ascii ''d'', ascii ''p'']"
    "bool_flag vals (ascii ''offline'')"
    "int64_flag vals (ascii ''max-document-bytes'') defaultDocumentLimit = defaultDocumentLimit"
  by (rule that [of "[ascii ''offline'' \<mapsto> Bool_value True]"])
    (simp_all add: verify_args_def verify_flags_def split_equals_def flag_value_of_def ParseBool_def
      bool_flag_def int64_flag_def)

lemma sample_file_opens:
  assumes "mf_Fails s = []" "mf_Entries s path = Some (Regular m data)"
  shows "openRegular mem_files path s = (Inr (sample_opened data), s)"
  using assms by (simp add: openRegular_def mem_files_def failing_def next_turn_def sample_opened_def)

lemma sample_save:
  assumes "s = sample_files"
  shows "\<exists>s'. writePrivateFile mem_files (ascii ''p'') data s = (None, s') \<and> mf_Fails s' = [] \<and>
    mf_Entries s' = (mf_Entries s)(ascii ''p'' \<mapsto> Regular private_mode data)"
proof -
  have dir: "filepath_Dir (ascii ''p'') = ascii ''.''"
    by (simp add: filepath_Dir_def filepath_Clean_def)
  show ?thesis
    unfolding writePrivateFile_def dir
    by (simp add: assms mem_files_def failing_def next_turn_def sample_files_def Let_def fun_upd_twist)
qed

lemma sample_limit: "sint defaultDocumentLimit = 67108864" "defaultDocumentLimit \<noteq> max_int64"
  by (simp_all add: defaultDocumentLimit_def max_int64_def)

lemma sample_package:
  obtains p rnd' data where "CreateUnanchored (Some (bytes_reader [1])) Original defaultDocumentLimit [Inr [9]] = (Inr p, rnd')"
    "MarshalBinary_package p = Inr data"
proof -
  have h: "hashDocument (Some (bytes_reader [1])) defaultDocumentLimit = Inr (sha256 [1])"
    by (simp add: hashDocument_eq_Inr sample_limit)
  obtain w c rnd' where new:
    "New_commitment (Some (bytes_reader [1])) Original defaultDocumentLimit [Inr [9]] = (Inr (w, c), rnd')"
    using New_commitment_succeeds [of "Some (bytes_reader [1])" Original defaultDocumentLimit "[Inr [9]]"] h by auto
  have "New_manifest [c] = Inr (manifest_of [c])" by (rule New_manifest_of) simp_all
  then obtain p where p: "CreateUnanchored (Some (bytes_reader [1])) Original defaultDocumentLimit [Inr [9]] = (Inr p, rnd')"
    by (simp add: CreateUnanchored_def new)
  then show thesis
    using that created_package_verifies [OF p, of defaultDocumentLimit] by (auto simp: sample_limit)
qed

lemma sample_created:
  obtains s' rnd' data where "Run mem_files (ascii ''create'' # create_args) sample_files [Inr [9]] = (0, s', rnd')"
    "mf_Fails s' = []"
    "mf_Entries s' = [ascii ''d'' \<mapsto> Regular 420 [1], ascii ''p'' \<mapsto> Regular private_mode data]"
proof -
  obtain vals where flags: "Parse_flags create_flags Map.empty create_args = Flags_parsed vals [ascii ''d'', ascii ''p'']"
    "bool_flag vals (ascii ''unanchored'')" "string_flag vals (ascii ''representation'') [] = ascii ''original''"
    "int64_flag vals (ascii ''max-document-bytes'') defaultDocumentLimit = defaultDocumentLimit"
    by (rule sample_create_flags)
  obtain p rnd' data where p: "CreateUnanchored (Some (bytes_reader [1])) Original defaultDocumentLimit [Inr [9]] = (Inr p, rnd')"
    "MarshalBinary_package p = Inr data"
    by (rule sample_package)
  have "openRegular mem_files (ascii ''d'') sample_files = (Inr (sample_opened [1]), sample_files)"
    by (rule sample_file_opens) (simp_all add: sample_files_def)
  moreover obtain s1 where s1: "writePrivateFile mem_files (ascii ''p'') data sample_files = (None, s1)" "mf_Fails s1 = []"
    "mf_Entries s1 = (mf_Entries sample_files)(ascii ''p'' \<mapsto> Regular private_mode data)"
    using sample_save [OF refl] by blast
  moreover have "of_Reader (sample_opened [1]) = bytes_reader [1]" "of_Close (sample_opened [1]) = (\<lambda>s. s)"
    by (simp_all add: sample_opened_def)
  ultimately have "Run mem_files (ascii ''create'' # create_args) sample_files [Inr [9]] =
      (0, snd (out_Write mem_files (ascii (''Created experimental unanchored package. '' @
        ''No independent publication, timestamp or provenance has been established.'') @ [10]) s1), rnd')"
    by (simp add: Run_create cli_create_def flags p sample_limit Let_def del: ascii_Cons)
  then show thesis
    by (rule that) (simp_all add: mem_files_def s1 sample_files_def)
qed

lemma sample_verified:
  assumes "mf_Fails s = []"
    "mf_Entries s = [ascii ''d'' \<mapsto> Regular 420 [1], ascii ''p'' \<mapsto> Regular private_mode data]"
  shows "openRegular mem_files (ascii ''d'') s = (Inr (sample_opened [1]), s)"
    "openRegular mem_files (ascii ''p'') s = (Inr (sample_opened data), s)"
  using assms by (simp_all add: sample_file_opens)

lemma mem_output: "\<forall>bs u. fst (out_Write mem_files bs u) = None"
  by (simp add: mem_files_def)

lemma sample_opened_reader: "of_Reader (sample_opened data) = bytes_reader data"
  by (simp add: sample_opened_def)

theorem cli_never_overwrites_witness:
  "\<exists>s' rnd' data. Run mem_files (ascii ''create'' # create_args) sample_files [Inr [9]] = (0, s', rnd') \<and>
     mf_Entries s' (ascii ''d'') = Some (Regular 420 [1]) \<and> mf_Entries s' (ascii ''p'') = Some (Regular private_mode data)"
proof -
  obtain s' rnd' data where run: "Run mem_files (ascii ''create'' # create_args) sample_files [Inr [9]] = (0, s', rnd')"
    "mf_Entries s' = [ascii ''d'' \<mapsto> Regular 420 [1], ascii ''p'' \<mapsto> Regular private_mode data]"
    by (rule sample_created)
  have "mf_Entries sample_files (ascii ''d'') = Some (Regular 420 [1])" by (simp add: sample_files_def)
  with cli_never_overwrites [OF memory_files.file_system_axioms run(1)]
  have "mf_Entries s' (ascii ''d'') = Some (Regular 420 [1])" by blast
  with run show ?thesis by auto
qed

theorem cli_create_verify_witness:
  "\<exists>s s' rnd. Run mem_files (ascii ''verify'' # verify_args) s [] = (0, s', rnd)"
proof -
  obtain s' rnd' data where run: "Run mem_files (ascii ''create'' # create_args) sample_files [Inr [9]] = (0, s', rnd')"
    "mf_Fails s' = []" "mf_Entries s' = [ascii ''d'' \<mapsto> Regular 420 [1], ascii ''p'' \<mapsto> Regular private_mode data]"
    by (rule sample_created)
  obtain cvals where c: "Parse_flags create_flags Map.empty create_args = Flags_parsed cvals [ascii ''d'', ascii ''p'']"
    by (rule sample_create_flags)
  obtain vals where v: "Parse_flags verify_flags Map.empty verify_args = Flags_parsed vals [ascii ''d'', ascii ''p'']"
    "bool_flag vals (ascii ''offline'')"
    "int64_flag vals (ascii ''max-document-bytes'') defaultDocumentLimit = defaultDocumentLimit"
    by (rule sample_verify_flags)
  have opened: "openRegular mem_files (ascii ''d'') sample_files = (Inr (sample_opened [1]), sample_files)"
    by (rule sample_file_opens) (simp_all add: sample_files_def)
  obtain code t' rnd where ver: "Run mem_files (ascii ''verify'' # verify_args) s' [] = (code, t', rnd)"
    by (metis prod.collapse)
  have "code = 0"
    using cli_create_verify [OF memory_files.file_system_axioms mem_output run(1) c opened refl ver v(1)
        sample_verified [OF run(2,3)]]
    by (simp add: sample_opened_reader sample_limit v(2,3) del: ascii_Cons)
  with ver show ?thesis by blast
qed

theorem cli_exit_codes_witness:
  "\<exists>s s' code rnd. Run mem_files (ascii ''verify'' # verify_args) s [] = (code, s', rnd) \<and> code \<in> {0, 1, 2, 3} \<and>
     mf_Entries s' = mf_Entries s \<and> mf_Entries s (ascii ''d'') = Some (Regular 420 [1])"
proof -
  obtain code s' rnd where run: "Run mem_files (ascii ''verify'' # verify_args) sample_files [] = (code, s', rnd)"
    by (metis prod.collapse)
  from cli_exit_codes [OF memory_files.file_system_axioms run] run show ?thesis
    by (intro exI [of _ sample_files] exI [of _ s'] exI [of _ code] exI [of _ rnd]) (simp add: sample_files_def)
qed

end
