(* ===== verification/Go_Net.thy ===== *)
theory Go_Net
  imports Go_Json_Values
begin

text \<open>
  What the daemon uses of packages \<^verbatim>\<open>net\<close> and \<^verbatim>\<open>net/netip\<close>: \<^verbatim>\<open>SplitHostPort\<close>, \<^verbatim>\<open>ParseIP\<close> and
  \<^verbatim>\<open>IP.IsLoopback\<close>. An address has 16 bytes, an IPv4 address the ones of its mapped form.
\<close>

section \<open>Hosts and ports\<close>

text \<open>The parts before and after the last colon; brackets enclose a host that contains colons.\<close>

definition before_last :: "u8 \<Rightarrow> gostring \<Rightarrow> gostring" where
  "before_last c s = rev (tl (dropWhile (\<lambda>x. x \<noteq> c) (rev s)))"

definition after_last :: "u8 \<Rightarrow> gostring \<Rightarrow> gostring" where
  "after_last c s = rev (takeWhile (\<lambda>x. x \<noteq> c) (rev s))"

definition SplitHostPort :: "gostring \<Rightarrow> (gostring \<times> gostring) option" where
  "SplitHostPort hostport =
     (if 58 \<notin> set hostport then None
      else let front = before_last 58 hostport; port = after_last 58 hostport in
        if hd hostport = 91 then
          (let host = takeWhile (\<lambda>x. x \<noteq> 93) (tl hostport) in
           if front \<noteq> [91] @ host @ [93] then None
           else if 91 \<in> set host \<or> 91 \<in> set port \<or> 93 \<in> set port then None
           else Some (host, port))
        else if 58 \<in> set front then None
        else if 91 \<in> set hostport \<or> 93 \<in> set hostport then None
        else Some (front, port))"

section \<open>Addresses\<close>

text \<open>Four decimal fields without leading zeros; \<open>split_dots\<close> are the parts between the dots.\<close>

fun split_dots :: "gostring \<Rightarrow> gostring list" where
  "split_dots [] = [[]]"
| "split_dots (c # cs) =
     (if c = 46 then [] # split_dots cs
      else (case split_dots cs of [] \<Rightarrow> [[c]] | e # es \<Rightarrow> (c # e) # es))"

definition ipv4_field :: "gostring \<Rightarrow> u8 option" where
  "ipv4_field s =
     (case parse_uint s of
        None \<Rightarrow> None
      | Some n \<Rightarrow> if (1 < length s \<and> hd s = 48) \<or> 255 < n then None else Some (of_nat n))"

definition parse_ipv4 :: "gostring \<Rightarrow> bytes option" where
  "parse_ipv4 s =
     (case map ipv4_field (split_dots s) of
        [Some a, Some b, Some c, Some d] \<Rightarrow> Some [a, b, c, d]
      | _ \<Rightarrow> None)"

text \<open>
  The fields of an IPv6 address read so far, as bytes, and the place of the ellipsis \<open>::\<close> among
  them; the last component of the result is what is left of the text.
\<close>

definition hex_field :: "gostring \<Rightarrow> gostring" where
  "hex_field s = takeWhile (\<lambda>c. hex_value c \<noteq> None) s"

definition hex_word :: "gostring \<Rightarrow> bytes" where
  "hex_word h = (let n = foldl (\<lambda>a c. a * 16 + the (hex_value c)) 0 h in [of_nat (n div 256), of_nat (n mod 256)])"

function ipv6_fields :: "bytes \<Rightarrow> nat option \<Rightarrow> gostring \<Rightarrow> (bytes \<times> nat option \<times> gostring) option" where
  "ipv6_fields ip ellipsis s =
     (if 16 \<le> length ip then Some (ip, ellipsis, s)
      else let h = hex_field s; rest = drop (length h) s in
        if h = [] \<or> 4 < length h then None
        else if rest \<noteq> [] \<and> hd rest = 46 then
          (if (ellipsis = None \<and> length ip \<noteq> 12) \<or> 16 < length ip + 4 then None
           else (case parse_ipv4 s of None \<Rightarrow> None | Some quad \<Rightarrow> Some (ip @ quad, ellipsis, [])))
        else let ip = ip @ hex_word h in
          if rest = [] then Some (ip, ellipsis, [])
          else if hd rest \<noteq> 58 \<or> length rest = 1 then None
          else let s = tl rest in
            if hd s \<noteq> 58 then ipv6_fields ip ellipsis s
            else if ellipsis \<noteq> None then None
            else if tl s = [] then Some (ip, Some (length ip), [])
            else ipv6_fields ip (Some (length ip)) (tl s))"
  by pat_completeness auto
termination
proof (relation "measure (\<lambda>(ip, e, s). length s)")
qed (auto simp: Let_def hex_field_def)

declare ipv6_fields.simps [simp del]

definition parse_ipv6 :: "gostring \<Rightarrow> bytes option" where
  "parse_ipv6 s =
     (if 37 \<in> set s then None
      else if s = [58, 58] then Some (replicate 16 0)
      else case (if take 2 s = [58, 58] then ipv6_fields [] (Some 0) (drop 2 s) else ipv6_fields [] None s) of
          None \<Rightarrow> None
        | Some (ip, ellipsis, rest) \<Rightarrow>
            if rest \<noteq> [] then None
            else (case ellipsis of
                None \<Rightarrow> if length ip < 16 then None else Some ip
              | Some e \<Rightarrow> if 16 \<le> length ip then None
                  else Some (take e ip @ replicate (16 - length ip) 0 @ drop e ip)))"

text \<open>
  \<^verbatim>\<open>ParseIP\<close>: the first dot or colon decides the family; an address with a zone is not an \<^verbatim>\<open>IP\<close>.
\<close>

definition mapped :: "bytes \<Rightarrow> bytes" where
  "mapped quad = replicate 10 0 @ [255, 255] @ quad"

definition ParseIP :: "gostring \<Rightarrow> bytes option" where
  "ParseIP s =
     (case dropWhile (\<lambda>c. c \<notin> {46, 58, 37}) s of
        [] \<Rightarrow> None
      | c # _ \<Rightarrow>
          if c = 46 then map_option mapped (parse_ipv4 s)
          else if c = 58 then parse_ipv6 s
          else None)"

definition IsLoopback :: "bytes \<Rightarrow> bool" where
  "IsLoopback ip \<longleftrightarrow>
     (if take 12 ip = mapped [] then ip ! 12 = 127 else ip = replicate 15 0 @ [1])"

section \<open>Texts of addresses\<close>

lemma SplitHostPort_Some:
  assumes "SplitHostPort addr = Some (host, port)"
  shows "addr = host @ [58] @ port \<or> addr = [91] @ host @ [93, 58] @ port"
proof -
  have mem: "58 \<in> set addr" using assms by (auto simp: SplitHostPort_def split: if_splits)
  have "dropWhile (\<lambda>x. x \<noteq> 58) (rev addr) \<noteq> []" using mem by (simp add: dropWhile_eq_Nil_conv)
  then have "dropWhile (\<lambda>x. x \<noteq> 58) (rev addr) = 58 # tl (dropWhile (\<lambda>x. x \<noteq> 58) (rev addr))"
    using hd_dropWhile [of "\<lambda>x. x \<noteq> 58" "rev addr"] by (cases "dropWhile (\<lambda>x. x \<noteq> 58) (rev addr)") auto
  then have "rev addr = takeWhile (\<lambda>x. x \<noteq> 58) (rev addr) @ 58 # tl (dropWhile (\<lambda>x. x \<noteq> 58) (rev addr))"
    by (metis takeWhile_dropWhile_id)
  then have split: "addr = before_last 58 addr @ [58] @ after_last 58 addr"
    unfolding before_last_def after_last_def by (metis rev_rev_ident rev_append rev.simps(2) append_assoc)
  show ?thesis
    using assms split by (auto simp: SplitHostPort_def Let_def split: if_splits)
qed

lemma loopback_bytes:
  assumes "IsLoopback ip" "length ip = 16"
  shows "ip = replicate 15 0 @ [1] \<or> (\<exists>a b c. ip = mapped [127, a, b, c])"
proof (cases "take 12 ip = mapped []")
  case True
  have "length (drop 12 ip) = 4" using assms(2) by simp
  then have "length (drop 12 ip) = Suc (Suc (Suc (Suc 0)))" by simp
  then obtain a b c d where q: "drop 12 ip = [a, b, c, d]" by (auto simp only: length_Suc_conv length_0_conv)
  have "ip ! 12 = a" using q by (metis nth_via_drop)
  then have "a = 127" using assms(1) True by (simp add: IsLoopback_def)
  moreover have "ip = mapped [a, b, c, d]"
    using True q append_take_drop_id [of 12 ip] by (simp add: mapped_def)
  ultimately show ?thesis by blast
qed (use assms in \<open>simp add: IsLoopback_def\<close>)

lemma parse_ipv4_length: "parse_ipv4 s = Some q \<Longrightarrow> length q = 4"
  by (auto simp: parse_ipv4_def split: list.splits option.splits)

lemma length_hex_word [simp]: "length (hex_word h) = 2"
  by (simp add: hex_word_def Let_def)

lemma ipv6_fields_length:
  assumes "ipv6_fields ip e s = Some (ip', e', r)" "even (length ip)" "length ip \<le> 16"
    "\<forall>k. e = Some k \<longrightarrow> k \<le> length ip"
  shows "length ip' \<le> 16 \<and> (\<forall>k. e' = Some k \<longrightarrow> k \<le> length ip')"
  using assms
proof (induction ip e s rule: ipv6_fields.induct)
  case (1 ip e s)
  define h where "h = hex_field s"
  define rest where "rest = drop (length h) s"
  note run = "1.prems"(1) [unfolded ipv6_fields.simps [of ip e s] Let_def, folded h_def, folded rest_def]
  show ?case
  proof (cases "16 \<le> length ip")
    case True
    then show ?thesis using run "1.prems"(3,4) by simp
  next
    case False
    then have room: "length ip + 2 \<le> 16" "even (length (ip @ hex_word h))"
      using "1.prems"(2) by (auto elim!: evenE)
    note run2 = run [unfolded if_not_P [OF False]]
    show ?thesis
    proof (cases "h = [] \<or> 4 < length h \<or> rest = [] \<or> hd rest = 46 \<or> hd rest \<noteq> 58 \<or> length rest = 1")
      case True
      then show ?thesis
        using run2 "1.prems"(4) room by (auto split: if_splits option.splits dest: parse_ipv4_length)
    next
      case go: False
      then have c: "\<not> (h = [] \<or> 4 < length h)" "\<not> (rest \<noteq> [] \<and> hd rest = 46)" "rest \<noteq> []"
        "\<not> (hd rest \<noteq> 58 \<or> length rest = 1)" by auto
      note run3 = run2 [unfolded if_not_P [OF c(1)] if_not_P [OF c(2)] if_not_P [OF c(3)] if_not_P [OF c(4)]]
      note IH = "1.IH" [OF False h_def rest_def c(1,2) refl c(3,4) refl]
      have e: "\<forall>k. e = Some k \<longrightarrow> k \<le> length (ip @ hex_word h)" using "1.prems"(4) by auto
      show ?thesis
        using run3 IH e room by (auto split: if_splits)
    qed
  qed
qed

lemma ParseIP_length:
  assumes "ParseIP s = Some ip"
  shows "length ip = 16"
proof -
  have "length ip = 16" if "parse_ipv6 s = Some ip"
  proof (cases "37 \<in> set s \<or> s = [58, 58]")
    case True
    then show ?thesis using that by (auto simp: parse_ipv6_def split: if_splits)
  next
    case False
    define start where "start = (if take 2 s = [58, 58] then ipv6_fields [] (Some 0) (drop 2 s) else ipv6_fields [] None s)"
    note run = that [unfolded parse_ipv6_def, folded start_def]
    obtain jp e r where f: "start = Some (jp, e, r)"
      using run False by (cases start) auto
    have "length jp \<le> 16 \<and> (\<forall>k. e = Some k \<longrightarrow> k \<le> length jp)"
      using f unfolding start_def by (auto split: if_splits dest: ipv6_fields_length)
    then show ?thesis
      using run f False by (auto split: if_splits option.splits)
  qed
  moreover have "length (mapped q) = 16" if "parse_ipv4 s = Some q" for q
    using parse_ipv4_length [OF that] by (simp add: mapped_def)
  ultimately show ?thesis
    using assms by (auto simp: ParseIP_def split: list.splits if_splits)
qed

text \<open>The dotted text of four bytes.\<close>

definition dotted :: "u8 \<Rightarrow> u8 \<Rightarrow> u8 \<Rightarrow> u8 \<Rightarrow> gostring" where
  "dotted a b c d = decimal (unat a) @ [46] @ decimal (unat b) @ [46] @ decimal (unat c) @ [46] @ decimal (unat d)"

lemma decimal_no: "x \<in> set (decimal n) \<Longrightarrow> x \<noteq> 46 \<and> x \<noteq> 58 \<and> x \<noteq> 37 \<and> x \<noteq> 91 \<and> x \<noteq> 93"
  using decimal_digits [of n] by (auto simp: list_all_iff is_digit_def)

lemma split_dots_append: "46 \<notin> set s \<Longrightarrow> split_dots (s @ 46 # t) = s # split_dots t"
  by (induction s) auto

lemma split_dots_plain: "46 \<notin> set s \<Longrightarrow> split_dots s = [s]"
  by (induction s) auto

lemma ipv4_field_decimal: "ipv4_field (decimal (unat a)) = Some a"
proof -
  have "unat a < 256" using unsigned_less [of a, where ?'a = nat] by simp
  moreover have "\<not> (1 < length (decimal (unat a)) \<and> hd (decimal (unat a)) = 48)"
    using decimal_nonzero [of "unat a"] by (cases "unat a = 0") (auto simp: decimal.simps [of 0])
  ultimately show ?thesis by (simp add: ipv4_field_def)
qed

lemma ParseIP_dotted: "ParseIP (dotted a b c d) = Some (mapped [a, b, c, d])"
proof -
  have no: "46 \<notin> set (decimal n)" for n using decimal_no by blast
  have "parse_ipv4 (dotted a b c d) = Some [a, b, c, d]"
    by (simp add: parse_ipv4_def dotted_def split_dots_append [OF no] split_dots_plain [OF no] ipv4_field_decimal)
  moreover have "dropWhile (\<lambda>c. c \<notin> {46, 58, 37}) (decimal n @ 46 # r) = 46 # r" for n r
  proof -
    have "\<forall>x \<in> set (decimal n). x \<notin> {46, 58, 37}" using decimal_no by blast
    then show ?thesis by (simp add: dropWhile_append2)
  qed
  ultimately show ?thesis by (simp add: ParseIP_def) (simp add: dotted_def)
qed

end
