(* ===== verification/Storage_Open.thy ===== *)
theory Storage_Open
  imports Storage_Export Storage_Runs Go_Flag
begin

text \<open>
  Opening and closing the store (\<open>Open\<close> and \<open>Close\<close> of \<^verbatim>\<open>internal/storage/store.go\<close>): the checks of
  the file come before the transaction \<open>open_schema\<close>. The operations on files and on the database
  file are fields of a record, on a state \<open>'x\<close> of the world; what is relied on is the
  locale \<open>database_files\<close>; its instance is in theory \<open>Storage_Open_Props\<close>. The lemmas show that only a
  private file is opened, and that a store that was closed is opened again as it was left.
\<close>

section \<open>The operations\<close>

text \<open>
  The outcome of \<^verbatim>\<open>os.Lstat\<close>: whether the entry is a regular file, and its permission bits; an
  error that \<^verbatim>\<open>os.IsNotExist\<close> recognises; another error. \<open>sf_BoltOpen\<close> opens and locks a database,
  with its content; while it is open, its content is the state of the operations of the store.
\<close>

datatype lstat = Lstat_info bool "32 word" | Lstat_missing | Lstat_failed go_error

record ('d, 'x) store_files =
  sf_Lstat :: "gostring \<Rightarrow> 'x \<Rightarrow> lstat"
  sf_MkdirAll :: "gostring \<Rightarrow> 32 word \<Rightarrow> 'x \<Rightarrow> go_error option \<times> 'x"
  sf_BoltOpen :: "gostring \<Rightarrow> 32 word \<Rightarrow> 'x \<Rightarrow> 'd result \<times> 'x"
  sf_BoltClose :: "gostring \<Rightarrow> 'd \<Rightarrow> 'x \<Rightarrow> go_error option \<times> 'x"

definition Open :: "'d bolt \<Rightarrow> ('d, 'x) store_files \<Rightarrow> gostring \<Rightarrow> 'x \<Rightarrow> 'd result \<times> 'x" where
  "Open B F path x =
     (if path = [] then (Inl (Sent ErrInvalid), x)
      else case (case sf_Lstat F path x of
            Lstat_info regular perm \<Rightarrow>
              if \<not> regular \<or> and perm 63 \<noteq> 0 then Some (New ''database must be a private regular file'') else None
          | Lstat_missing \<Rightarrow> None
          | Lstat_failed err \<Rightarrow> Some err) of
        Some err \<Rightarrow> (Inl err, x)
      | None \<Rightarrow>
          (case sf_MkdirAll F (filepath_Dir path) 448 x of
             (Some err, x) \<Rightarrow> (Inl err, x)
           | (None, x) \<Rightarrow>
               (case sf_BoltOpen F path 384 x of
                  (Inl err, x) \<Rightarrow> (Inl err, x)
                | (Inr d, x) \<Rightarrow>
                    (case open_schema B d of
                       (Inl err, d) \<Rightarrow> (Inl err, snd (sf_BoltClose F path d x))
                     | (Inr _, d) \<Rightarrow> (Inr d, x)))))"

definition Close :: "('d, 'x) store_files \<Rightarrow> gostring \<Rightarrow> 'd \<Rightarrow> 'x \<Rightarrow> go_error option \<times> 'x" where
  "Close F path d x = sf_BoltClose F path d x"

section \<open>The contract\<close>

text \<open>
  \<open>loc\<close> is the place a path names; \<open>perms\<close> are the permission bits of the regular files, \<open>database\<close>
  the contents of the databases, \<open>locked\<close> the places whose lock is held. Opening waits for the
  lock and fails without it; a new database file has at most the permission bits asked for and is \<open>blank\<close>.
  Transactions are durable, so that the content of a closed database is that of its last one.
\<close>

locale database_files =
  fixes F :: "('d, 'x) store_files" and perms :: "'x \<Rightarrow> 'l \<rightharpoonup> 32 word" and database :: "'x \<Rightarrow> 'l \<rightharpoonup> 'd"
    and locked :: "'x \<Rightarrow> 'l \<Rightarrow> bool" and loc :: "gostring \<Rightarrow> 'l" and blank :: 'd
  assumes lstat_info: "sf_Lstat F p x = Lstat_info True m \<Longrightarrow> perms x (loc p) = Some m"
    and lstat_missing: "sf_Lstat F p x = Lstat_missing \<Longrightarrow> perms x (loc p) = None \<and> database x (loc p) = None"
    and mkdir_keeps: "sf_MkdirAll F p m x = (r, x') \<Longrightarrow>
      perms x' = perms x \<and> database x' = database x \<and> locked x' = locked x"
    and bolt_opens: "sf_BoltOpen F p m x = (Inr d, x') \<Longrightarrow>
      \<not> locked x (loc p) \<and> locked x' = (locked x)(loc p := True) \<and>
      d = (case database x (loc p) of Some d \<Rightarrow> d | None \<Rightarrow> blank) \<and> database x' = (database x)(loc p \<mapsto> d) \<and>
      (if perms x (loc p) = None then \<exists>n. perms x' = (perms x)(loc p \<mapsto> n) \<and> and n m = n else perms x' = perms x)"
    and bolt_open_fails: "sf_BoltOpen F p m x = (Inl err, x') \<Longrightarrow>
      locked x' = locked x \<and> (\<forall>l d. database x l = Some d \<longrightarrow> database x' l = Some d)"
    and bolt_closes: "sf_BoltClose F p d x = (r, x') \<Longrightarrow>
      perms x' = perms x \<and> database x' = (database x)(loc p \<mapsto> d) \<and>
      locked x' = (if r = None then (locked x)(loc p := False) else locked x')"

definition private_bits :: "32 word \<Rightarrow> bool" where
  "private_bits m \<longleftrightarrow> and m 63 = 0"

lemma new_file_private: "and n 384 = n \<Longrightarrow> private_bits n"
proof -
  assume n: "and n 384 = n"
  have "and n 63 = and (and n 384) 63" by (simp add: n)
  also have "\<dots> = and n (and 384 63)" by (simp only: and.assoc)
  finally show ?thesis by (simp add: private_bits_def)
qed

text \<open>What has been checked when a store was opened.\<close>

lemma Open_inr_cases:
  assumes "Open B F path x = (Inr d, x')"
  obtains x1 d0 where "path \<noteq> []"
    "sf_Lstat F path x = Lstat_missing \<or> (\<exists>m. sf_Lstat F path x = Lstat_info True m \<and> private_bits m)"
    "sf_MkdirAll F (filepath_Dir path) 448 x = (None, x1)" "sf_BoltOpen F path 384 x1 = (Inr d0, x')"
    "open_schema B d0 = (Inr (), d)"
  using assms
  by (auto simp: Open_def private_bits_def split: if_splits lstat.splits option.splits prod.splits sum.splits)

section \<open>What every run keeps\<close>

text \<open>No run removes a bucket or writes to the one that records the schema.\<close>

definition keeps :: "'d bolt \<Rightarrow> 'd \<Rightarrow> 'd \<Rightarrow> bool" where
  "keeps B d d' \<longleftrightarrow> (\<forall>q. bk_exists B d q \<longrightarrow> bk_exists B d' q) \<and>
     (\<forall>k. bk_get B d' schema_path k = bk_get B d schema_path k)"

text \<open>The schema that \<open>Open\<close> accepts.\<close>

definition has_schema :: "'d bolt \<Rightarrow> 'd \<Rightarrow> bool" where
  "has_schema B d \<longleftrightarrow> bk_exists B d schema_path \<and> bk_get B d schema_path (ascii ''version'') = Some [1] \<and>
     bk_exists B d tenants_path"

lemma keeps_refl [simp]: "keeps B d d"
  by (simp add: keeps_def)

lemma keeps_trans: "keeps B d d1 \<Longrightarrow> keeps B d1 d2 \<Longrightarrow> keeps B d d2"
  by (simp add: keeps_def)

lemma keeps_chain:
  assumes "keeps B d d1" "keeps B d1 d2" "keeps B d2 d3" "keeps B d3 d4"
  shows "keeps B d d4" and "keeps B d4 d5 \<Longrightarrow> keeps B d d5"
proof -
  show "keeps B d d4" by (rule keeps_trans [OF assms(1) keeps_trans [OF assms(2) keeps_trans [OF assms(3,4)]]])
  then show "keeps B d4 d5 \<Longrightarrow> keeps B d d5" by (rule keeps_trans)
qed

lemma bucket_not_schema: "bucket (tenant_path n) b \<noteq> schema_path" "tenant_path n \<noteq> schema_path"
  by (simp_all add: bucket_def tenant_path_def tenants_path_def schema_path_def)

context bolt_laws
begin

lemma keeps_put: "bk_put B d p k v = Inr d' \<Longrightarrow> p \<noteq> schema_path \<Longrightarrow> keeps B d d'"
  by (simp add: keeps_def put_exists put_get)

lemma keeps_delete: "bk_delete B d p k = Inr d' \<Longrightarrow> p \<noteq> schema_path \<Longrightarrow> keeps B d d'"
  by (simp add: keeps_def delete_exists delete_get)

lemma keeps_next: "bk_next B d p = Inr (i, d') \<Longrightarrow> keeps B d d'"
  by (simp add: keeps_def next_exists next_get)

lemma keeps_put_evidence: "put_evidence B (tenant_path n) e d = Inr d' \<Longrightarrow> keeps B d d'"
  by (auto simp: put_evidence_def Let_def bucket_not_schema split: if_splits intro: keeps_put)

lemma keeps_put_batch: "put_batch B (tenant_path n) i b d = Inr d' \<Longrightarrow> keeps B d d'"
  by (auto simp: put_batch_def Let_def bucket_not_schema split: if_splits intro: keeps_put)

lemma keeps_tenant:
  assumes "tenant B d n c = Inr (t, d')"
  shows "t = tenant_path n \<and> keeps B d d'"
proof (cases "c \<and> \<not> bk_exists B d (tenant_path n)")
  case True
  then obtain d1 where c1: "bk_create B d tenants_path n = Inr d1"
    and c2: "create_all B (tenant_path n) tenantBuckets d1 = Inr d'" and "t = tenant_path n"
    using assms by (auto simp: tenant_def Let_def result_simps split: if_splits)
  moreover have "schema_path \<noteq> tenants_path @ [n]" "schema_path \<notin> (\<lambda>x. tenant_path n @ [x]) ` set tenantBuckets"
    by (auto simp: schema_path_def tenants_path_def tenant_path_def)
  then have "keeps B d d1" "keeps B d1 d'"
    unfolding keeps_def create_exists [OF c1] create_get [OF c1] create_all_Inr [OF c2] by simp_all
  ultimately show ?thesis by (simp add: keeps_trans [of B d d1])
next
  case False
  then have "d' = d \<and> t = tenant_path n"
    using assms by (cases c) (auto simp: tenant_def Let_def result_simps split: if_splits)
  then show ?thesis by simp
qed

lemma keeps_bind_members: "bind_members B (tenant_path n) i j es d = Inr (ids, d') \<Longrightarrow> keeps B d d'"
proof (induction es arbitrary: j d ids)
  case (Cons e es)
  then obtain d1 d2 ids' where "put_evidence B (tenant_path n) (e\<lparr>e_BatchID := i, e_Index := of_nat j\<rparr>) d = Inr d1"
    "bk_delete B d1 (bucket (tenant_path n) ''pending'') (sequenceKey (e_Sequence e)) = Inr d2"
    "bind_members B (tenant_path n) i (j + 1) es d2 = Inr (ids', d')"
    by (auto simp: bindE_eq_Inr)
  with Cons.IH show ?case
    using keeps_put_evidence keeps_delete bucket_not_schema(1) keeps_trans by metis
qed simp

lemma keeps_Ingest:
  assumes "Ingest B req d rnd = (r, d', rnd')"
  shows "keeps B d d'"
proof (cases r)
  case (Inr ec)
  obtain e c where ec: "ec = (e, c)" by (cases ec)
  have run: "ingest B req d rnd = (Inr ((e, c), d'), rnd')"
    using assms Inr ec by (auto simp: Ingest_def Update_rnd_Inr split: if_splits sum.splits)
  then obtain t d1 where t: "tenant B d (i_Tenant req) True = Inr (t, d1)"
    by (auto simp: ingest_def split: sum.splits)
  note kt = keeps_tenant [OF t]
  note run2 = run [unfolded t ingest_def sum.case prod.case Let_def kt [THEN conjunct1]]
  let ?found = "case bk_get B d1 (bucket (tenant_path (i_Tenant req)) ''keys'') (i_Key req) of
    Some ident \<Rightarrow> Some ident
    | None \<Rightarrow> bk_get B d1 (bucket (tenant_path (i_Tenant req)) ''sources'')
        (sourceKey (i_Source req) (w_Representation (i_Witness req)))"
  have "keeps B d1 d'"
  proof (cases ?found)
    case (Some ident)
    then show ?thesis
      using run2 by (auto simp: bindE_eq_Inr bucket_not_schema split: if_splits dest!: keeps_put)
  next
    case None
    then obtain ident sequence d2 d3 d4 d5 where
      "bk_next B d1 (bucket (tenant_path (i_Tenant req)) ''evidence'') = Inr (sequence, d2)"
      "put_evidence B (tenant_path (i_Tenant req)) \<lparr>e_ID = ident, e_Sequence = sequence, e_Source = i_Source req,
         e_Witness = i_Witness req, e_BatchID = [], e_Index = 0\<rparr> d2 = Inr d3"
      "bk_put B d3 (bucket (tenant_path (i_Tenant req)) ''keys'') (i_Key req) ident = Inr d4"
      "bk_put B d4 (bucket (tenant_path (i_Tenant req)) ''sources'')
         (sourceKey (i_Source req) (w_Representation (i_Witness req))) ident = Inr d5"
      "bk_put B d5 (bucket (tenant_path (i_Tenant req)) ''pending'') (sequenceKey sequence) ident = Inr d'"
      using run2 by (auto simp: bindE_eq_Inr split: prod.splits sum.splits if_splits)
    then show ?thesis
      by (intro keeps_chain(2) [OF keeps_next keeps_put_evidence keeps_put keeps_put keeps_put])
        (assumption | rule bucket_not_schema)+
  qed
  then show ?thesis using kt keeps_trans [of B d d1 d'] by simp
qed (metis assms Ingest_error keeps_refl)

lemma keeps_Freeze:
  assumes "Freeze B n key limit d rnd = (r, d', rnd')"
  shows "keeps B d d'"
proof (cases r)
  case (Inr b)
  have run: "freeze B n key limit d rnd = (Inr (b, d'), rnd')"
    using assms Inr by (auto simp: Freeze_def Update_rnd_Inr split: if_splits)
  then obtain t d1 where t: "tenant B d n False = Inr (t, d1)"
    by (auto simp: freeze_def split: sum.splits)
  then have "t = tenant_path n" using keeps_tenant by blast
  then show ?thesis
    using run unfolding freeze_def t sum.case prod.case Let_def
    by (auto simp: bindE_eq_Inr bucket_not_schema split: option.splits sum.splits prod.splits if_splits
        dest!: keeps_put keeps_put_batch keeps_bind_members intro: keeps_chain)
qed (metis assms Freeze_error keeps_refl)

lemma keeps_RecordSubmission:
  assumes "RecordSubmission B n i st ref d = (r, d')"
  shows "keeps B d d'"
proof (cases r)
  case (Inr b)
  then show ?thesis
    using assms by (auto simp: RecordSubmission_def Update_Inr tenant_readonly bindE_eq_Inr Let_def bucket_not_schema
        split: if_splits dest!: keeps_put keeps_delete keeps_put_batch intro: keeps_trans)
qed (metis assms RecordSubmission_error keeps_refl)

lemma step_keeps: "store_step B d d' \<Longrightarrow> keeps B d d'"
proof (erule store_step_cases)
  fix u assume "bk_exists B d schema_path" "open_schema B d = (u, d')"
  then have "d' = d" by (cases u) (auto dest: open_schema_error open_schema_again)
  then show "keeps B d d'" by simp
qed (auto dest: keeps_Ingest keeps_Freeze keeps_RecordSubmission)

lemma has_schema_keeps: "has_schema B d \<Longrightarrow> keeps B d d' \<Longrightarrow> has_schema B d'"
  by (auto simp: has_schema_def keeps_def)

lemma opened_has_schema:
  assumes "open_schema B d = (Inr u, d')"
  shows "has_schema B d'"
proof -
  have "bk_exists B d' schema_path"
  proof (cases "bk_exists B d schema_path")
    case True
    then show ?thesis using open_schema_again [OF True assms] by simp
  next
    case False
    then obtain d1 d2 where c: "bk_create B d [] (ascii ''schema'') = Inr d1"
      "bk_put B d1 schema_path (ascii ''version'') [1] = Inr d2" "bk_create B d2 [] (ascii ''tenants'') = Inr d'"
      using assms by (auto simp: open_schema_def Update_Inr bindE_eq_Inr simp del: ascii_Cons split: if_splits)
    show ?thesis by (simp add: create_exists [OF c(3)] put_exists [OF c(2)] create_exists [OF c(1)] schema_path_def)
  qed
  then show ?thesis using open_schema_version [OF assms] by (simp add: has_schema_def del: ascii_Cons)
qed

lemma reachable_has_schema: "reachable B d \<Longrightarrow> has_schema B d"
  by (induction rule: reachable.induct) (auto dest: opened_has_schema step_keeps has_schema_keeps)

lemma open_schema_accepts: "accepting B \<Longrightarrow> has_schema B d \<Longrightarrow> open_schema B d = (Inr (), d)"
  by (simp add: open_schema_def has_schema_def Update_def del: ascii_Cons)

text \<open>Opening a store that was reachable, or a new one, gives a reachable store.\<close>

lemma open_schema_reachable:
  assumes "open_schema B d = (Inr (), d')" "bk_exists B d schema_path \<Longrightarrow> reachable B d"
  shows "reachable B d'"
  using assms open_schema_again by (cases "bk_exists B d schema_path") (auto intro: reachable_new)

end

section \<open>What opening does\<close>

context database_files
begin

lemma Open_fails:
  assumes "Open B F path x = (Inl err, x')" "database x l = Some d"
  shows "database x' l = Some d"
proof -
  obtain r1 x1 where mk: "sf_MkdirAll F (filepath_Dir path) 448 x = (r1, x1)"
    by (cases "sf_MkdirAll F (filepath_Dir path) 448 x")
  obtain r2 x2 where op: "sf_BoltOpen F path 384 x1 = (r2, x2)" by (cases "sf_BoltOpen F path 384 x1")
  note same = mkdir_keeps [OF mk]
  consider "x' = x" | "x' = x1" | e where "r2 = Inl e" "x' = x2"
    | d0 d1 where "r2 = Inr d0" "open_schema B d0 = (Inl err, d1)" "x' = snd (sf_BoltClose F path d1 x2)"
    using assms(1) by (auto simp: Open_def mk op split: if_splits lstat.splits option.splits sum.splits prod.splits)
  then show ?thesis
  proof cases
    case (3 e)
    then show ?thesis using bolt_open_fails [of path 384 x1 e x2] op same assms(2) by simp
  next
    case (4 d0 d1)
    have "d1 = d0" by (rule open_schema_error [OF 4(2)])
    moreover have "d0 = (case database x (loc path) of Some d \<Rightarrow> d | None \<Rightarrow> blank)"
      "database x2 = (database x)(loc path \<mapsto> d0)"
      using bolt_opens [of path 384 x1 d0 x2] op 4(1) same by auto
    moreover obtain r3 where "sf_BoltClose F path d1 x2 = (r3, x')" using 4(3) by (metis prod.collapse)
    ultimately show ?thesis using bolt_closes [of path d1 x2 r3 x'] assms(2) by auto
  qed (use same assms(2) in auto)
qed

lemma Open_private:
  assumes "Open B F path x = (Inr d, x')"
  shows "\<not> locked x (loc path) \<and> locked x' (loc path) \<and>
    (\<forall>m. perms x (loc path) = Some m \<longrightarrow> private_bits m) \<and>
    (\<exists>m. perms x' (loc path) = Some m \<and> private_bits m) \<and>
    open_schema B (case database x (loc path) of Some d \<Rightarrow> d | None \<Rightarrow> blank) = (Inr (), d)"
proof (rule Open_inr_cases [OF assms])
  fix x1 d0
  assume st: "sf_Lstat F path x = Lstat_missing \<or> (\<exists>m. sf_Lstat F path x = Lstat_info True m \<and> private_bits m)"
    and mk: "sf_MkdirAll F (filepath_Dir path) 448 x = (None, x1)"
    and op: "sf_BoltOpen F path 384 x1 = (Inr d0, x')" and sc: "open_schema B d0 = (Inr (), d)"
  have "\<forall>m. perms x (loc path) = Some m \<longrightarrow> private_bits m"
    using st lstat_info [of path x] lstat_missing [of path x] by auto
  moreover note same = mkdir_keeps [OF mk] and opened = bolt_opens [OF op]
  moreover have "\<exists>m. perms x' (loc path) = Some m \<and> private_bits m"
    using opened same calculation(1) new_file_private by (cases "perms x (loc path)") auto
  ultimately show ?thesis using sc by simp
qed

lemma Open_closed_again:
  assumes laws: "bolt_laws B" and run: "Open B F path x = (Inr d, x1)" and steps: "store_run B d d'"
    and kept: "perms y = perms x1" "database y (loc path) = Some d'"
  shows "Open B F path y = (Inr d2, x3) \<Longrightarrow> d2 = d'"
    and "accepting B \<Longrightarrow> sf_Lstat F path y = Lstat_info True m \<Longrightarrow>
      sf_MkdirAll F (filepath_Dir path) 448 y = (None, y1) \<Longrightarrow> sf_BoltOpen F path 384 y1 = (Inr d0, y2) \<Longrightarrow>
      Open B F path y = (Inr d', y2)"
proof -
  note P = Open_private [OF run]
  have "has_schema B d" using P bolt_laws.opened_has_schema [OF laws] by blast
  moreover have "keeps B d d'" using steps
    by (induction rule: store_run.induct) (auto intro: keeps_trans dest: bolt_laws.step_keeps [OF laws])
  ultimately have sch: "has_schema B d'" by (rule bolt_laws.has_schema_keeps [OF laws])
  show "d2 = d'" if "Open B F path y = (Inr d2, x3)"
    using Open_private [OF that] kept(2) bolt_laws.open_schema_again [OF laws, of d' "()" d2] sch
    by (auto simp: has_schema_def)
  show "Open B F path y = (Inr d', y2)"
    if acc: "accepting B" and st: "sf_Lstat F path y = Lstat_info True m"
      and mk: "sf_MkdirAll F (filepath_Dir path) 448 y = (None, y1)" and op: "sf_BoltOpen F path 384 y1 = (Inr d0, y2)"
  proof -
    have "private_bits m" using lstat_info [OF st] P kept(1) by auto
    moreover have "d0 = d'" using bolt_opens [OF op] mkdir_keeps [OF mk] kept(2) by simp
    moreover have "path \<noteq> []" using run by (auto simp: Open_def)
    ultimately show ?thesis
      using bolt_laws.open_schema_accepts [OF laws acc sch] by (simp add: Open_def st mk op private_bits_def)
  qed
qed

end

end
