(* ===== verification/Storage_Open_Props.thy ===== *)
theory Storage_Open_Props
  imports Storage_Open Storage_Example
begin

text \<open>
  Database files in memory as an instance of the contract of \<open>Storage_Open\<close>, and what opening and
  closing a store promises.
\<close>

section \<open>Database files in memory\<close>

text \<open>The permission bits, the contents and the locks; every path is a place of its own.\<close>

record memory_dbs =
  md_perms :: "gostring \<rightharpoonup> 32 word"
  md_content :: "gostring \<rightharpoonup> memory"
  md_held :: "gostring \<Rightarrow> bool"

definition mem_dbs :: "(memory, memory_dbs) store_files" where
  "mem_dbs = \<lparr>
     sf_Lstat = (\<lambda>p x. case (md_perms x p, md_content x p) of
         (Some m, _) \<Rightarrow> Lstat_info True m
       | (None, None) \<Rightarrow> Lstat_missing
       | (None, Some _) \<Rightarrow> Lstat_failed (New ''permission denied'')),
     sf_MkdirAll = (\<lambda>p m x. (None, x)),
     sf_BoltOpen = (\<lambda>p m x.
       if md_held x p then (Inl (New ''timeout''), x)
       else let d = (case md_content x p of Some d \<Rightarrow> d | None \<Rightarrow> fmempty) in
         (Inr d, x\<lparr>md_perms := (if md_perms x p = None then (md_perms x)(p \<mapsto> m) else md_perms x),
           md_content := (md_content x)(p \<mapsto> d), md_held := (md_held x)(p := True)\<rparr>)),
     sf_BoltClose = (\<lambda>p d x. (None, x\<lparr>md_content := (md_content x)(p \<mapsto> d), md_held := (md_held x)(p := False)\<rparr>))\<rparr>"

interpretation memory_dbs: database_files mem_dbs md_perms md_content md_held "\<lambda>p. p" fmempty
  by unfold_locales (auto simp: mem_dbs_def Let_def split: option.splits if_splits)

section \<open>Opening and closing\<close>


text \<open>
  A store survives being closed: what any run of operations after \<open>Open\<close> left is what
  the next \<open>Open\<close> of the path returns, exactly, once the store was closed and nobody else changed the file. The lock is
  free in between, and the next \<open>Open\<close> cannot fail unless the operating system or the database does.
\<close>

theorem store_reopens:
  assumes "bolt_laws B" and "database_files F perms database locked loc blank"
    and "Open B F path x = (Inr d, x1)" and "store_run B d d'"
    and "Close F path d' x1 = (None, x2)"
  shows "\<not> locked x2 (loc path) \<and>
    (\<forall>d2 x3. Open B F path x2 = (Inr d2, x3) \<longrightarrow> d2 = d') \<and>
    (\<forall>err x3. Open B F path x2 = (Inl err, x3) \<longrightarrow> database x3 (loc path) = Some d') \<and>
    (\<forall>m y1 d0 y2. accepting B \<longrightarrow> sf_Lstat F path x2 = Lstat_info True m \<longrightarrow>
      sf_MkdirAll F (filepath_Dir path) 448 x2 = (None, y1) \<longrightarrow> sf_BoltOpen F path 384 y1 = (Inr d0, y2) \<longrightarrow>
      Open B F path x2 = (Inr d', y2))"
proof -
  have C: "perms x2 = perms x1" "database x2 (loc path) = Some d'" "\<not> locked x2 (loc path)"
    using database_files.bolt_closes [OF assms(2) assms(5) [unfolded Close_def]] by simp_all
  note again = database_files.Open_closed_again [OF assms(2,1,3,4) C(1,2)]
  show ?thesis
    using C(2,3) again database_files.Open_fails [OF assms(2)] by blast
qed

lemma sample_store_opened:
  obtains d x' where "Open mem_bolt mem_dbs (ascii ''s'') \<lparr>md_perms = Map.empty, md_content = Map.empty, md_held = (\<lambda>_. False)\<rparr> = (Inr d, x')"
    "md_held x' (ascii ''s'')" "md_perms x' = [ascii ''s'' \<mapsto> 384]"
    "reachable mem_bolt d" "\<And>n. tenant_view mem_bolt d n = empty_view"
proof -
  obtain d0 where d0: "open_schema mem_bolt fmempty = (Inr (), d0)" "reachable mem_bolt d0"
    "\<And>n. tenant_view mem_bolt d0 n = empty_view"
    using sample_open by metis
  from d0(1) have "Open mem_bolt mem_dbs (ascii ''s'') \<lparr>md_perms = Map.empty, md_content = Map.empty, md_held = (\<lambda>_. False)\<rparr> =
      (Inr d0, \<lparr>md_perms = [ascii ''s'' \<mapsto> 384], md_content = [ascii ''s'' \<mapsto> fmempty],
        md_held = (\<lambda>_. False)(ascii ''s'' := True)\<rparr>)"
    by (simp add: Open_def mem_dbs_def)
  then show thesis by (rule that) (simp_all add: d0)
qed


theorem store_reopens_witness:
  "\<exists>x d x1 x2 x3. Open mem_bolt mem_dbs (ascii ''s'') x = (Inr d, x1) \<and> Close mem_dbs (ascii ''s'') d x1 = (None, x2) \<and>
     Open mem_bolt mem_dbs (ascii ''s'') x2 = (Inr d, x3)"
proof -
  let ?x = "\<lparr>md_perms = Map.empty, md_content = Map.empty, md_held = (\<lambda>_. False)\<rparr>"
  obtain d x1 where run: "Open mem_bolt mem_dbs (ascii ''s'') ?x = (Inr d, x1)" "md_perms x1 = [ascii ''s'' \<mapsto> 384]"
    by (rule sample_store_opened)
  obtain x2 where close: "Close mem_dbs (ascii ''s'') d x1 = (None, x2)"
    "x2 = x1\<lparr>md_content := (md_content x1)(ascii ''s'' \<mapsto> d), md_held := (md_held x1)(ascii ''s'' := False)\<rparr>"
    by (simp add: Close_def mem_dbs_def)
  have os: "sf_Lstat mem_dbs (ascii ''s'') x2 = Lstat_info True 384"
    "sf_MkdirAll mem_dbs (filepath_Dir (ascii ''s'')) 448 x2 = (None, x2)"
    "\<exists>x3. sf_BoltOpen mem_dbs (ascii ''s'') 384 x2 = (Inr d, x3)"
    using run(2) by (simp_all add: mem_dbs_def close(2))
  then obtain x3 where "sf_BoltOpen mem_dbs (ascii ''s'') 384 x2 = (Inr d, x3)" by blast
  with store_reopens [OF memory.bolt_laws_axioms memory_dbs.database_files_axioms run(1) run_nil close(1)] os(1,2)
    memory_accepting
  have "Open mem_bolt mem_dbs (ascii ''s'') x2 = (Inr d, x3)" by blast
  with run(1) close(1) show ?thesis by blast
qed

end
