(* ===== verification/Daemon.thy ===== *)
theory Daemon
  imports Go_Net Storage_Open_Props Server_Props
begin

text \<open>
  The daemon (\<^verbatim>\<open>cmd/sigmaproofd/main.go\<close>) around the time when it serves: its flags, the check of
  the listen address, the opening of the store, and the handler it serves with. Sockets,
  signals, time limits and the log are not modelled, of the shutdown only the closing of the store. The properties say
  that the engine, whose requests are not authenticated, is only served on a loopback address, over a private
  database that has the schema and is as it was found or new, that without a store nothing can be changed, and that what was acknowledged is there after a restart.
\<close>

section \<open>Starting\<close>

definition loopbackListen :: "gostring \<Rightarrow> bool" where
  "loopbackListen addr =
     (case SplitHostPort addr of
        None \<Rightarrow> False
      | Some (host, _) \<Rightarrow>
          if host = ascii ''localhost'' then True
          else (case ParseIP host of None \<Rightarrow> False | Some ip \<Rightarrow> IsLoopback ip))"

definition daemon_flags :: flag_set where
  "daemon_flags = [ascii ''listen'' \<mapsto> String_flag, ascii ''store'' \<mapsto> String_flag]"

text \<open>
  The process exits, for help or a bad flag, or ends with a message, or listens on an address
  and serves, with the path and the database of a store if it has one.
\<close>

datatype 'd startup = Exited int | Fatal go_error | Serving gostring "(gostring \<times> 'd) option"

definition daemon_start :: "'d bolt \<Rightarrow> ('d, 'x) store_files \<Rightarrow> gostring list \<Rightarrow> 'x \<Rightarrow> 'd startup \<times> 'x" where
  "daemon_start B F args x =
     (case Parse_flags daemon_flags Map.empty args of
        Flags_help \<Rightarrow> (Exited 0, x)
      | Flags_bad \<Rightarrow> (Exited 2, x)
      | Flags_parsed vals _ \<Rightarrow>
          let addr = string_flag vals (ascii ''listen'') (ascii ''127.0.0.1:8080'');
              storePath = string_flag vals (ascii ''store'') [] in
          if storePath \<noteq> [] then
            if \<not> loopbackListen addr then
              (Fatal (New ''refusing to expose unauthenticated development engine on a non-loopback listen address''), x)
            else (case Open B F storePath x of
                (Inl err, x) \<Rightarrow> (Fatal err, x)
              | (Inr d, x) \<Rightarrow> (Serving addr (Some (storePath, d)), x))
          else (Serving addr None, x))"

definition daemon_handler :: "'d bolt \<Rightarrow> ('d \<Rightarrow> 'd) \<Rightarrow> ('d \<Rightarrow> 'd) \<Rightarrow> (gostring \<times> 'd) option \<Rightarrow>
    ('d \<times> entropy \<times> 'y) handler" where
  "daemon_handler B between1 between2 store rq s =
     (case store of None \<Rightarrow> (Handler rq, s) | Some _ \<Rightarrow> HandlerWithStore B between1 between2 rq s)"

text \<open>
  What follows the end of serving, with the error of the listener unless it was shut down: only an orderly end
  closes the store, whose error nobody reads. The database is the one after all requests.
\<close>

definition daemon_stop :: "('d, 'x) store_files \<Rightarrow> (gostring \<times> 'd) option \<Rightarrow> go_error option \<Rightarrow> 'x \<Rightarrow> 'd startup \<times> 'x" where
  "daemon_stop F store failed x =
     (case failed of
        Some err \<Rightarrow> (Fatal err, x)
      | None \<Rightarrow> (Exited 0, case store of None \<Rightarrow> x | Some (path, d) \<Rightarrow> snd (Close F path d x)))"

section \<open>The listen address\<close>

lemma last_parts:
  assumes "c \<notin> set p"
  shows "before_last c (h @ c # p) = h" and "after_last c (h @ c # p) = p"
proof -
  have "\<forall>x \<in> set (rev p). x \<noteq> c" using assms by auto
  then have "dropWhile (\<lambda>x. x \<noteq> c) (rev p @ c # rev h) = c # rev h"
    "takeWhile (\<lambda>x. x \<noteq> c) (rev p @ c # rev h) = rev p"
    by (subst dropWhile_append2 takeWhile_append2; simp)+
  then show "before_last c (h @ c # p) = h" "after_last c (h @ c # p) = p"
    by (simp_all add: before_last_def after_last_def)
qed

lemma SplitHostPort_plain:
  assumes "\<forall>x \<in> set host. x \<noteq> 58 \<and> x \<noteq> 91 \<and> x \<noteq> 93" "\<forall>x \<in> set port. x \<noteq> 58 \<and> x \<noteq> 91 \<and> x \<noteq> 93"
  shows "SplitHostPort (host @ 58 # port) = Some (host, port)"
proof -
  have "58 \<notin> set port" "58 \<notin> set host" using assms by auto
  then have "before_last 58 (host @ 58 # port) = host" "after_last 58 (host @ 58 # port) = port"
    by (simp_all add: last_parts)
  moreover have "hd (host @ 58 # port) \<noteq> 91" using assms(1) by (cases host) auto
  ultimately show ?thesis using assms by (auto simp: SplitHostPort_def)
qed

lemma SplitHostPort_dotted:
  assumes "\<forall>x \<in> set port. x \<noteq> 58 \<and> x \<noteq> 91 \<and> x \<noteq> 93"
  shows "SplitHostPort (dotted a b c d @ [58] @ port) = Some (dotted a b c d, port)"
proof -
  have "\<forall>x \<in> set (dotted a b c d). x \<noteq> 58 \<and> x \<noteq> 91 \<and> x \<noteq> 93"
    using decimal_no by (auto simp: dotted_def)
  from SplitHostPort_plain [OF this assms] show ?thesis by simp
qed

lemma SplitHostPort_bracket:
  assumes "\<forall>x \<in> set host. x \<noteq> 91 \<and> x \<noteq> 93" "\<forall>x \<in> set port. x \<noteq> 58 \<and> x \<noteq> 91 \<and> x \<noteq> 93"
  shows "SplitHostPort ([91] @ host @ [93, 58] @ port) = Some (host, port)"
proof -
  have "58 \<notin> set port" using assms by auto
  then have "before_last 58 ([91] @ host @ [93, 58] @ port) = [91] @ host @ [93]"
    "after_last 58 ([91] @ host @ [93, 58] @ port) = port"
    using last_parts [of 58 port "[91] @ host @ [93]"] by simp_all
  moreover have "takeWhile (\<lambda>x. x \<noteq> 93) (host @ 93 # r) = host" for r
    using assms(1) by (simp add: takeWhile_append2)
  ultimately show ?thesis using assms by (auto simp: SplitHostPort_def)
qed

lemma ParseIP_ipv6_loopback: "ParseIP (ascii ''::1'') = Some (replicate 15 0 @ [1])"
  by code_simp

lemma loopbackListen_dotted:
  assumes "\<forall>x \<in> set port. x \<noteq> 58 \<and> x \<noteq> 91 \<and> x \<noteq> 93"
  shows "loopbackListen (dotted 127 a b c @ [58] @ port)"
  using SplitHostPort_dotted [OF assms, of 127 a b c]
  by (simp add: loopbackListen_def ParseIP_dotted IsLoopback_def mapped_def nth_append del: ascii_Cons)

lemma loopbackListen_sound:
  assumes "loopbackListen addr"
  obtains host p where "addr = host @ [58] @ p \<or> addr = [91] @ host @ [93, 58] @ p" "host \<noteq> []"
    "host = ascii ''localhost'' \<or> ParseIP host = Some (replicate 15 0 @ [1]) \<or>
      (\<exists>a b c. ParseIP host = Some (mapped [127, a, b, c]))"
proof -
  obtain host p where hp: "SplitHostPort addr = Some (host, p)"
    and ok: "host = ascii ''localhost'' \<or> (\<exists>ip. ParseIP host = Some ip \<and> IsLoopback ip)"
    using assms by (auto simp: loopbackListen_def simp del: ascii_Cons split: option.splits if_splits)
  have "ParseIP [] = None" by (simp add: ParseIP_def)
  then have "host \<noteq> []" using ok by auto
  then show thesis
    using that [OF SplitHostPort_Some [OF hp]] ok loopback_bytes ParseIP_length by metis
qed

text \<open>
  The check of the listen address is right: it accepts every address of the IPv4 loopback network with a
  port, \<open>localhost\<close> and \<open>[::1]\<close>, and an address that it accepts is a host and a port, where the host
  is \<open>localhost\<close> or the text of an IP address that is \<open>::1\<close> or, as an IPv4 address, begins with 127.
  In particular no host that is empty, and so stands for all interfaces, is accepted.
\<close>

theorem loopback_addresses:
  assumes "\<forall>x \<in> set port. x \<noteq> 58 \<and> x \<noteq> 91 \<and> x \<noteq> 93"
  shows "loopbackListen (dotted 127 a b c @ [58] @ port) \<and>
    loopbackListen (ascii ''localhost:'' @ port) \<and> loopbackListen (ascii ''[::1]:'' @ port) \<and>
    (loopbackListen addr \<longrightarrow>
      (\<exists>host p. (addr = host @ [58] @ p \<or> addr = [91] @ host @ [93, 58] @ p) \<and> host \<noteq> [] \<and>
        (host = ascii ''localhost'' \<or> ParseIP host = Some (replicate 15 0 @ [1]) \<or>
          (\<exists>a b c. ParseIP host = Some (mapped [127, a, b, c])))))"
proof -
  have "SplitHostPort (ascii ''localhost:'' @ port) = Some (ascii ''localhost'', port)"
    using SplitHostPort_plain [of "ascii ''localhost''" port] assms by simp
  then have l: "loopbackListen (ascii ''localhost:'' @ port)" by (simp add: loopbackListen_def del: ascii_Cons)
  have "SplitHostPort (ascii ''[::1]:'' @ port) = Some (ascii ''::1'', port)"
    using SplitHostPort_bracket [of "ascii ''::1''" port] assms by simp
  moreover have "IsLoopback (replicate 15 0 @ [1])" by code_simp
  ultimately have "loopbackListen (ascii ''[::1]:'' @ port)"
    using ParseIP_ipv6_loopback by (simp add: loopbackListen_def del: ascii_Cons)
  with loopbackListen_dotted [OF assms] l show ?thesis using loopbackListen_sound by metis
qed

theorem loopback_addresses_witness:
  "loopbackListen (dotted 127 0 0 1 @ [58] @ ascii ''80'') \<and> \<not> loopbackListen (ascii '':80'')"
proof -
  have port: "\<forall>x \<in> set (ascii ''80''). x \<noteq> 58 \<and> x \<noteq> 91 \<and> x \<noteq> 93" by simp
  have "\<not> loopbackListen (ascii '':80'')"
  proof
    assume "loopbackListen (ascii '':80'')"
    with loopback_addresses [OF port, of 0 0 1 "ascii '':80''"]
    obtain host p where "ascii '':80'' = host @ [58] @ p \<or> ascii '':80'' = [91] @ host @ [93, 58] @ p" "host \<noteq> []"
      by blast
    then show False by (cases host) (auto simp: Cons_eq_append_conv)
  qed
  with loopback_addresses [OF port, of 0 0 1 "[]"] show ?thesis by blast
qed

section \<open>What is served\<close>

lemma daemon_start_store:
  assumes "daemon_start B F args x = (Serving addr (Some (path, d)), x')"
  shows "loopbackListen addr" and "Open B F path x = (Inr d, x')"
  using assms by (auto simp: daemon_start_def Let_def split: flag_outcome.splits if_splits prod.splits sum.splits)

lemma opened_reachable:
  assumes "bolt_laws B" and "database_files F perms database locked loc blank"
    and "\<not> bk_exists B blank schema_path"
    and "\<forall>d. database x (loc path) = Some d \<longrightarrow> bk_exists B d schema_path \<longrightarrow> reachable B d"
    and "Open B F path x = (Inr d, x')"
  shows "reachable B d"
proof -
  have "open_schema B (case database x (loc path) of Some d \<Rightarrow> d | None \<Rightarrow> blank) = (Inr (), d)"
    using database_files.Open_private [OF assms(2,5)] by blast
  then show ?thesis
    by (rule bolt_laws.open_schema_reachable [OF assms(1)]) (use assms(3,4) in \<open>auto split: option.splits\<close>)
qed


text \<open>
  C12. The daemon serves the engine, which does not authenticate its users, only locally, and only over a
  private file whose database it has to itself: if it serves a store, the address it listens on is a loopback
  address, the database file was absent or private and is private, its lock was free and is
  held, and the database has this version of the schema. A database that had a schema is
  served exactly as it was found, and any other one is newly initialised; so what is served is a reachable state,
  as the theorems about the server assume, provided that a database of this schema found in the file was one: apart from
  the schema \<open>Open\<close> does not look at the records. If the daemon serves without a store, no file was touched and no
  request can change anything. And if it does not serve, no database has changed.
\<close>

theorem daemon_serves_locally:
  assumes "bolt_laws B" and "database_files F perms database locked loc blank"
    and "\<not> bk_exists B blank schema_path"
    and "daemon_start B F args x = (started, x')"
  shows "case started of
      Serving addr (Some (path, d)) \<Rightarrow>
        (\<exists>host p. (addr = host @ [58] @ p \<or> addr = [91] @ host @ [93, 58] @ p) \<and> host \<noteq> [] \<and>
          (host = ascii ''localhost'' \<or> ParseIP host = Some (replicate 15 0 @ [1]) \<or>
            (\<exists>a b c. ParseIP host = Some (mapped [127, a, b, c])))) \<and>
        locked x' (loc path) \<and> \<not> locked x (loc path) \<and>
        (\<forall>m. perms x (loc path) = Some m \<longrightarrow> private_bits m) \<and>
        (\<exists>m. perms x' (loc path) = Some m \<and> private_bits m) \<and>
        has_schema B d \<and>
        (\<forall>d0. database x (loc path) = Some d0 \<longrightarrow> bk_exists B d0 schema_path \<longrightarrow> d = d0) \<and>
        ((\<forall>d0. database x (loc path) = Some d0 \<longrightarrow> bk_exists B d0 schema_path \<longrightarrow> reachable B d0) \<longrightarrow>
          reachable B d)
    | Serving addr None \<Rightarrow> x' = x \<and>
        (\<forall>rq s rs s'. daemon_handler B between1 between2 None rq s = (rs, s') \<longrightarrow>
          s' = s \<and> rs_Status rs \<in> {200, 404, 405, 503})
    | _ \<Rightarrow> (\<forall>l d. database x l = Some d \<longrightarrow> database x' l = Some d)"
proof -
  have skeleton: "\<forall>rq s rs s'. daemon_handler B between1 between2 None rq s = (rs, s') \<longrightarrow>
      s' = s \<and> rs_Status rs \<in> {200, 404, 405, 503}"
    by (auto simp: daemon_handler_def Handler_def mux_error_def writeJSON_def simp del: ascii_Cons)
  show ?thesis
  proof (cases "Parse_flags daemon_flags Map.empty args")
    case (Flags_parsed vals rest)
    define addr where "addr = string_flag vals (ascii ''listen'') (ascii ''127.0.0.1:8080'')"
    define path where "path = string_flag vals (ascii ''store'') []"
    note run = assms(4) [unfolded daemon_start_def Flags_parsed flag_outcome.case Let_def, folded addr_def path_def]
    consider "path = []" "started = Serving addr None" "x' = x" | "\<exists>err. started = Fatal err" "x' = x"
      | err where "Open B F path x = (Inl err, x')" "started = Fatal err"
      | d where "loopbackListen addr" "Open B F path x = (Inr d, x')" "started = Serving addr (Some (path, d))"
      using run by (auto split: if_splits prod.splits sum.splits)
    then show ?thesis
    proof cases
      case (3 err)
      then show ?thesis using database_files.Open_fails [OF assms(2)] by auto
    next
      case (4 d)
      note P = database_files.Open_private [OF assms(2) 4(2)]
      then have schema: "has_schema B d" using bolt_laws.opened_has_schema [OF assms(1)] by blast
      have found: "\<forall>d0. database x (loc path) = Some d0 \<longrightarrow> bk_exists B d0 schema_path \<longrightarrow> d = d0"
        using P bolt_laws.open_schema_again [OF assms(1)] by fastforce
      have reach: "(\<forall>d0. database x (loc path) = Some d0 \<longrightarrow> bk_exists B d0 schema_path \<longrightarrow> reachable B d0) \<longrightarrow>
          reachable B d"
        using opened_reachable [OF assms(1-3) _ 4(2)] by blast
      have "\<exists>host p. (addr = host @ [58] @ p \<or> addr = [91] @ host @ [93, 58] @ p) \<and> host \<noteq> [] \<and>
          (host = ascii ''localhost'' \<or> ParseIP host = Some (replicate 15 0 @ [1]) \<or>
            (\<exists>a b c. ParseIP host = Some (mapped [127, a, b, c])))"
        by (rule loopbackListen_sound [OF 4(1)]) (intro exI conjI)
      then show ?thesis
        unfolding 4(3) startup.case option.case prod.case
        using P schema found reach by (elim conjE, intro conjI) assumption+
    qed (use skeleton in auto)
  qed (use assms(4) in \<open>auto simp: daemon_start_def\<close>)
qed

definition daemon_args :: "gostring list" where
  "daemon_args = map ascii [''-store'', ''s'']"

definition no_files :: "memory_dbs" where
  "no_files = \<lparr>md_perms = Map.empty, md_content = Map.empty, md_held = (\<lambda>_. False)\<rparr>"

lemma sample_start:
  assumes "Open mem_bolt mem_dbs (ascii ''s'') x = (Inr d, x')"
  shows "daemon_start mem_bolt mem_dbs daemon_args x = (Serving (ascii ''127.0.0.1:8080'') (Some (ascii ''s'', d)), x')"
proof -
  have dot: "dotted 127 0 0 1 @ [58] @ ascii ''8080'' = ascii ''127.0.0.1:8080''"
    by code_simp
  have "loopbackListen (dotted 127 0 0 1 @ [58] @ ascii ''8080'')" by (rule loopbackListen_dotted) simp
  then have "loopbackListen (ascii ''127.0.0.1:8080'')" unfolding dot .
  moreover have "Parse_flags daemon_flags Map.empty daemon_args = Flags_parsed [ascii ''store'' \<mapsto> String_value (ascii ''s'')] []"
    by (simp add: daemon_args_def daemon_flags_def split_equals_def flag_value_of_def)
  ultimately show ?thesis using assms by (simp add: daemon_start_def string_flag_def)
qed

lemma sample_blank: "\<not> bk_exists mem_bolt fmempty schema_path"
  using memory.no_entries(1) [OF memory_empty] by (simp add: schema_path_def)

theorem daemon_serves_locally_witness:
  "\<exists>x d x'. daemon_start mem_bolt mem_dbs daemon_args x = (Serving (ascii ''127.0.0.1:8080'') (Some (ascii ''s'', d)), x') \<and>
     reachable mem_bolt d"
proof -
  obtain d x' where run: "Open mem_bolt mem_dbs (ascii ''s'') no_files = (Inr d, x')"
    unfolding no_files_def by (rule sample_store_opened)
  note start = sample_start [OF run]
  from daemon_serves_locally [OF memory.bolt_laws_axioms memory_dbs.database_files_axioms sample_blank start]
  have "reachable mem_bolt d" by (simp add: no_files_def)
  with start show ?thesis by blast
qed

section \<open>Across a restart\<close>

text \<open>Whatever a request does to the database is a run of the store.\<close>

lemma handler_runs:
  assumes "bolt_laws B" and "others B between1" and "others B between2"
    and "HandlerWithStore B between1 between2 rq s = (rs, s')"
  shows "store_run B (fst s) (fst s')"
proof -
  note contract = store_contract [OF assms(1-3)]
  have unless_get: "store_run B (fst s) (fst (snd (requireMethod m h rq s)))" if "store_run B (fst s) (fst (snd (h rq s)))" for m h
    using that by (simp add: requireMethod_def Let_def run_nil)
  have "store_run B (fst s) (fst (snd (ingest_handler (store_engine B between1 between2) rq s)))"
    unfolding ingest_handler_eq store_engine_sel
    by (auto simp: run_nil split: sum.split prod.split dest: document_ingester.upload_later [OF contract])
  moreover have "store_run B (fst s) (fst (snd (freeze_handler (store_engine B between1 between2) rq s)))"
    by (auto simp: freeze_handler_def store_engine_def run_nil intro: run_single [OF step_freeze] split: sum.split prod.split)
  ultimately have "store_run B (fst s) (fst (snd (handlerWithEngine (store_engine B between1 between2) rq s)))"
    by (intro handler_routes [where P = "\<lambda>x. store_run B (fst s) (fst (snd x))"] unless_get)
      (simp_all add: run_nil batchStatus_def outbox_handler_def evidenceStatus_def packageExport_def)
  then show ?thesis using assms(4) by (simp add: HandlerWithStore_def)
qed

text \<open>
  C13. A document that the daemon has acknowledged survives a restart, on a working database, new or made by the
  store: after a request was answered
  with 200 or 201, whatever is committed then, an orderly shutdown, and a start with the same store
  while nobody else changed its file, the daemon serves exactly the database it had left, and a request for the package of
  the evidence named in the response is answered with 409, no batch yet, or with 200 and a package that
  verifies the very bytes that were uploaded. The lock of the store is taken again.
\<close>

theorem daemon_restart_keeps_documents:
  fixes s s1 :: "'d \<times> entropy \<times> 'y"
  assumes "bolt_laws B" and "database_files F perms database locked loc blank" and "accepting B"
    and "\<not> bk_exists B blank schema_path"
    and "\<forall>l d. database x l = Some d \<longrightarrow> bk_exists B d schema_path \<longrightarrow> reachable B d"
    and "others B between1" and "others B between2"
    and start: "daemon_start B F args x = (Serving addr (Some (path, d)), x1)" and "store_run B d (fst s)"
    and request: "rq_Path rq = [ascii ''v1'', ascii ''ingest'']"
      "daemon_handler B between1 between2 (Some (path, d)) rq s = (rs, s1)" "rs_Status rs = 200 \<or> rs_Status rs = 201"
    and later: "store_run B (fst s1) d1" and stop: "daemon_stop F (Some (path, d1)) None x1 = (Exited 0, x2)"
    and restart: "daemon_start B F args2 x2 = (Serving addr2 (Some (path, d2)), x3)"
  shows "d2 = d1 \<and> locked x3 (loc path) \<and>
    (\<exists>req doc e c. Option.bind (json_parse (content (rq_Body rq)))
        (dec_struct_strict ingestRequest_fields zero_ingestRequest) = Some req \<and>
      b64_decode_strict (ir_DocumentBase64 req) = Some doc \<and> rs = ingest_response e c \<and>
      (\<forall>rq' rnd. \<forall>y :: 'y. rq_Method rq' = ascii ''GET'' \<longrightarrow>
         rq_Path rq' = [ascii ''v1'', ascii ''evidence'', e_ID e, ascii ''package''] \<longrightarrow>
         rq_Query rq' (ascii ''tenant'') = ir_Tenant req \<longrightarrow>
         (\<exists>rs'. daemon_handler B between1 between2 (Some (path, d2)) rq' (d2, rnd, y) = (rs', (d2, rnd, y)) \<and>
           (rs' = errorJSON 409 ''not_batched'' ''evidence has no frozen batch yet'' \<or>
            rs_Status rs' = 200 \<and>
            (\<forall>k. int (length doc) \<le> sint k \<longrightarrow> k \<noteq> max_int64 \<longrightarrow> IntegrityVerified
              (Verify_package (Some (bytes_reader doc)) (Some (bytes_reader (rs_Body rs'))) k))))))"
proof -
  note first = daemon_start_store(2) [OF start] and again = daemon_start_store(2) [OF restart]
  have d: "reachable B d" by (rule opened_reachable [OF assms(1,2,4) _ first]) (use assms(5) in blast)
  have s: "reachable B (fst s)" by (rule reachable_run [OF assms(9) d])
  have handled: "HandlerWithStore B between1 between2 rq s = (rs, s1)"
    using request(2) by (simp add: daemon_handler_def)
  have run: "store_run B d d1"
    by (rule run_trans [OF later run_trans [OF handler_runs [OF assms(1,6,7) handled] assms(9)]])
  have "x2 = snd (Close F path d1 x1)" using stop by (simp add: daemon_stop_def)
  then have "perms x2 = perms x1" "database x2 (loc path) = Some d1"
    using database_files.bolt_closes [OF assms(2), of path d1 x1]
    by (cases "sf_BoltClose F path d1 x1"; simp add: Close_def)+
  then have same: "d2 = d1"
    using database_files.Open_closed_again(1) [OF assms(2,1) first run _ _ again] by blast
  have "locked x3 (loc path)" using database_files.Open_private [OF assms(2) again] by blast
  moreover have "\<exists>req doc e c. Option.bind (json_parse (content (rq_Body rq)))
        (dec_struct_strict ingestRequest_fields zero_ingestRequest) = Some req \<and>
      b64_decode_strict (ir_DocumentBase64 req) = Some doc \<and> rs = ingest_response e c \<and>
      (\<forall>rq' rnd. \<forall>y :: 'y. rq_Method rq' = ascii ''GET'' \<longrightarrow>
         rq_Path rq' = [ascii ''v1'', ascii ''evidence'', e_ID e, ascii ''package''] \<longrightarrow>
         rq_Query rq' (ascii ''tenant'') = ir_Tenant req \<longrightarrow>
         (\<exists>rs'. HandlerWithStore B between1 between2 rq' (d1, rnd, y) = (rs', (d1, rnd, y)) \<and>
           (rs' = errorJSON 409 ''not_batched'' ''evidence has no frozen batch yet'' \<or>
            rs_Status rs' = 200 \<and>
            (\<forall>k. int (length doc) \<le> sint k \<longrightarrow> k \<noteq> max_int64 \<longrightarrow> IntegrityVerified
              (Verify_package (Some (bytes_reader doc)) (Some (bytes_reader (rs_Body rs'))) k)))))"
  proof (rule ingested_exports [OF assms(1) s assms(3,6,7) request(1) handled request(3)], goal_cases)
    case (1 req doc e)
    note get = 1(4) [of "(d1, rnd, y)" for rnd y, unfolded fst_conv, OF later]
    show ?case
      by (rule exI [of _ req], rule exI [of _ doc], rule exI [of _ e], rule exI, intro conjI allI impI, rule 1, rule 1, rule 1)
        (rule get)
  qed
  ultimately show ?thesis using same by (simp add: daemon_handler_def del: ascii_Cons)
qed


theorem daemon_restart_keeps_documents_witness:
  "\<exists>x d x1 s1 e x2 x3. daemon_start mem_bolt mem_dbs daemon_args x = (Serving (ascii ''127.0.0.1:8080'') (Some (ascii ''s'', d)), x1) \<and>
     sample_server sample_post (d, [Inr [3], Inr sample_raw], ()) = (ingest_response e True, s1) \<and>
     daemon_stop mem_dbs (Some (ascii ''s'', fst s1)) None x1 = (Exited 0, x2) \<and>
     daemon_start mem_bolt mem_dbs daemon_args x2 = (Serving (ascii ''127.0.0.1:8080'') (Some (ascii ''s'', fst s1)), x3)"
proof -
  let ?s = "ascii ''s''"
  obtain d x1 where run: "Open mem_bolt mem_dbs ?s no_files = (Inr d, x1)" "md_perms x1 = [?s \<mapsto> 384]"
    "reachable mem_bolt d" "\<And>n. tenant_view mem_bolt d n = empty_view"
    unfolding no_files_def using sample_store_opened by metis
  obtain e d' where post: "sample_server sample_post (d, [Inr [3], Inr sample_raw], ()) = (ingest_response e True, (d', [], ()))"
    by (rule sample_served_from [OF run(3,4)])
  obtain x2 where stop: "daemon_stop mem_dbs (Some (?s, d')) None x1 = (Exited 0, x2)"
    "x2 = x1\<lparr>md_content := (md_content x1)(?s \<mapsto> d'), md_held := (md_held x1)(?s := False)\<rparr>"
    by (simp add: daemon_stop_def Close_def mem_dbs_def)
  obtain x3 where open2: "sf_BoltOpen mem_dbs ?s 384 x2 = (Inr d', x3)"
    "sf_Lstat mem_dbs ?s x2 = Lstat_info True 384" "sf_MkdirAll mem_dbs (filepath_Dir ?s) 448 x2 = (None, x2)"
    using run(2) by (simp add: mem_dbs_def stop(2))
  have "store_run mem_bolt d d'"
    using handler_runs [OF memory.bolt_laws_axioms others_id others_id post] by simp
  from memory_dbs.Open_closed_again(2) [OF memory.bolt_laws_axioms run(1) this _ _ memory_accepting open2(2,3,1)]
  have again: "Open mem_bolt mem_dbs ?s x2 = (Inr d', x3)" by (simp add: stop(2))
  note start = sample_start [OF run(1)] and restart = sample_start [OF again]
  from daemon_restart_keeps_documents [OF memory.bolt_laws_axioms memory_dbs.database_files_axioms memory_accepting sample_blank _
      others_id others_id start _ sample_post_sel(2) _ _ _ stop(1) restart, of "(d, [Inr [3], Inr sample_raw], ())" "ingest_response e True" "(d', [], ())"]
  have "md_held x3 ?s"
    using post by (simp add: no_files_def daemon_handler_def run_nil del: ascii_Cons)
  then show ?thesis using start post stop(1) restart by fastforce
qed

end
